(* ===== verification/Liota_Prelude.thy ===== *)
theory Liota_Prelude
  imports Main "HOL-Library.AList" "HOL-Library.Sublist" "HOL-Library.Char_ord"
    "HOL-Library.List_Lexorder"
begin

text \<open>
  Shared vocabulary of the development: Python exceptions as values, Python dictionaries as
  association lists with distinct keys (in insertion order), the string operations the sources
  use (\<^verbatim>\<open>split\<close>, \<^verbatim>\<open>join\<close>, \<^verbatim>\<open>splitlines\<close>, \<^verbatim>\<open>startswith\<close>), and the lemmas on
  them that several components need.

  A Python operation that can raise is modelled as a function into
  \<open>(py_error + 'a) \<times> 's\<close>: the state is returned beside the error, because mutations done
  before a \<^verbatim>\<open>raise\<close> stay.
\<close>

named_theorems dict_simps "lookup, key and distinctness facts for dictionaries"

section \<open>Exceptions\<close>

datatype py_error =
    KeyError | TypeError | ValueError | IOError | OSError | IndexError
  | AttributeError | NameError | AssertionError | NotImplementedError
  | RuntimeError            \<comment> \<open>"maximum recursion depth exceeded" and explicit raises\<close>
  | QueueEmpty | QueueFull
  | RegistrationFailure
  | ConfigError             \<comment> \<open>\<^verbatim>\<open>NoSectionError\<close>, \<^verbatim>\<open>NoOptionError\<close>, \<^verbatim>\<open>ParsingError\<close> of \<^verbatim>\<open>ConfigParser\<close>\<close>
  | SystemExit
  | GenericException        \<comment> \<open>\<^verbatim>\<open>raise Exception(...)\<close>\<close>

type_synonym ('s, 'a) outcome = "(py_error + 'a) \<times> 's"

named_theorems outcome_simps "unfolding of sequences of operations that may raise"

text \<open>Sequencing: an exception skips what follows and keeps the state it was raised in.\<close>

definition return_e :: "'a \<Rightarrow> 's \<Rightarrow> ('s, 'a) outcome" where
  "return_e x s = (Inr x, s)"

definition raise_e :: "py_error \<Rightarrow> 's \<Rightarrow> ('s, 'a) outcome" where
  "raise_e e s = (Inl e, s)"

definition bind_e :: "('s \<Rightarrow> ('s, 'a) outcome) \<Rightarrow> ('a \<Rightarrow> 's \<Rightarrow> ('s, 'b) outcome) \<Rightarrow> 's \<Rightarrow> ('s, 'b) outcome" where
  "bind_e m f s = (case m s of (Inl e, s') \<Rightarrow> (Inl e, s') | (Inr x, s') \<Rightarrow> f x s')"

definition then_e :: "('s \<Rightarrow> ('s, 'a) outcome) \<Rightarrow> ('s \<Rightarrow> ('s, 'b) outcome) \<Rightarrow> 's \<Rightarrow> ('s, 'b) outcome" where
  "then_e m n = bind_e m (\<lambda>_. n)"

definition lift_e :: "py_error + 'a \<Rightarrow> 's \<Rightarrow> ('s, 'a) outcome" where
  "lift_e r s = (r, s)"

definition modify_e :: "('s \<Rightarrow> 's) \<Rightarrow> 's \<Rightarrow> ('s, unit) outcome" where
  "modify_e f s = (Inr (), f s)"

definition gets_e :: "('s \<Rightarrow> 'a) \<Rightarrow> 's \<Rightarrow> ('s, 'a) outcome" where
  "gets_e f s = (Inr (f s), s)"

text \<open>The same for values without state.\<close>

definition bind_r :: "py_error + 'a \<Rightarrow> ('a \<Rightarrow> py_error + 'b) \<Rightarrow> py_error + 'b" where
  "bind_r r f = (case r of Inl e \<Rightarrow> Inl e | Inr x \<Rightarrow> f x)"

lemmas outcome_defs [outcome_simps] =
  return_e_def raise_e_def bind_e_def then_e_def lift_e_def modify_e_def gets_e_def

lemma bind_r_simps [simp]: "bind_r (Inl e) f = Inl e" "bind_r (Inr x) f = f x"
  by (simp_all add: bind_r_def)

lemma bind_r_Inr: "bind_r r f = Inr y \<longleftrightarrow> (\<exists>x. r = Inr x \<and> f x = Inr y)"
  by (cases r) simp_all

lemma bind_e_Inr:
  "bind_e m f s = (Inr y, s') \<longleftrightarrow> (\<exists>x s1. m s = (Inr x, s1) \<and> f x s1 = (Inr y, s'))"
  by (auto simp: bind_e_def split: prod.splits sum.splits)

text \<open>A relation between states that every part of a sequence respects.\<close>

definition preserves :: "('s \<Rightarrow> 's \<Rightarrow> bool) \<Rightarrow> ('s \<Rightarrow> ('s, 'a) outcome) \<Rightarrow> bool" where
  "preserves R m \<longleftrightarrow> (\<forall>s. R s (snd (m s)))"

lemma preserves_bind:
  assumes "\<And>x y z. R x y \<Longrightarrow> R y z \<Longrightarrow> R x z" "preserves R m" "\<And>x. preserves R (f x)"
  shows "preserves R (bind_e m f)"
  unfolding preserves_def
proof
  fix s
  obtain r s1 where m: "m s = (r, s1)" by (metis prod.collapse)
  then have "R s s1" using assms(2) unfolding preserves_def by (metis snd_conv)
  moreover have "R s1 (snd (f x s1))" for x using assms(3) unfolding preserves_def by blast
  ultimately show "R s (snd (bind_e m f s))"
    using m assms(1) by (cases r) (auto simp: bind_e_def)
qed

lemma preserves_then:
  "(\<And>x y z. R x y \<Longrightarrow> R y z \<Longrightarrow> R x z) \<Longrightarrow> preserves R m \<Longrightarrow> preserves R n \<Longrightarrow> preserves R (then_e m n)"
  unfolding then_e_def by (rule preserves_bind)

lemma preserves_pure:
  "(\<And>s. R s s) \<Longrightarrow> preserves R (return_e x)" "(\<And>s. R s s) \<Longrightarrow> preserves R (raise_e e)"
  "(\<And>s. R s s) \<Longrightarrow> preserves R (lift_e r)" "(\<And>s. R s s) \<Longrightarrow> preserves R (gets_e g)"
  by (auto simp: preserves_def outcome_simps)

section \<open>Dictionaries\<close>

type_synonym ('k, 'v) dict = "('k \<times> 'v) list"

abbreviation dict_get :: "('k, 'v) dict \<Rightarrow> 'k \<Rightarrow> 'v option" where
  "dict_get d k \<equiv> map_of d k"

abbreviation dict_set :: "'k \<Rightarrow> 'v \<Rightarrow> ('k, 'v) dict \<Rightarrow> ('k, 'v) dict" where
  "dict_set k v d \<equiv> AList.update k v d"

abbreviation dict_del :: "'k \<Rightarrow> ('k, 'v) dict \<Rightarrow> ('k, 'v) dict" where
  "dict_del k d \<equiv> AList.delete k d"

abbreviation dict_keys :: "('k, 'v) dict \<Rightarrow> 'k list" where
  "dict_keys d \<equiv> map fst d"

definition dict_has :: "('k, 'v) dict \<Rightarrow> 'k \<Rightarrow> bool" where
  "dict_has d k \<longleftrightarrow> k \<in> set (dict_keys d)"

abbreviation dict_ok :: "('k, 'v) dict \<Rightarrow> bool" where
  "dict_ok d \<equiv> distinct (dict_keys d)"

text \<open>\<^verbatim>\<open>d.update(e)\<close> and \<^verbatim>\<open>dict(d.items() + e.items())\<close>: later bindings win.\<close>

primrec dict_update :: "('k, 'v) dict \<Rightarrow> ('k, 'v) dict \<Rightarrow> ('k, 'v) dict" where
  "dict_update d [] = d"
| "dict_update d (p # e) = dict_update (dict_set (fst p) (snd p) d) e"

lemma dict_get_set [dict_simps, simp]:
  "dict_get (dict_set k v d) j = (if j = k then Some v else dict_get d j)"
  by (auto simp: update_conv')

lemma dict_get_del [dict_simps, simp]:
  "dict_get (dict_del k d) j = (if j = k then None else dict_get d j)"
  by (auto simp: delete_conv')

lemma dict_has_iff [dict_simps]: "dict_has d k \<longleftrightarrow> dict_get d k \<noteq> None"
  by (simp add: dict_has_def map_of_eq_None_iff)

lemma dict_has_set [dict_simps, simp]: "dict_has (dict_set k v d) j \<longleftrightarrow> j = k \<or> dict_has d j"
  by (simp add: dict_has_iff)

lemma dict_has_del [dict_simps, simp]: "dict_has (dict_del k d) j \<longleftrightarrow> j \<noteq> k \<and> dict_has d j"
  by (simp add: dict_has_iff)

lemma dict_has_Nil [simp]: "\<not> dict_has [] k"
  by (simp add: dict_has_def)

lemma dict_keys_set: "dict_keys (dict_set k v d) = (if dict_has d k then dict_keys d else dict_keys d @ [k])"
  by (simp add: update_keys dict_has_def)

lemma dict_keys_del: "dict_keys (dict_del k d) = removeAll k (dict_keys d)"
  by (simp add: delete_keys)

lemma dict_ok_set [dict_simps, intro]: "dict_ok d \<Longrightarrow> dict_ok (dict_set k v d)"
  by (rule distinct_update)

lemma dict_ok_del [dict_simps, intro]: "dict_ok d \<Longrightarrow> dict_ok (dict_del k d)"
  by (rule distinct_delete)

lemma dict_get_update [dict_simps]:
  "dict_ok e \<Longrightarrow> dict_get (dict_update d e) k = (case dict_get e k of None \<Rightarrow> dict_get d k | Some v \<Rightarrow> Some v)"
proof (induction e arbitrary: d)
  case (Cons p e)
  have "dict_get e (fst p) = None" using Cons.prems by (simp add: map_of_eq_None_iff)
  with Cons show ?case by (cases p) (auto split: option.splits)
qed simp

lemma dict_ok_update [dict_simps, intro]: "dict_ok d \<Longrightarrow> dict_ok (dict_update d e)"
  by (induction e arbitrary: d) (auto simp: dict_ok_set)

lemma dict_set_append: "\<not> dict_has d k \<Longrightarrow> dict_set k v d = d @ [(k, v)]"
  by (induction d) (auto simp: dict_has_def)

lemma dict_get_in_set: "dict_get d k = Some v \<Longrightarrow> (k, v) \<in> set d"
  by (rule map_of_SomeD)

lemma dict_get_eq_iff: "dict_ok d \<Longrightarrow> dict_get d k = Some v \<longleftrightarrow> (k, v) \<in> set d"
  by (simp add: map_of_eq_Some_iff)

section \<open>Strings\<close>

text \<open>\<^verbatim>\<open>s.startswith(p)\<close>, \<^verbatim>\<open>s.endswith(p)\<close>.\<close>

definition startswith :: "string \<Rightarrow> string \<Rightarrow> bool" where
  "startswith s p \<longleftrightarrow> take (length p) s = p"

definition endswith :: "string \<Rightarrow> string \<Rightarrow> bool" where
  "endswith s p \<longleftrightarrow> length p \<le> length s \<and> drop (length s - length p) s = p"

lemma startswith_prefix: "startswith s p \<longleftrightarrow> (\<exists>t. s = p @ t)"
  by (auto simp: startswith_def) (metis append_take_drop_id)

text \<open>\<^verbatim>\<open>s.split(c)\<close> for a one-character separator: always at least one field.\<close>

fun py_split :: "char \<Rightarrow> string \<Rightarrow> string list" where
  "py_split c [] = [[]]"
| "py_split c (x # xs) =
     (if x = c then [] # py_split c xs
      else (case py_split c xs of [] \<Rightarrow> [[x]] | y # ys \<Rightarrow> (x # y) # ys))"

text \<open>\<^verbatim>\<open>sep.join(xs)\<close>.\<close>

fun py_join :: "string \<Rightarrow> string list \<Rightarrow> string" where
  "py_join sep [] = []"
| "py_join sep [x] = x"
| "py_join sep (x # y # ys) = x @ sep @ py_join sep (y # ys)"

lemma py_split_not_Nil [simp]: "py_split c s \<noteq> []"
  by (induction s) (auto split: list.splits)

lemma py_join_split: "py_join [c] (py_split c s) = s"
proof (induction s)
  case (Cons x s)
  obtain y ys where "py_split c s = y # ys" by (cases "py_split c s") auto
  with Cons show ?case by (cases ys) auto
qed simp

lemma py_split_no_sep: "c \<notin> set s \<Longrightarrow> py_split c s = [s]"
  by (induction s) auto

lemma py_split_append_sep: "c \<notin> set s \<Longrightarrow> py_split c (s @ c # t) = s # py_split c t"
  by (induction s) auto

lemma py_split_join:
  "xs \<noteq> [] \<Longrightarrow> \<forall>x\<in>set xs. c \<notin> set x \<Longrightarrow> py_split c (py_join [c] xs) = xs"
  by (induction "[c]" xs rule: py_join.induct) (auto simp: py_split_no_sep py_split_append_sep)

lemma py_split_fields: "f \<in> set (py_split c s) \<Longrightarrow> c \<notin> set f"
proof (induction s arbitrary: f)
  case (Cons x s)
  obtain y ys where "py_split c s = y # ys" by (cases "py_split c s") auto
  with Cons show ?case by (auto split: if_splits)
qed simp

text \<open>\<^verbatim>\<open>s.splitlines()\<close> of a Python 2 \<^verbatim>\<open>str\<close>: lines end at \<^verbatim>\<open>\n\<close>, \<^verbatim>\<open>\r\<close> or \<^verbatim>\<open>\r\n\<close>,
  the terminators are dropped and there is no empty last line.\<close>

abbreviation LF :: char where "LF \<equiv> CHR 0x0A"
abbreviation CR :: char where "CR \<equiv> CHR 0x0D"

fun splitlines_from :: "string \<Rightarrow> string \<Rightarrow> string list" where
  "splitlines_from acc [] = (if acc = [] then [] else [acc])"
| "splitlines_from acc [x] = (if x = LF \<or> x = CR then [acc] else [acc @ [x]])"
| "splitlines_from acc (x # y # ys) =
     (if x = LF then acc # splitlines_from [] (y # ys)
      else if x = CR then acc # splitlines_from [] (if y = LF then ys else y # ys)
      else splitlines_from (acc @ [x]) (y # ys))"

definition splitlines :: "string \<Rightarrow> string list" where
  "splitlines s = splitlines_from [] s"

definition line_free :: "string \<Rightarrow> bool" where
  "line_free s \<longleftrightarrow> LF \<notin> set s \<and> CR \<notin> set s"

lemma splitlines_from_line:
  "line_free l \<Longrightarrow> splitlines_from acc (l @ LF # t) = (acc @ l) # splitlines_from [] t"
proof (induction l arbitrary: acc)
  case Nil
  then show ?case by (cases t) auto
next
  case (Cons x l)
  obtain y ys where "l @ LF # t = y # ys" by (cases l) auto
  with Cons show ?case by (auto simp: line_free_def)
qed

lemma splitlines_unlines:
  "\<forall>l\<in>set ls. line_free l \<Longrightarrow> splitlines (concat (map (\<lambda>l. l @ [LF]) ls)) = ls"
  by (induction ls) (auto simp: splitlines_def splitlines_from_line)

abbreviation TAB :: char where "TAB \<equiv> CHR 0x09"

text \<open>\<^verbatim>\<open>re.match('^[...]+$', s)\<close> for a class of characters \<open>ok\<close>: \<^verbatim>\<open>$\<close> also matches before a
  line feed at the end of the string.\<close>

definition class_match :: "(char \<Rightarrow> bool) \<Rightarrow> string \<Rightarrow> bool" where
  "class_match ok s =
     ((s \<noteq> [] \<and> list_all ok s) \<or> (2 \<le> length s \<and> last s = LF \<and> list_all ok (butlast s)))"

definition is_alnum :: "char \<Rightarrow> bool" where
  "is_alnum c =
     (let n = (of_char c :: nat) in (48 \<le> n \<and> n \<le> 57) \<or> (65 \<le> n \<and> n \<le> 90) \<or> (97 \<le> n \<and> n \<le> 122))"

text \<open>White space: \<^verbatim>\<open>\\s\<close> and what \<^verbatim>\<open>str.split()\<close> and \<^verbatim>\<open>str.strip()\<close> remove.\<close>

definition is_space :: "char \<Rightarrow> bool" where
  "is_space c = (let n = (of_char c :: nat) in n = 32 \<or> (9 \<le> n \<and> n \<le> 13))"

text \<open>Positional notation: \<^verbatim>\<open>str(n)\<close> is \<open>digits_of 10 n\<close>, \<^verbatim>\<open>'%x' % n\<close> is \<open>digits_of 16 n\<close>.\<close>

definition digit_char :: "nat \<Rightarrow> char" where
  "digit_char d = (if d < 16 then ''0123456789abcdef'' ! d else CHR ''?'')"

fun digits_of :: "nat \<Rightarrow> nat \<Rightarrow> string" where
  "digits_of b n = (if b < 2 \<or> n < b then [digit_char n] else digits_of b (n div b) @ [digit_char (n mod b)])"

declare digits_of.simps [simp del]

abbreviation str_nat :: "nat \<Rightarrow> string" where "str_nat n \<equiv> digits_of 10 n"

definition str_bool :: "bool \<Rightarrow> string" where
  "str_bool b = (if b then ''True'' else ''False'')"

definition zero_pad :: "nat \<Rightarrow> string \<Rightarrow> string" where
  "zero_pad w s = replicate (w - length s) (CHR ''0'') @ s"

text \<open>Reading back a numeral.\<close>

definition digit_value :: "char \<Rightarrow> nat" where
  "digit_value c = (if c \<in> set ''0123456789'' then of_char c - 48 else of_char c - 87)"

definition numeral_value :: "nat \<Rightarrow> string \<Rightarrow> nat" where
  "numeral_value b s = foldl (\<lambda>a c. a * b + digit_value c) 0 s"

text \<open>\<^verbatim>\<open>s.strip()\<close>, and \<^verbatim>\<open>int(s)\<close>: white space around an optional sign and digits.\<close>

definition strip :: "string \<Rightarrow> string" where
  "strip s = rev (dropWhile is_space (rev (dropWhile is_space s)))"

definition py_int :: "string \<Rightarrow> py_error + int" where
  "py_int s =
     (let t = strip s;
          neg = (t \<noteq> [] \<and> hd t = CHR ''-'');
          d = (if t \<noteq> [] \<and> (hd t = CHR ''-'' \<or> hd t = CHR ''+'') then tl t else t)
      in if d = [] \<or> \<not> list_all (\<lambda>c. c \<in> set ''0123456789'') d then Inl ValueError
         else Inr ((if neg then -1 else 1) * int (numeral_value 10 d)))"

lemma digit_value_char: "d < 16 \<Longrightarrow> digit_value (digit_char d) = d"
  unfolding digit_char_def digit_value_def
  by (simp only: less_nat_zero_code numeral_eq_Suc pred_numeral_simps less_Suc_eq BitM.simps simp_thms)
     (elim disjE; simp)

lemma numeral_value_digits: "2 \<le> b \<Longrightarrow> b \<le> 16 \<Longrightarrow> numeral_value b (digits_of b n) = n"
proof (induction n rule: less_induct)
  case (less n)
  show ?case
  proof (cases "n < b")
    case True
    with less.prems show ?thesis by (subst digits_of.simps) (simp add: numeral_value_def digit_value_char)
  next
    case False
    with less have "numeral_value b (digits_of b (n div b)) = n div b" by (simp add: div_less_dividend)
    moreover have "n mod b < 16" using less.prems mod_less_divisor [of b n] by linarith
    ultimately show ?thesis using False less.prems
      by (subst digits_of.simps) (simp add: numeral_value_def digit_value_char)
  qed
qed

lemma str_nat_inj: "str_nat m = str_nat n \<Longrightarrow> m = n"
  by (drule arg_cong [where f = "numeral_value 10"]) (simp add: numeral_value_digits)

section \<open>Loops over lists of keys\<close>

lemma length_dropWhile_filter:
  "y \<in> set (filter P ks) \<Longrightarrow>
     length (dropWhile (\<lambda>k. k \<noteq> y) (filter P ks)) \<le> length (dropWhile (\<lambda>k. k \<noteq> y) ks)"
proof (induction ks)
  case (Cons k ks)
  show ?case
  proof (cases "k = y")
    case True
    with Cons.prems show ?thesis by (auto simp: length_filter_le)
  next
    case False
    with Cons.prems have "y \<in> set (filter P ks)" by (auto split: if_splits)
    with False Cons.IH show ?thesis by simp
  qed
qed simp

end
