(* ===== verification/Resource_Registry.thy ===== *)
theory Resource_Registry
  imports Liota_Prelude
begin

text \<open>
  The resource registry of \<^verbatim>\<open>src/liota/core/package_manager.py\<close> (classes
  \<^verbatim>\<open>ResourceRegistry\<close> and \<^verbatim>\<open>ResourceRegistryPerPackage\<close>), and the code of packages as
  programs over the three operations the package manager hands to them. The locale
  \<open>registry_safe\<close> states what it takes for a predicate on registries to survive any package
  code; it is interpreted for the registry invariant and for the frame property of other
  packages' resources.
\<close>

section \<open>The registry\<close>

text \<open>References to Python objects: strings (the registry's \<^verbatim>\<open>package_conf\<close> entry) or an
  object identity.\<close>

datatype resource = RStr string | RObj nat

record registry =
  reg_registry :: "(string, resource) dict"     \<comment> \<open>\<^verbatim>\<open>_registry\<close>: resource name to reference\<close>
  reg_packages :: "(string, string list) dict"  \<comment> \<open>\<^verbatim>\<open>_packages\<close>: package to its resource names\<close>

definition registry_init :: registry where
  "registry_init = \<lparr>reg_registry = [], reg_packages = []\<rparr>"

text \<open>\<^verbatim>\<open>if package_name:\<close> is false for \<^verbatim>\<open>None\<close> and for the empty string.\<close>

definition register :: "string \<Rightarrow> resource \<Rightarrow> string option \<Rightarrow> registry \<Rightarrow> (registry, unit) outcome" where
  "register identifier ref package_name r =
     (if dict_has (reg_registry r) identifier then (Inl KeyError, r)
      else
        let r1 = r\<lparr>reg_registry := dict_set identifier ref (reg_registry r)\<rparr> in
        case package_name of
          None \<Rightarrow> (Inr (), r1)
        | Some p \<Rightarrow>
            if p = [] then (Inr (), r1)
            else
              let ids = (case dict_get (reg_packages r1) p of None \<Rightarrow> [] | Some xs \<Rightarrow> xs) in
              (Inr (), r1\<lparr>reg_packages := dict_set p (ids @ [identifier]) (reg_packages r1)\<rparr>))"

definition deregister :: "string \<Rightarrow> registry \<Rightarrow> (registry, unit) outcome" where
  "deregister identifier r =
     (if dict_has (reg_registry r) identifier
      then (Inr (), r\<lparr>reg_registry := dict_del identifier (reg_registry r)\<rparr>)
      else (Inl KeyError, r))"

definition get :: "string \<Rightarrow> registry \<Rightarrow> py_error + resource" where
  "get identifier r =
     (case dict_get (reg_registry r) identifier of None \<Rightarrow> Inl KeyError | Some v \<Rightarrow> Inr v)"

definition has :: "string \<Rightarrow> registry \<Rightarrow> bool" where
  "has identifier r = dict_has (reg_registry r) identifier"

text \<open>\<^verbatim>\<open>ResourceRegistryPerPackage\<close> forwards to the registry with its package's name.\<close>

record per_package =
  pp_package_name :: string

definition get_package_registry :: "string \<Rightarrow> per_package" where
  "get_package_registry package_name = \<lparr>pp_package_name = package_name\<rparr>"

definition pp_register :: "per_package \<Rightarrow> string \<Rightarrow> resource \<Rightarrow> registry \<Rightarrow> (registry, unit) outcome" where
  "pp_register pp identifier ref r = register identifier ref (Some (pp_package_name pp)) r"

definition pp_get :: "per_package \<Rightarrow> string \<Rightarrow> registry \<Rightarrow> py_error + resource" where
  "pp_get pp identifier r = get identifier r"

definition pp_has :: "per_package \<Rightarrow> string \<Rightarrow> registry \<Rightarrow> bool" where
  "pp_has pp identifier r = has identifier r"

section \<open>Package code\<close>

text \<open>
  The methods \<^verbatim>\<open>run\<close> and \<^verbatim>\<open>clean_up\<close> of a package are user code. What they can do to the
  manager is call \<^verbatim>\<open>register\<close>, \<^verbatim>\<open>get\<close> and \<^verbatim>\<open>has\<close> of the object they are given, look at
  the results (a raised \<^verbatim>\<open>KeyError\<close> included, which they may catch), and finally return or
  raise. A program is therefore a tree of such calls.
\<close>

datatype pkg_prog =
    Return
  | Raise py_error
  | Register string resource "bool \<Rightarrow> pkg_prog"   \<comment> \<open>\<open>True\<close>: stored, \<open>False\<close>: \<open>KeyError\<close>\<close>
  | Get string "resource option \<Rightarrow> pkg_prog"      \<comment> \<open>\<open>None\<close>: \<open>KeyError\<close>\<close>
  | Has string "bool \<Rightarrow> pkg_prog"

primrec run_prog :: "pkg_prog \<Rightarrow> per_package \<Rightarrow> registry \<Rightarrow> (registry, unit) outcome" where
  "run_prog Return pp r = (Inr (), r)"
| "run_prog (Raise e) pp r = (Inl e, r)"
| "run_prog (Register i v k) pp r =
     (case pp_register pp i v r of
        (Inl e, r') \<Rightarrow> run_prog (k False) pp r'
      | (Inr _, r') \<Rightarrow> run_prog (k True) pp r')"
| "run_prog (Get i k) pp r =
     (case pp_get pp i r of Inl e \<Rightarrow> run_prog (k None) pp r | Inr v \<Rightarrow> run_prog (k (Some v)) pp r)"
| "run_prog (Has i k) pp r = run_prog (k (pp_has pp i r)) pp r"

section \<open>Removing a package's resources\<close>

text \<open>The loop of \<^verbatim>\<open>_package_unload\<close> over \<^verbatim>\<open>_packages[file_name]\<close>.\<close>

primrec deregister_all :: "string list \<Rightarrow> registry \<Rightarrow> (registry, unit) outcome" where
  "deregister_all [] r = (Inr (), r)"
| "deregister_all (i # is) r =
     (case deregister i r of (Inl e, r') \<Rightarrow> (Inl e, r') | (Inr _, r') \<Rightarrow> deregister_all is r')"

definition deregister_package :: "string \<Rightarrow> registry \<Rightarrow> (registry, unit) outcome" where
  "deregister_package p r =
     (case dict_get (reg_packages r) p of
        None \<Rightarrow> (Inr (), r)
      | Some ids \<Rightarrow>
          case deregister_all ids r of
            (Inl e, r') \<Rightarrow> (Inl e, r')
          | (Inr _, r') \<Rightarrow> (Inr (), r'\<lparr>reg_packages := dict_del p (reg_packages r')\<rparr>))"

section \<open>Predicates that survive package code\<close>

locale registry_safe =
  fixes pp :: per_package
    and P :: "registry \<Rightarrow> bool"
  assumes P_register: "P r \<Longrightarrow> P (snd (pp_register pp i v r))"
begin

lemma P_run_prog: "P r \<Longrightarrow> P (snd (run_prog prog pp r))"
proof (induction prog arbitrary: r)
  case (Register i v k)
  from Register.prems have "P (snd (pp_register pp i v r))" by (rule P_register)
  with Register.IH show ?case by (auto split: prod.splits sum.splits)
next
  case (Get i k)
  then show ?case by (auto split: sum.splits)
qed auto

end

section \<open>The registry invariant\<close>

text \<open>
  Every name listed under a package is registered, no name is listed twice, neither within a
  package nor under two packages.
\<close>

definition owned :: "registry \<Rightarrow> string \<Rightarrow> string list" where
  "owned r p = (case dict_get (reg_packages r) p of None \<Rightarrow> [] | Some ids \<Rightarrow> ids)"

definition registry_inv :: "registry \<Rightarrow> bool" where
  "registry_inv r \<longleftrightarrow>
     dict_ok (reg_registry r) \<and> dict_ok (reg_packages r) \<and>
     (\<forall>p. distinct (owned r p)) \<and>
     (\<forall>p i. i \<in> set (owned r p) \<longrightarrow> dict_has (reg_registry r) i) \<and>
     (\<forall>p q i. i \<in> set (owned r p) \<longrightarrow> i \<in> set (owned r q) \<longrightarrow> p = q)"

lemma registry_invD:
  assumes "registry_inv r"
  shows "dict_ok (reg_registry r)" "dict_ok (reg_packages r)" "distinct (owned r p)"
    "i \<in> set (owned r p) \<Longrightarrow> dict_has (reg_registry r) i"
    "i \<in> set (owned r p) \<Longrightarrow> i \<in> set (owned r q) \<Longrightarrow> p = q"
  using assms by (auto simp: registry_inv_def)

lemma registry_inv_init: "registry_inv registry_init"
  by (simp add: registry_inv_def registry_init_def owned_def)

lemma owned_register:
  "owned (snd (register i v pn r)) q =
     (if \<not> dict_has (reg_registry r) i \<and> pn = Some q \<and> q \<noteq> [] then owned r q @ [i] else owned r q)"
  by (auto simp: register_def owned_def Let_def split: option.splits)

lemma registry_register:
  "reg_registry (snd (register i v pn r)) =
     (if dict_has (reg_registry r) i then reg_registry r else dict_set i v (reg_registry r))"
  by (auto simp: register_def Let_def split: option.splits)

lemma registry_inv_register:
  assumes "registry_inv r"
  shows "registry_inv (snd (register i v pn r))"
proof (cases "dict_has (reg_registry r) i")
  case True
  with assms show ?thesis by (simp add: register_def)
next
  case False
  let ?r = "snd (register i v pn r)"
  have "dict_ok (reg_packages ?r)"
    using registry_invD(2)[OF assms]
    by (auto simp: register_def Let_def intro: distinct_update split: option.splits)
  moreover have "dict_ok (reg_registry ?r)"
    using registry_invD(1)[OF assms] by (simp add: registry_register False distinct_update)
  moreover have "i \<notin> set (owned r p)" for p
    using registry_invD(4)[OF assms] False by blast
  ultimately show ?thesis
    using registry_invD(3-5)[OF assms] False
    unfolding registry_inv_def by (auto simp: owned_register registry_register)
qed

text \<open>The registry invariant, and what other packages own, survive any package code.\<close>

interpretation inv_safe: registry_safe pp registry_inv for pp
  by unfold_locales (simp add: pp_register_def registry_inv_register)

interpretation frame_safe: registry_safe pp
  "\<lambda>r. q \<noteq> pp_package_name pp \<longrightarrow> registry_inv r \<and> owned r q = ids \<and>
     (\<forall>i\<in>set ids. dict_get (reg_registry r) i = f i)"
  for pp q ids f
proof unfold_locales
  fix r i v
  assume r: "q \<noteq> pp_package_name pp \<longrightarrow> registry_inv r \<and> owned r q = ids \<and>
    (\<forall>i\<in>set ids. dict_get (reg_registry r) i = f i)"
  show "q \<noteq> pp_package_name pp \<longrightarrow> registry_inv (snd (pp_register pp i v r)) \<and>
      owned (snd (pp_register pp i v r)) q = ids \<and>
      (\<forall>j\<in>set ids. dict_get (reg_registry (snd (pp_register pp i v r))) j = f j)"
  proof
    assume "q \<noteq> pp_package_name pp"
    with r registry_invD(4)[of r]
    show "registry_inv (snd (pp_register pp i v r)) \<and> owned (snd (pp_register pp i v r)) q = ids \<and>
        (\<forall>j\<in>set ids. dict_get (reg_registry (snd (pp_register pp i v r))) j = f j)"
      by (auto simp: pp_register_def owned_register registry_register registry_inv_register)
  qed
qed

section \<open>Deregistering a package\<close>

lemma deregister_all_ok:
  assumes "distinct ids" "\<forall>i\<in>set ids. dict_has (reg_registry r) i" "dict_ok (reg_registry r)"
  shows "\<exists>r'. deregister_all ids r = (Inr (), r') \<and> reg_packages r' = reg_packages r \<and>
    dict_ok (reg_registry r') \<and>
    (\<forall>i. dict_get (reg_registry r') i = (if i \<in> set ids then None else dict_get (reg_registry r) i))"
  using assms
proof (induction ids arbitrary: r)
  case (Cons i ids)
  let ?r = "r\<lparr>reg_registry := dict_del i (reg_registry r)\<rparr>"
  have "\<forall>j\<in>set ids. dict_has (reg_registry ?r) j" "dict_ok (reg_registry ?r)"
    using Cons.prems by (auto intro: dict_ok_del)
  then obtain r' where "deregister_all ids ?r = (Inr (), r')" "reg_packages r' = reg_packages ?r"
    "dict_ok (reg_registry r')"
    "\<forall>j. dict_get (reg_registry r') j = (if j \<in> set ids then None else dict_get (reg_registry ?r) j)"
    using Cons.IH [of ?r] Cons.prems(1) by auto
  with Cons.prems show ?case by (auto simp: deregister_def)
qed auto

lemma deregister_package_ok:
  assumes inv: "registry_inv r"
  obtains r' where "deregister_package p r = (Inr (), r')" "registry_inv r'" "owned r' p = []"
    "\<And>q. q \<noteq> p \<Longrightarrow> owned r' q = owned r q"
    "\<And>i. dict_get (reg_registry r') i = (if i \<in> set (owned r p) then None else dict_get (reg_registry r) i)"
proof (cases "dict_get (reg_packages r) p")
  case None
  with inv that [of r] show ?thesis by (simp add: deregister_package_def owned_def)
next
  case (Some ids)
  then have o: "owned r p = ids" by (simp add: owned_def)
  with inv obtain r' where r': "deregister_all ids r = (Inr (), r')" "reg_packages r' = reg_packages r"
    "dict_ok (reg_registry r')"
    "\<forall>i. dict_get (reg_registry r') i = (if i \<in> set ids then None else dict_get (reg_registry r) i)"
    using deregister_all_ok [of ids r] registry_invD(1,3,4)[OF inv] by blast
  let ?r = "r'\<lparr>reg_packages := dict_del p (reg_packages r')\<rparr>"
  have ow: "owned ?r q = (if q = p then [] else owned r q)" for q
    using r'(2) by (simp add: owned_def)
  have has: "dict_has (reg_registry ?r) i \<longleftrightarrow> i \<notin> set ids \<and> dict_has (reg_registry r) i" for i
    using r'(4) by (simp add: dict_has_iff)
  have "registry_inv ?r"
    using registry_invD [OF inv] r'(2,3) o unfolding registry_inv_def ow has
    by (auto intro: dict_ok_del)
  moreover have "deregister_package p r = (Inr (), ?r)"
    using Some r'(1) by (simp add: deregister_package_def)
  ultimately show ?thesis using that [of ?r] ow r'(4) o by simp
qed

text \<open>Code of package \<open>p\<close> leaves the resources of every other package alone.\<close>

lemma run_prog_frame:
  assumes "registry_inv r" "q \<noteq> pp_package_name pp" "run_prog prog pp r = (x, r')"
  shows "owned r' q = owned r q"
    and "i \<in> set (owned r q) \<Longrightarrow> dict_get (reg_registry r') i = dict_get (reg_registry r) i"
  using frame_safe.P_run_prog [of q pp r "owned r q" "dict_get (reg_registry r)" prog] assms
  by auto

lemma registry_inv_run_prog: "registry_inv r \<Longrightarrow> run_prog prog pp r = (x, r') \<Longrightarrow> registry_inv r'"
  by (metis inv_safe.P_run_prog snd_conv)

end
