(* ===== verification/Autoload_List.thy ===== *)
theory Autoload_List
  imports Liota_Prelude
begin

text \<open>
  The file of packages that are loaded at start-up, one \<^verbatim>\<open>name:checksum\<close> per line:
  \<^verbatim>\<open>_write_package_into_autoload\<close>, \<^verbatim>\<open>_remove_package_from_autoload\<close> and the parsing part
  of \<^verbatim>\<open>_package_load_auto\<close> of \<^verbatim>\<open>src/liota/core/package_manager.py\<close>. The file is kept at
  the level of its characters, because the code rewrites it in place. The abstract view is the
  list of its entries; the lemmas at the end show that the two writers refine list operations.
\<close>

section \<open>The code\<close>

text \<open>\<^verbatim>\<open>k, v = values.split(":")\<close> raises \<open>ValueError\<close> unless there are exactly two fields.\<close>

definition split_record :: "string \<Rightarrow> py_error + (string \<times> string)" where
  "split_record values = (case py_split CHR '':'' values of [k, v] \<Rightarrow> Inr (k, v) | _ \<Rightarrow> Inl ValueError)"

text \<open>Writing \<open>w\<close> from offset 0 without truncating leaves the rest of the old content.\<close>

definition overwrite :: "string \<Rightarrow> string \<Rightarrow> string" where
  "overwrite w content = w @ drop (length w) content"

text \<open>The loop of the writer: \<open>w\<close> is what has been written so far.\<close>

primrec write_records ::
  "string \<Rightarrow> string option \<Rightarrow> string list \<Rightarrow> bool \<Rightarrow> string \<Rightarrow> (py_error + bool) \<times> string" where
  "write_records file_name checksum [] found w = (Inr found, w)"
| "write_records file_name checksum (values # rest) found w =
     (case split_record values of
        Inl e \<Rightarrow> (Inl e, w)
      | Inr (k, v) \<Rightarrow>
          if k \<noteq> file_name then write_records file_name checksum rest found (w @ values @ [LF])
          else if checksum \<noteq> None then write_records file_name checksum rest True (w @ values @ [LF])
          else write_records file_name checksum rest found w)"

text \<open>\<open>None\<close> is a file that cannot be opened: the \<open>IOError\<close> is caught and logged.\<close>

definition write_package_into_autoload ::
  "string \<Rightarrow> string option \<Rightarrow> string option \<Rightarrow> (string option, unit) outcome" where
  "write_package_into_autoload file_name checksum file =
     (case file of
        None \<Rightarrow> (Inr (), None)
      | Some content \<Rightarrow>
          case write_records file_name checksum (splitlines content) False [] of
            (Inl e, w) \<Rightarrow> (Inl e, Some (overwrite w content))
          | (Inr found, w) \<Rightarrow>
              (Inr (),
               Some (if found then w
                     else (case checksum of
                             None \<Rightarrow> w
                           | Some c \<Rightarrow> w @ file_name @ '':'' @ c @ [LF]))))"

primrec remove_records :: "string \<Rightarrow> string list \<Rightarrow> string \<Rightarrow> (py_error + unit) \<times> string" where
  "remove_records file_name [] w = (Inr (), w)"
| "remove_records file_name (values # rest) w =
     (case split_record values of
        Inl e \<Rightarrow> (Inl e, w)
      | Inr (k, v) \<Rightarrow>
          remove_records file_name rest (if k \<noteq> file_name then w @ values @ [LF] else w))"

definition remove_package_from_autoload ::
  "string \<Rightarrow> string option \<Rightarrow> (string option, unit) outcome" where
  "remove_package_from_autoload file_name file =
     (case file of
        None \<Rightarrow> (Inr (), None)
      | Some content \<Rightarrow>
          case remove_records file_name (splitlines content) [] of
            (Inl e, w) \<Rightarrow> (Inl e, Some (overwrite w content))
          | (Inr _, w) \<Rightarrow> (Inr (), Some w))"

primrec parse_records :: "string list \<Rightarrow> py_error + (string \<times> string) list" where
  "parse_records [] = Inr []"
| "parse_records (values # rest) =
     (case split_record values of
        Inl e \<Rightarrow> Inl e
      | Inr kv \<Rightarrow> (case parse_records rest of Inl e \<Rightarrow> Inl e | Inr kvs \<Rightarrow> Inr (kv # kvs)))"

text \<open>The start-up list that \<^verbatim>\<open>_package_load_auto\<close> reads.\<close>

definition startup_list :: "string option \<Rightarrow> py_error + (string \<times> string) list" where
  "startup_list file = (case file of None \<Rightarrow> Inr [] | Some content \<Rightarrow> parse_records (splitlines content))"

section \<open>The abstract view\<close>

definition field_ok :: "string \<Rightarrow> bool" where
  "field_ok s \<longleftrightarrow> line_free s \<and> CHR '':'' \<notin> set s"

definition entries_ok :: "(string \<times> string) list \<Rightarrow> bool" where
  "entries_ok es \<longleftrightarrow> (\<forall>(k, v)\<in>set es. field_ok k \<and> field_ok v)"

definition record_line :: "string \<times> string \<Rightarrow> string" where
  "record_line kv = fst kv @ '':'' @ snd kv"

definition file_of :: "(string \<times> string) list \<Rightarrow> string" where
  "file_of es = concat (map (\<lambda>kv. record_line kv @ [LF]) es)"

definition autoload_ok :: "string option \<Rightarrow> bool" where
  "autoload_ok file \<longleftrightarrow> (case file of None \<Rightarrow> True | Some content \<Rightarrow> \<exists>es. entries_ok es \<and> content = file_of es)"

lemma entries_ok_simps [simp]:
  "entries_ok []"
  "entries_ok (kv # es) \<longleftrightarrow> field_ok (fst kv) \<and> field_ok (snd kv) \<and> entries_ok es"
  "entries_ok (es @ fs) \<longleftrightarrow> entries_ok es \<and> entries_ok fs"
  by (auto simp: entries_ok_def)

lemma entries_ok_filter [simp]: "entries_ok es \<Longrightarrow> entries_ok (filter P es)"
  by (auto simp: entries_ok_def)

lemma file_of_simps [simp]:
  "file_of [] = []" "file_of (kv # es) = record_line kv @ [LF] @ file_of es"
  "file_of (es @ fs) = file_of es @ file_of fs"
  by (auto simp: file_of_def)

lemma split_record_line [simp]:
  "field_ok (fst kv) \<Longrightarrow> field_ok (snd kv) \<Longrightarrow> split_record (record_line kv) = Inr kv"
  by (simp add: split_record_def record_line_def field_ok_def py_split_append_sep py_split_no_sep)

lemma splitlines_file_of: "entries_ok es \<Longrightarrow> splitlines (file_of es) = map record_line es"
proof -
  assume ok: "entries_ok es"
  have "file_of es = concat (map (\<lambda>l. l @ [LF]) (map record_line es))"
    by (simp add: file_of_def comp_def)
  moreover have "\<forall>l\<in>set (map record_line es). line_free l"
    using ok by (auto simp: entries_ok_def field_ok_def line_free_def record_line_def)
  ultimately show ?thesis using splitlines_unlines by metis
qed

lemma parse_records_lines: "entries_ok es \<Longrightarrow> parse_records (map record_line es) = Inr es"
  by (induction es) auto

lemma remove_records_lines:
  "entries_ok es \<Longrightarrow> remove_records f (map record_line es) w =
     (Inr (), w @ file_of (filter (\<lambda>kv. fst kv \<noteq> f) es))"
  by (induction es arbitrary: w) auto

lemma write_records_lines:
  "entries_ok es \<Longrightarrow> write_records f (Some c) (map record_line es) found w =
     (Inr (found \<or> f \<in> fst ` set es), w @ file_of es)"
  by (induction es arbitrary: w found) auto

text \<open>The two writers on a well-formed file.\<close>

lemma remove_file_of:
  "entries_ok es \<Longrightarrow> remove_package_from_autoload f (Some (file_of es)) =
     (Inr (), Some (file_of (filter (\<lambda>kv. fst kv \<noteq> f) es)))"
  by (simp add: remove_package_from_autoload_def splitlines_file_of remove_records_lines)

lemma write_file_of:
  "entries_ok es \<Longrightarrow> write_package_into_autoload f (Some c) (Some (file_of es)) =
     (Inr (), Some (file_of (if f \<in> fst ` set es then es else es @ [(f, c)])))"
  by (simp add: write_package_into_autoload_def splitlines_file_of write_records_lines record_line_def)

lemma startup_file_of: "entries_ok es \<Longrightarrow> startup_list (Some (file_of es)) = Inr es"
  by (simp add: startup_list_def splitlines_file_of parse_records_lines)

lemma autoload_ok_cases [consumes 1, case_names missing entries]:
  assumes "autoload_ok file"
  obtains "file = None" | es where "entries_ok es" "file = Some (file_of es)"
  using assms by (auto simp: autoload_ok_def split: option.splits)

lemma autoload_okI [intro]: "entries_ok es \<Longrightarrow> autoload_ok (Some (file_of es))"
  by (auto simp: autoload_ok_def)

lemma autoload_ok_None [simp]: "autoload_ok None"
  by (simp add: autoload_ok_def)

lemma autoload_ok_remove:
  assumes "autoload_ok file"
  shows "fst (remove_package_from_autoload f file) = Inr ()"
    and "autoload_ok (snd (remove_package_from_autoload f file))"
  using assms by (cases rule: autoload_ok_cases;
      auto simp: remove_file_of remove_package_from_autoload_def [of _ None])+

lemma autoload_ok_write:
  assumes "autoload_ok file" "field_ok f" "field_ok c"
  shows "fst (write_package_into_autoload f (Some c) file) = Inr ()"
    and "autoload_ok (snd (write_package_into_autoload f (Some c) file))"
  using assms by (cases rule: autoload_ok_cases;
      auto simp: write_file_of write_package_into_autoload_def [of _ _ None]
        intro!: autoload_okI [of "_ @ [_]", simplified])+

end
