(* ===== verification/Package_Files.thy ===== *)
theory Package_Files
  imports Liota_Prelude Resource_Registry
begin

text \<open>
  The files of the package directory and how \<^verbatim>\<open>PackageThread\<close> finds, checks and imports them:
  \<^verbatim>\<open>os.path.abspath\<close> (POSIX), \<^verbatim>\<open>sha1sum\<close>, \<^verbatim>\<open>_package_chk_exists\<close> and
  \<^verbatim>\<open>_package_module_load\<close>. A file carries its checksum and what importing it gives; the content
  of a module is its \<^verbatim>\<open>dependencies\<close> attribute and its \<^verbatim>\<open>PackageClass\<close>.
\<close>

section \<open>Modules and files\<close>

datatype deps_attr =
    NoDeps                       \<comment> \<open>no attribute \<^verbatim>\<open>dependencies\<close>\<close>
  | DepsNotList                  \<comment> \<open>the attribute is not a list\<close>
  | DepsList "string list"

record klass =
  k_new_ok :: bool               \<comment> \<open>\<^verbatim>\<open>klass()\<close> returns an instance (\<open>False\<close>: it raises)\<close>
  k_is_package :: bool           \<comment> \<open>its instances are \<^verbatim>\<open>LiotaPackage\<close> objects\<close>
  k_run :: pkg_prog
  k_clean_up :: pkg_prog

record pkg_module =
  m_dependencies :: deps_attr
  m_class :: "klass option"      \<comment> \<open>\<open>None\<close>: no attribute \<^verbatim>\<open>PackageClass\<close>\<close>

record pkg_file =
  f_sha1 :: string               \<comment> \<open>\<^verbatim>\<open>hexdigest()\<close> of the file's SHA-1\<close>
  f_module :: "pkg_module option"  \<comment> \<open>\<open>None\<close>: importing the file raises\<close>

type_synonym files = "(string, pkg_file) dict"

section \<open>POSIX paths\<close>

definition initial_slashes :: "string \<Rightarrow> nat" where
  "initial_slashes p =
     (if startswith p ''/'' then (if startswith p ''//'' \<and> \<not> startswith p ''///'' then 2 else 1) else 0)"

definition norm_step :: "bool \<Rightarrow> string list \<Rightarrow> string \<Rightarrow> string list" where
  "norm_step rooted comps c =
     (if c = [] \<or> c = ''.'' then comps
      else if c \<noteq> ''..'' \<or> (\<not> rooted \<and> comps = []) \<or> (comps \<noteq> [] \<and> last comps = ''..'')
      then comps @ [c]
      else if comps \<noteq> [] then butlast comps
      else comps)"

definition normpath :: "string \<Rightarrow> string" where
  "normpath p =
     (if p = [] then ''.''
      else
        let n = initial_slashes p;
            comps = foldl (norm_step (0 < n)) [] (py_split CHR ''/'' p);
            q = replicate n CHR ''/'' @ py_join ''/'' comps
        in if q = [] then ''.'' else q)"

definition abspath :: "string \<Rightarrow> string \<Rightarrow> string" where
  "abspath cwd p =
     normpath (if startswith p ''/'' then p
               else if endswith cwd ''/'' then cwd @ p else cwd @ ''/'' @ p)"

section \<open>Looking a package up\<close>

definition isfile :: "files \<Rightarrow> string \<Rightarrow> bool" where
  "isfile fs p = dict_has fs p"

definition sha1sum :: "files \<Rightarrow> string \<Rightarrow> string option" where
  "sha1sum fs p = map_option f_sha1 (dict_get fs p)"

definition extensions :: "string list" where
  "extensions = [''py'', ''pyc'', ''pyo'']"

definition c_slash :: "string \<Rightarrow> string" where
  "c_slash package_path = (if endswith package_path ''/'' then [] else ''/'')"

text \<open>\<^verbatim>\<open>path_file\<close> of \<^verbatim>\<open>_package_chk_exists\<close> and \<^verbatim>\<open>_package_delete\<close>.\<close>

definition path_file_of :: "string \<Rightarrow> string \<Rightarrow> string \<Rightarrow> string" where
  "path_file_of cwd package_path file_name =
     abspath cwd (package_path @ c_slash package_path @ file_name)"

primrec first_existing :: "files \<Rightarrow> string \<Rightarrow> string list \<Rightarrow> string option" where
  "first_existing fs path_file [] = None"
| "first_existing fs path_file (ext # exts) =
     (if isfile fs (path_file @ ''.'' @ ext) then Some ext else first_existing fs path_file exts)"

primrec checksums :: "files \<Rightarrow> string \<Rightarrow> string list \<Rightarrow> string list" where
  "checksums fs path_file [] = []"
| "checksums fs path_file (ext # exts) =
     (case sha1sum fs (path_file @ ''.'' @ ext) of
        None \<Rightarrow> checksums fs path_file exts
      | Some c \<Rightarrow> c # checksums fs path_file exts)"

text \<open>The result \<open>None\<close> stands for \<^verbatim>\<open>None, None, None\<close>; \<^verbatim>\<open>not ext_forced\<close> holds of \<open>None\<close>
  and of the empty string.\<close>

definition package_chk_exists ::
  "files \<Rightarrow> string \<Rightarrow> string \<Rightarrow> string \<Rightarrow> string option \<Rightarrow> (string \<times> string \<times> string list) option" where
  "package_chk_exists fs cwd package_path file_name ext_forced =
     (let path_file = path_file_of cwd package_path file_name in
      if \<not> startswith path_file (abspath cwd package_path @ ''/'') then None
      else
        let checksum_list = checksums fs path_file extensions;
            file_ext =
              (case ext_forced of
                 None \<Rightarrow> first_existing fs path_file extensions
               | Some ext \<Rightarrow>
                   if ext = [] then first_existing fs path_file extensions
                   else if isfile fs (path_file @ ''.'' @ ext) then Some ext else None)
        in case file_ext of
             None \<Rightarrow> None
           | Some ext \<Rightarrow> if ext = [] then None else Some (path_file @ ''.'' @ ext, ext, checksum_list))"

text \<open>\<^verbatim>\<open>_package_module_load\<close>: any exception while importing is logged and gives \<^verbatim>\<open>None, None\<close>;
  an extension outside the three known ones raises inside the same \<^verbatim>\<open>try\<close>.\<close>

definition package_module_load :: "files \<Rightarrow> string \<Rightarrow> string \<Rightarrow> pkg_module option" where
  "package_module_load fs path_file_ext file_ext =
     (if file_ext \<in> set [''py''] \<or> file_ext \<in> set [''pyc'', ''pyo'']
      then (case dict_get fs path_file_ext of None \<Rightarrow> None | Some f \<Rightarrow> f_module f)
      else None)"

section \<open>Lemmas\<close>

lemma first_existing_SomeD:
  "first_existing fs p exts = Some ext \<Longrightarrow> ext \<in> set exts \<and> isfile fs (p @ ''.'' @ ext)"
  by (induction exts) (auto split: if_splits)

lemma set_checksums:
  "set (checksums fs p exts) = {c. \<exists>ext\<in>set exts. sha1sum fs (p @ ''.'' @ ext) = Some c}"
  by (induction exts) (auto split: option.splits)

lemma package_chk_exists_SomeD:
  assumes "package_chk_exists fs cwd pp f ef = Some (path, ext, cs)"
  shows "path = path_file_of cwd pp f @ ''.'' @ ext"
    and "startswith (path_file_of cwd pp f) (abspath cwd pp @ ''/'')"
    and "isfile fs path"
    and "ef = None \<Longrightarrow> ext \<in> set extensions"
    and "ef = Some e \<Longrightarrow> e \<noteq> [] \<Longrightarrow> ext = e"
    and "cs = checksums fs (path_file_of cwd pp f) extensions"
  using assms
  by (auto simp: package_chk_exists_def Let_def dest: first_existing_SomeD
      split: if_splits option.splits)

text \<open>A normalised absolute path has no \<^verbatim>\<open>..\<close> component.\<close>

definition comp_ok :: "string \<Rightarrow> bool" where
  "comp_ok c \<longleftrightarrow> c \<noteq> [] \<and> c \<noteq> ''.'' \<and> c \<noteq> ''..'' \<and> CHR ''/'' \<notin> set c"

lemma norm_step_ok:
  "CHR ''/'' \<notin> set c \<Longrightarrow> \<forall>x\<in>set comps. comp_ok x \<Longrightarrow> \<forall>x\<in>set (norm_step True comps c). comp_ok x"
  by (auto simp: norm_step_def comp_ok_def dest: in_set_butlastD last_in_set)

lemma foldl_norm_step_ok:
  "\<forall>c\<in>set cs. CHR ''/'' \<notin> set c \<Longrightarrow> \<forall>x\<in>set comps. comp_ok x \<Longrightarrow>
     \<forall>x\<in>set (foldl (norm_step True) comps cs). comp_ok x"
proof (induction cs arbitrary: comps)
  case (Cons c cs)
  then have "\<forall>x\<in>set (norm_step True comps c). comp_ok x"
    by (intro norm_step_ok) auto
  with Cons show ?case by simp
qed simp

lemma normpath_absolute:
  assumes "startswith p ''/''"
  shows "\<exists>n comps. normpath p = replicate n CHR ''/'' @ py_join ''/'' comps \<and> 0 < n \<and> (\<forall>c\<in>set comps. comp_ok c)"
proof -
  let ?n = "initial_slashes p"
  let ?cs = "foldl (norm_step (0 < ?n)) [] (py_split CHR ''/'' p)"
  have n: "0 < ?n" using assms by (simp add: initial_slashes_def)
  have "\<forall>c\<in>set (py_split CHR ''/'' p). CHR ''/'' \<notin> set c" by (blast dest: py_split_fields)
  with n have ok: "\<forall>c\<in>set ?cs. comp_ok c"
    using foldl_norm_step_ok [of _ "[]"] by simp
  have "p \<noteq> []" using assms by (auto simp: startswith_def)
  with n have "normpath p = replicate ?n CHR ''/'' @ py_join ''/'' ?cs"
    by (auto simp: normpath_def Let_def)
  with n ok show ?thesis by blast
qed

lemma py_split_replicate:
  "py_split c (replicate n c @ s) = replicate n [] @ py_split c s"
  by (induction n) auto

lemma py_join_snoc_append: "cs \<noteq> [] \<Longrightarrow> py_join sep cs @ t = py_join sep (butlast cs @ [last cs @ t])"
  by (induction sep cs rule: py_join.induct) auto

text \<open>The path of a package file, split at its slashes, has no \<^verbatim>\<open>..\<close> either: the extension is
  appended to the last component.\<close>

lemma no_dotdot_file:
  assumes "startswith p ''/''" "CHR ''/'' \<notin> set ext" "ext \<noteq> []" "ext \<noteq> ''.''"
  shows "''..'' \<notin> set (py_split CHR ''/'' (normpath p @ ''.'' @ ext))"
proof -
  obtain n comps where np: "normpath p = replicate n CHR ''/'' @ py_join ''/'' comps"
    and ok: "\<forall>c\<in>set comps. comp_ok c" using normpath_absolute [OF assms(1)] by blast
  show ?thesis
  proof (cases "comps = []")
    case True
    with np assms(2-4) show ?thesis
      by (auto simp: py_split_replicate py_split_no_sep)
  next
    case False
    let ?l = "butlast comps @ [last comps @ ''.'' @ ext]"
    have l: "py_join ''/'' comps @ ''.'' @ ext = py_join ''/'' ?l"
      using False by (rule py_join_snoc_append)
    have "last comps \<in> set comps" using False by simp
    then have lo: "comp_ok (last comps)" using ok by blast
    have "\<forall>c\<in>set ?l. CHR ''/'' \<notin> set c"
      using ok lo assms(2) by (auto simp: comp_ok_def dest: in_set_butlastD)
    then have "py_split CHR ''/'' (py_join ''/'' ?l) = ?l" by (intro py_split_join) auto
    moreover have "''..'' \<notin> set (butlast comps)"
      using ok by (meson comp_ok_def in_set_butlastD)
    moreover have "last comps @ ''.'' @ ext \<noteq> ''..''"
    proof
      assume "last comps @ ''.'' @ ext = ''..''"
      then have "length (last comps @ ''.'' @ ext) = length ''..''" by (rule arg_cong)
      moreover have "0 < length (last comps)" "0 < length ext"
        using lo assms(3) by (auto simp: comp_ok_def)
      ultimately show False by simp
    qed
    ultimately have "''..'' \<notin> set (py_split CHR ''/'' (py_join ''/'' ?l))" by (simp only: set_append) auto
    with np l show ?thesis by (simp add: py_split_replicate)
  qed
qed

lemma path_file_of_absolute:
  assumes "startswith package_path ''/''"
  shows "path_file_of cwd package_path f = normpath (package_path @ c_slash package_path @ f)"
    and "startswith (package_path @ c_slash package_path @ f) ''/''"
  using assms by (auto simp: path_file_of_def abspath_def startswith_prefix)

end
