(* ===== verification/Package_Manager.thy ===== *)
theory Package_Manager
  imports Liota_Prelude Resource_Registry Autoload_List Package_Files
begin

text \<open>
  The state and the operations of \<^verbatim>\<open>PackageThread\<close> (\<^verbatim>\<open>src/liota/core/package_manager.py\<close>):
  package records, load, unload, reload, update, delete and their batch forms. Every operation
  has the result type \<open>(pm, 'a) outcome\<close>: a raised exception is returned beside the state it
  leaves behind.

  \<^verbatim>\<open>_package_load\<close> and \<^verbatim>\<open>_package_unload\<close> call themselves on dependencies and dependents.
  Their first argument \<open>lim\<close> is the recursion depth the interpreter allows; a call beyond it
  raises \<open>RuntimeError\<close>, as Python does. That a depth bounded by the number of packages is always
  enough is proved in \<open>Package_Load\<close> and \<open>Package_Unload\<close>.
\<close>

section \<open>Package records\<close>

record package_record =
  pr_file_name :: string
  pr_ext :: "string option"
  pr_sha1 :: "string option"
  pr_dependents :: "string list"      \<comment> \<open>the keys of the dictionary \<^verbatim>\<open>_dependents\<close>\<close>
  pr_dependencies :: "string list"
  pr_instance :: "klass option"

definition PackageRecord :: "string \<Rightarrow> package_record" where
  "PackageRecord file_name =
     \<lparr>pr_file_name = file_name, pr_ext = None, pr_sha1 = None, pr_dependents = [],
      pr_dependencies = [], pr_instance = None\<rparr>"

definition set_instance :: "klass \<Rightarrow> package_record \<Rightarrow> bool \<times> package_record" where
  "set_instance obj pr =
     (if pr_instance pr \<noteq> None then (False, pr) else (True, pr\<lparr>pr_instance := Some obj\<rparr>))"

definition get_instance :: "package_record \<Rightarrow> klass option" where
  "get_instance pr = pr_instance pr"

definition set_sha1 :: "string \<Rightarrow> package_record \<Rightarrow> package_record" where
  "set_sha1 sha1 pr = pr\<lparr>pr_sha1 := Some sha1\<rparr>"

definition get_sha1 :: "package_record \<Rightarrow> string option" where
  "get_sha1 pr = pr_sha1 pr"

definition set_ext :: "string \<Rightarrow> package_record \<Rightarrow> package_record" where
  "set_ext ext pr = pr\<lparr>pr_ext := Some ext\<rparr>"

definition get_ext :: "package_record \<Rightarrow> string option" where
  "get_ext pr = pr_ext pr"

definition get_dependents :: "package_record \<Rightarrow> string list" where
  "get_dependents pr = pr_dependents pr"

definition add_dependent :: "string \<Rightarrow> package_record \<Rightarrow> package_record" where
  "add_dependent file_name pr =
     (if file_name \<in> set (pr_dependents pr) then pr
      else pr\<lparr>pr_dependents := pr_dependents pr @ [file_name]\<rparr>)"

definition del_dependent :: "string \<Rightarrow> package_record \<Rightarrow> py_error + package_record" where
  "del_dependent file_name pr =
     (if file_name \<in> set (pr_dependents pr)
      then Inr (pr\<lparr>pr_dependents := remove1 file_name (pr_dependents pr)\<rparr>) else Inl KeyError)"

definition get_dependencies :: "package_record \<Rightarrow> string list" where
  "get_dependencies pr = pr_dependencies pr"

definition set_dependencies :: "string list \<Rightarrow> package_record \<Rightarrow> package_record" where
  "set_dependencies ds pr = pr\<lparr>pr_dependencies := ds\<rparr>"

section \<open>The state of the package thread\<close>

text \<open>
  Besides the attributes of \<^verbatim>\<open>PackageThread\<close> the state holds what its methods reach: the files
  of the package directory, the start-up list, the pipe of the messenger thread. \<open>key_order\<close> is the
  order in which this interpreter lists the keys of a dictionary (Python 2 leaves it open);
  \<open>os_rename_ok\<close> and \<open>os_remove_ok\<close> say which file operations the operating system lets succeed.
\<close>

record pm =
  packages_loaded :: "(string, package_record) dict"
  resource_registry :: registry
  pm_flag_alive :: bool
  autoload :: "string option"
  pm_files :: files
  pm_cwd :: string
  package_path :: string
  messenger_alive :: bool
  messenger_pipe :: "string list"
  handler_terminated :: bool
  key_order :: "string list \<Rightarrow> string list"
  os_rename_ok :: "string \<Rightarrow> string \<Rightarrow> bool"
  os_remove_ok :: "string \<Rightarrow> bool"

abbreviation loaded :: "pm \<Rightarrow> string \<Rightarrow> bool" where
  "loaded s f \<equiv> dict_has (packages_loaded s) f"

text \<open>\<^verbatim>\<open>PackageThread.__init__\<close>: an empty table and a registry with the package path.\<close>

definition PackageThread_init :: "pm \<Rightarrow> pm" where
  "PackageThread_init env =
     env\<lparr>packages_loaded := [],
         resource_registry := snd (register ''package_conf'' (RStr (package_path env)) None registry_init),
         pm_flag_alive := True\<rparr>"

section \<open>Loading\<close>

text \<open>
  Integrity check: with a checksum, some candidate file must have it; without one the file found
  is hashed. \<open>Inr None\<close> is the failed verification.
\<close>

definition verify_integrity ::
  "files \<Rightarrow> string option \<Rightarrow> string list \<Rightarrow> string \<Rightarrow> py_error + string option" where
  "verify_integrity fs checksum checksum_list path_file_ext =
     (case checksum of
        Some c \<Rightarrow> Inr (if c \<in> set checksum_list then Some c else None)
      | None \<Rightarrow>
          (case sha1sum fs path_file_ext of None \<Rightarrow> Inl AttributeError | Some sha1 \<Rightarrow> Inr (Some sha1)))"

text \<open>The loop over the dependency list; \<open>load\<close> is the recursive call.\<close>

primrec load_dependencies ::
  "(string \<Rightarrow> string list \<Rightarrow> pm \<Rightarrow> (pm, package_record option) outcome) \<Rightarrow>
   string \<Rightarrow> string list \<Rightarrow> string list \<Rightarrow> pm \<Rightarrow> (pm, bool) outcome" where
  "load_dependencies load file_name check_stack [] s = (Inr True, s)"
| "load_dependencies load file_name check_stack (dependency # rest) s =
     (if dependency \<in> set check_stack then (Inr False, s)
      else
        case (if loaded s dependency then (Inr None, s) else load dependency check_stack s) of
          (Inl e, s1) \<Rightarrow> (Inl e, s1)
        | (Inr _, s1) \<Rightarrow>
            case dict_get (packages_loaded s1) dependency of
              None \<Rightarrow> (Inr False, s1)
            | Some dep_record \<Rightarrow>
                load_dependencies load file_name check_stack rest
                  (s1\<lparr>packages_loaded :=
                        dict_set dependency (add_dependent file_name dep_record) (packages_loaded s1)\<rparr>))"

text \<open>Instantiating and running the package class, and the new record.\<close>

definition package_start ::
  "string \<Rightarrow> string \<Rightarrow> string \<Rightarrow> string list \<Rightarrow> klass option \<Rightarrow> bool \<Rightarrow> pm \<Rightarrow>
   (pm, package_record option) outcome" where
  "package_start file_name sha1 file_ext dependencies package_class autoload_flag s =
     (case package_class of
        None \<Rightarrow> (Inr None, s)
      | Some klass \<Rightarrow>
          if \<not> k_new_ok klass then (Inr None, s)
          else
            case set_instance klass (PackageRecord file_name) of
              (False, _) \<Rightarrow> (Inr None, s)
            | (True, pr) \<Rightarrow>
                case run_prog (k_run klass) (get_package_registry file_name) (resource_registry s) of
                  (Inl e, r) \<Rightarrow> (Inr None, s\<lparr>resource_registry := r\<rparr>)
                | (Inr _, r) \<Rightarrow>
                    let pr' = set_dependencies dependencies (set_ext file_ext (set_sha1 sha1 pr));
                        s' = s\<lparr>resource_registry := r,
                               packages_loaded := dict_set file_name pr' (packages_loaded s)\<rparr>
                    in if autoload_flag then
                         (case write_package_into_autoload file_name (Some sha1) (autoload s') of
                            (Inl e, a) \<Rightarrow> (Inl e, s'\<lparr>autoload := a\<rparr>)
                          | (Inr _, a) \<Rightarrow> (Inr (Some pr'), s'\<lparr>autoload := a\<rparr>))
                       else (Inr (Some pr'), s'))"

definition deps_list :: "deps_attr \<Rightarrow> string list" where
  "deps_list d = (case d of DepsList ds \<Rightarrow> ds | _ \<Rightarrow> [])"

primrec package_load ::
  "nat \<Rightarrow> string \<Rightarrow> string option \<Rightarrow> bool \<Rightarrow> string option \<Rightarrow> string list \<Rightarrow> pm \<Rightarrow>
   (pm, package_record option) outcome" where
  "package_load 0 file_name checksum autoload_flag ext_forced check_stack s = (Inl RuntimeError, s)"
| "package_load (Suc lim) file_name checksum autoload_flag ext_forced check_stack s =
     (if loaded s file_name then (Inr None, s)
      else
        case package_chk_exists (pm_files s) (pm_cwd s) (package_path s) file_name ext_forced of
          None \<Rightarrow> (Inr None, s)
        | Some (path_file_ext, file_ext, checksum_list) \<Rightarrow>
        case verify_integrity (pm_files s) checksum checksum_list path_file_ext of
          Inl e \<Rightarrow> (Inl e, s)
        | Inr None \<Rightarrow> (Inr None, s)
        | Inr (Some sha1) \<Rightarrow>
        case package_module_load (pm_files s) path_file_ext file_ext of
          None \<Rightarrow> (Inr None, s)
        | Some m \<Rightarrow>
        if m_dependencies m = DepsNotList then (Inr None, s)
        else
          let dependencies = deps_list (m_dependencies m) in
          case (if dependencies = [] then (Inr True, s)
                else load_dependencies (\<lambda>d stack. package_load lim d None False None stack)
                       file_name (check_stack @ [file_name]) dependencies s) of
            (Inl e, s1) \<Rightarrow> (Inl e, s1)
          | (Inr False, s1) \<Rightarrow> (Inr None, s1)
          | (Inr True, s1) \<Rightarrow>
              package_start file_name sha1 file_ext dependencies (m_class m) autoload_flag s1)"

section \<open>Unloading\<close>

text \<open>Items of \<^verbatim>\<open>track_list\<close>: name, extension, checksum. \<open>None\<close> is the absent list.\<close>

type_synonym track_item = "string \<times> string option \<times> string"
type_synonym tracked = "pm \<times> track_item list option"

primrec unload_dependents ::
  "(string \<Rightarrow> tracked \<Rightarrow> (tracked, bool) outcome) \<Rightarrow> string list \<Rightarrow> tracked \<Rightarrow> (tracked, bool) outcome" where
  "unload_dependents unload [] st = (Inr True, st)"
| "unload_dependents unload (dependent # rest) st =
     (case (if loaded (fst st) dependent then unload dependent st else (Inr True, st)) of
        (Inl e, st1) \<Rightarrow> (Inl e, st1)
      | (Inr _, st1) \<Rightarrow>
          if loaded (fst st1) dependent then (Inr False, st1) else unload_dependents unload rest st1)"

primrec remove_from_dependencies :: "string \<Rightarrow> string list \<Rightarrow> pm \<Rightarrow> (pm, unit) outcome" where
  "remove_from_dependencies file_name [] s = (Inr (), s)"
| "remove_from_dependencies file_name (dependency # rest) s =
     (case dict_get (packages_loaded s) dependency of
        None \<Rightarrow> (Inl KeyError, s)
      | Some dr \<Rightarrow>
          case del_dependent file_name dr of
            Inl e \<Rightarrow> (Inl e, s)
          | Inr dr' \<Rightarrow>
              remove_from_dependencies file_name rest
                (s\<lparr>packages_loaded := dict_set dependency dr' (packages_loaded s)\<rparr>))"

text \<open>\<^verbatim>\<open>track_list.append((file_name, ext, sha1.hexdigest()))\<close>.\<close>

definition track :: "string \<Rightarrow> package_record \<Rightarrow> track_item list option \<Rightarrow> py_error + track_item list option" where
  "track file_name pr tr =
     (case tr of
        None \<Rightarrow> Inr None
      | Some xs \<Rightarrow>
          (case get_sha1 pr of
             None \<Rightarrow> Inl AttributeError
           | Some h \<Rightarrow> Inr (Some (xs @ [(file_name, get_ext pr, h)]))))"

text \<open>The part of \<^verbatim>\<open>_package_unload\<close> after the dependents are gone.\<close>

definition unload_self :: "string \<Rightarrow> package_record \<Rightarrow> tracked \<Rightarrow> (tracked, bool) outcome" where
  "unload_self file_name pr st =
     (case st of (s, tr) \<Rightarrow>
      case get_instance pr of
        None \<Rightarrow> (Inl TypeError, (s, tr))
      | Some obj \<Rightarrow>
      if \<not> k_is_package obj then (Inl TypeError, (s, tr))
      else case deregister_package file_name (resource_registry s) of
        (Inl e, r) \<Rightarrow> (Inl e, (s\<lparr>resource_registry := r\<rparr>, tr))
      | (Inr _, r) \<Rightarrow>
      let s1 = s\<lparr>resource_registry := snd (run_prog (k_clean_up obj) (get_package_registry file_name) r)\<rparr> in
      case remove_from_dependencies file_name (get_dependencies pr) s1 of
        (Inl e, s2) \<Rightarrow> (Inl e, (s2, tr))
      | (Inr _, s2) \<Rightarrow>
      case track file_name pr tr of
        Inl e \<Rightarrow> (Inl e, (s2, tr))
      | Inr tr' \<Rightarrow>
      if \<not> loaded s2 file_name then (Inl KeyError, (s2, tr'))
      else
        let s3 = s2\<lparr>packages_loaded := dict_del file_name (packages_loaded s2)\<rparr> in
        case remove_package_from_autoload file_name (autoload s3) of
          (Inl e, a) \<Rightarrow> (Inl e, (s3\<lparr>autoload := a\<rparr>, tr'))
        | (Inr _, a) \<Rightarrow> (Inr True, (s3\<lparr>autoload := a\<rparr>, tr')))"

primrec package_unload :: "nat \<Rightarrow> string \<Rightarrow> tracked \<Rightarrow> (tracked, bool) outcome" where
  "package_unload 0 file_name st = (Inl RuntimeError, st)"
| "package_unload (Suc lim) file_name st =
     (case dict_get (packages_loaded (fst st)) file_name of
        None \<Rightarrow> (Inr False, st)
      | Some pr \<Rightarrow>
          case unload_dependents (package_unload lim)
                 (key_order (fst st) (get_dependents pr)) st of
            (Inl e, st1) \<Rightarrow> (Inl e, st1)
          | (Inr False, st1) \<Rightarrow> (Inr False, st1)
          | (Inr True, st1) \<Rightarrow> unload_self file_name pr st1)"

text \<open>Without a track list.\<close>

definition package_unload1 :: "nat \<Rightarrow> string \<Rightarrow> pm \<Rightarrow> (pm, bool) outcome" where
  "package_unload1 lim file_name s =
     (case package_unload lim file_name (s, None) of (r, (s', _)) \<Rightarrow> (r, s'))"

section \<open>Batch operations\<close>

text \<open>\<^verbatim>\<open>_package_load_list\<close>: an exception of one package is logged and the loop goes on. The
  accumulator is \<^verbatim>\<open>list_failed\<close>.\<close>

primrec load_each :: "nat \<Rightarrow> bool \<Rightarrow> (string \<times> string) list \<Rightarrow> string list \<Rightarrow> pm \<Rightarrow> string list \<times> pm" where
  "load_each lim autoload_flag [] failed s = (failed, s)"
| "load_each lim autoload_flag (p # rest) failed s =
     (if loaded s (fst p) then load_each lim autoload_flag rest failed s
      else
        case package_load lim (fst p) (Some (snd p)) autoload_flag None [] s of
          (Inl e, s1) \<Rightarrow> load_each lim autoload_flag rest failed s1
        | (Inr None, s1) \<Rightarrow> load_each lim autoload_flag rest (failed @ [fst p]) s1
        | (Inr (Some _), s1) \<Rightarrow> load_each lim autoload_flag rest failed s1)"

definition package_load_list :: "nat \<Rightarrow> (string \<times> string) list \<Rightarrow> bool \<Rightarrow> pm \<Rightarrow> (pm, bool) outcome" where
  "package_load_list lim package_list autoload_flag s =
     (case load_each lim autoload_flag package_list [] s of (failed, s') \<Rightarrow> (Inr (length failed < 1), s'))"

primrec unload_each :: "nat \<Rightarrow> string list \<Rightarrow> string list \<Rightarrow> tracked \<Rightarrow> (tracked, string list) outcome" where
  "unload_each lim [] failed st = (Inr failed, st)"
| "unload_each lim (f # rest) failed st =
     (if \<not> loaded (fst st) f then unload_each lim rest failed st
      else
        case package_unload lim f st of
          (Inl e, st1) \<Rightarrow> (Inl e, st1)
        | (Inr ok, st1) \<Rightarrow> unload_each lim rest (if ok then failed else failed @ [f]) st1)"

definition package_unload_list :: "nat \<Rightarrow> string list \<Rightarrow> tracked \<Rightarrow> (tracked, bool) outcome" where
  "package_unload_list lim package_list st =
     (case unload_each lim package_list [] st of
        (Inl e, st') \<Rightarrow> (Inl e, st')
      | (Inr failed, st') \<Rightarrow> (Inr (length failed < 1), st'))"

section \<open>Reload and update\<close>

text \<open>
  The loop over the reversed track list, the same in \<^verbatim>\<open>_package_reload\<close> (\<open>keep_ext\<close>: the
  extension is forced) and \<^verbatim>\<open>_package_update\<close>. The accumulator is \<^verbatim>\<open>package_record\<close>.
\<close>

primrec reload_items ::
  "nat \<Rightarrow> bool \<Rightarrow> string \<Rightarrow> string option \<Rightarrow> track_item list \<Rightarrow> package_record option \<Rightarrow> pm \<Rightarrow>
   (pm, package_record option) outcome" where
  "reload_items lim keep_ext file_name checksum [] package_record s = (Inr package_record, s)"
| "reload_items lim keep_ext file_name checksum (item # rest) package_record s =
     (case item of (name, ext, sha1) \<Rightarrow>
      if loaded s name then reload_items lim keep_ext file_name checksum rest package_record s
      else
        let c = (if name = file_name \<and> checksum \<noteq> None \<and> checksum \<noteq> Some sha1
                 then checksum else Some sha1)
        in case package_load lim name c False (if keep_ext then ext else None) [] s of
             (Inl e, s1) \<Rightarrow> (Inl e, s1)
           | (Inr temp_record, s1) \<Rightarrow>
               reload_items lim keep_ext file_name checksum rest
                 (if temp_record \<noteq> None \<and> name = file_name then temp_record else package_record) s1)"

text \<open>The common body after the test whether the package is loaded.\<close>

definition unload_and_reload ::
  "nat \<Rightarrow> bool \<Rightarrow> string \<Rightarrow> string option \<Rightarrow> bool \<Rightarrow> pm \<Rightarrow> (pm, package_record option) outcome" where
  "unload_and_reload lim keep_ext file_name checksum autoload_flag s =
     (case package_unload lim file_name (s, Some []) of
        (Inl e, (s1, _)) \<Rightarrow> (Inl e, s1)
      | (Inr False, (s1, _)) \<Rightarrow> (Inr None, s1)
      | (Inr True, (s1, tr)) \<Rightarrow>
          let track_list = (case tr of None \<Rightarrow> [] | Some xs \<Rightarrow> rev xs) in
          case reload_items lim keep_ext file_name checksum track_list None s1 of
            (Inl e, s2) \<Rightarrow> (Inl e, s2)
          | (Inr None, s2) \<Rightarrow> (Inr None, s2)
          | (Inr (Some pr), s2) \<Rightarrow>
              if autoload_flag then
                (case get_sha1 pr of
                   None \<Rightarrow> (Inl AttributeError, s2)
                 | Some h \<Rightarrow>
                     (case write_package_into_autoload file_name (Some h) (autoload s2) of
                        (Inl e, a) \<Rightarrow> (Inl e, s2\<lparr>autoload := a\<rparr>)
                      | (Inr _, a) \<Rightarrow> (Inr (Some pr), s2\<lparr>autoload := a\<rparr>)))
              else (Inr (Some pr), s2))"

definition package_reload ::
  "nat \<Rightarrow> string \<Rightarrow> string option \<Rightarrow> bool \<Rightarrow> pm \<Rightarrow> (pm, package_record option) outcome" where
  "package_reload lim file_name checksum autoload_flag s =
     (if \<not> loaded s file_name then (Inr None, s)
      else unload_and_reload lim True file_name checksum autoload_flag s)"

definition package_update ::
  "nat \<Rightarrow> string \<Rightarrow> string option \<Rightarrow> bool \<Rightarrow> pm \<Rightarrow> (pm, package_record option) outcome" where
  "package_update lim file_name checksum autoload_flag s =
     (if \<not> loaded s file_name then package_load lim file_name checksum False None [] s
      else unload_and_reload lim False file_name checksum autoload_flag s)"

definition package_update_list ::
  "nat \<Rightarrow> (string \<times> string) list \<Rightarrow> bool \<Rightarrow> pm \<Rightarrow> (pm, bool) outcome" where
  "package_update_list lim package_list autoload_flag s =
     (case package_unload_list lim (map fst package_list) (s, Some []) of
        (Inl e, (s1, _)) \<Rightarrow> (Inl e, s1)
      | (Inr ok1, (s1, tr)) \<Rightarrow>
          let track_list = (case tr of None \<Rightarrow> [] | Some xs \<Rightarrow> rev xs) in
          case package_load_list lim package_list autoload_flag s1 of
            (Inl e, s2) \<Rightarrow> (Inl e, s2)
          | (Inr ok2, s2) \<Rightarrow>
              if track_list = [] then (Inr (ok1 \<and> ok2), s2)
              else
                case package_load_list lim (map (\<lambda>x. (fst x, snd (snd x))) track_list) autoload_flag s2 of
                  (Inl e, s3) \<Rightarrow> (Inl e, s3)
                | (Inr ok3, s3) \<Rightarrow> (Inr (ok1 \<and> ok2 \<and> ok3), s3))"

definition package_load_auto :: "nat \<Rightarrow> pm \<Rightarrow> (pm, unit) outcome" where
  "package_load_auto lim s =
     (case startup_list (autoload s) of
        Inl e \<Rightarrow> (Inl e, s)
      | Inr package_startup_list \<Rightarrow>
          if 0 < length package_startup_list
          then (case package_load_list lim package_startup_list False s of
                  (Inl e, s1) \<Rightarrow> (Inl e, s1) | (Inr _, s1) \<Rightarrow> (Inr (), s1))
          else (Inr (), s))"

section \<open>Deleting\<close>

text \<open>
  \<^verbatim>\<open>os.rename\<close> and \<^verbatim>\<open>os.remove\<close> on the normalised paths; \<open>None\<close> is \<open>OSError\<close>.
\<close>

definition os_rename :: "pm \<Rightarrow> string \<Rightarrow> string \<Rightarrow> files option" where
  "os_rename s src dst =
     (case dict_get (pm_files s) (abspath (pm_cwd s) src) of
        None \<Rightarrow> None
      | Some f \<Rightarrow>
          if os_rename_ok s src dst
          then Some (dict_set (abspath (pm_cwd s) dst) f (dict_del (abspath (pm_cwd s) src) (pm_files s)))
          else None)"

definition os_remove :: "pm \<Rightarrow> string \<Rightarrow> files option" where
  "os_remove s src =
     (if isfile (pm_files s) (abspath (pm_cwd s) src) \<and> os_remove_ok s src
      then Some (dict_del (abspath (pm_cwd s) src) (pm_files s)) else None)"

primrec stash_files :: "string list \<Rightarrow> bool \<Rightarrow> pm \<Rightarrow> bool \<times> pm" where
  "stash_files [] flag_failed s = (flag_failed, s)"
| "stash_files (found # rest) flag_failed s =
     (let src = package_path s @ c_slash (package_path s) @ found;
          dst = package_path s @ c_slash (package_path s) @ ''stash/'' @ found
      in case os_rename s src dst of
           Some fs \<Rightarrow> stash_files rest flag_failed (s\<lparr>pm_files := fs\<rparr>)
         | None \<Rightarrow>
             (case os_remove s src of
                Some fs \<Rightarrow> stash_files rest flag_failed (s\<lparr>pm_files := fs\<rparr>)
              | None \<Rightarrow> stash_files rest True s))"

definition files_found :: "pm \<Rightarrow> string \<Rightarrow> string list" where
  "files_found s file_name =
     map (\<lambda>ext. file_name @ ''.'' @ ext)
       (filter (\<lambda>ext. isfile (pm_files s)
                        (path_file_of (pm_cwd s) (package_path s) file_name @ ''.'' @ ext)) extensions)"

definition package_delete :: "nat \<Rightarrow> string \<Rightarrow> pm \<Rightarrow> (pm, bool) outcome" where
  "package_delete lim file_name s =
     (case (if loaded s file_name then package_unload1 lim file_name s else (Inr True, s)) of
        (Inl e, s1) \<Rightarrow> (Inl e, s1)
      | (Inr _, s1) \<Rightarrow>
          let file_names_found = files_found s1 file_name in
          if length file_names_found < 1 then (Inr False, s1)
          else
            case stash_files file_names_found False s1 of
              (True, s2) \<Rightarrow> (Inr False, s2)
            | (False, s2) \<Rightarrow>
                (case remove_package_from_autoload file_name (autoload s2) of
                   (Inl e, a) \<Rightarrow> (Inl e, s2\<lparr>autoload := a\<rparr>)
                 | (Inr _, a) \<Rightarrow> (Inr True, s2\<lparr>autoload := a\<rparr>)))"

primrec delete_each :: "nat \<Rightarrow> string list \<Rightarrow> string list \<Rightarrow> pm \<Rightarrow> string list \<times> pm" where
  "delete_each lim [] failed s = (failed, s)"
| "delete_each lim (f # rest) failed s =
     (case package_delete lim f s of
        (Inl e, s1) \<Rightarrow> delete_each lim rest failed s1
      | (Inr ok, s1) \<Rightarrow> delete_each lim rest (if ok then failed else failed @ [f]) s1)"

definition package_delete_list :: "nat \<Rightarrow> string list \<Rightarrow> pm \<Rightarrow> (pm, bool) outcome" where
  "package_delete_list lim package_list s =
     (case delete_each lim package_list [] s of (failed, s') \<Rightarrow> (Inr (length failed < 1), s'))"

section \<open>Termination of the thread\<close>

definition terminate_messenger :: string where
  "terminate_messenger = ''terminate_messenger_but_you_should_not_do_this_yourself''"

definition terminate_all :: "nat \<Rightarrow> pm \<Rightarrow> (pm, bool) outcome" where
  "terminate_all lim s =
     (let s1 = (if messenger_alive s
                then s\<lparr>messenger_pipe := messenger_pipe s @ [terminate_messenger @ [LF]]\<rparr> else s)
      in case package_unload_list lim (key_order s1 (dict_keys (packages_loaded s1))) (s1, None) of
           (Inl e, (s2, _)) \<Rightarrow> (Inl e, s2)
         | (Inr False, (s2, _)) \<Rightarrow> (Inr False, s2)
         | (Inr True, (s2, _)) \<Rightarrow> (Inr True, s2\<lparr>handler_terminated := True\<rparr>))"

end
