(* ===== verification/Package_Invariant.thy ===== *)
theory Package_Invariant
  imports Package_Manager
begin

text \<open>
  The invariant of the package thread. Dependencies of a loaded package are loaded and list it
  among their dependents; the records are complete; the table lists packages in the order they
  were loaded, and no package is among the dependents of one that was loaded after it. The last
  part keeps the dependents graph acyclic although failed loads leave stale entries in it, and is
  what makes \<^verbatim>\<open>_package_unload\<close> terminate.
\<close>

named_theorems pr_simps "projections of the PackageRecord operations"

lemmas record_ops [pr_simps] =
  PackageRecord_def set_instance_def get_instance_def set_sha1_def get_sha1_def set_ext_def
  get_ext_def get_dependents_def get_dependencies_def set_dependencies_def

definition dependents_of :: "(string, package_record) dict \<Rightarrow> string \<Rightarrow> string set" where
  "dependents_of L k = (case dict_get L k of None \<Rightarrow> {} | Some pr \<Rightarrow> set (pr_dependents pr))"

definition load_order :: "(string, package_record) dict \<Rightarrow> bool" where
  "load_order L \<longleftrightarrow>
     sorted_wrt (\<lambda>x y. x \<notin> dependents_of L y) (dict_keys L) \<and>
     (\<forall>x\<in>set (dict_keys L). x \<notin> dependents_of L x)"

definition record_ok :: "string \<Rightarrow> package_record \<Rightarrow> bool" where
  "record_ok f pr \<longleftrightarrow> pr_file_name pr = f \<and> pr_sha1 pr \<noteq> None \<and> pr_ext pr \<noteq> None \<and>
     pr_instance pr \<noteq> None \<and> distinct (pr_dependents pr) \<and> distinct (pr_dependencies pr)"

definition deps_closed :: "(string, package_record) dict \<Rightarrow> bool" where
  "deps_closed L \<longleftrightarrow>
     (\<forall>f pr d. dict_get L f = Some pr \<longrightarrow> d \<in> set (pr_dependencies pr) \<longrightarrow>
        dict_has L d \<and> f \<in> dependents_of L d)"

definition table_inv :: "(string, package_record) dict \<Rightarrow> bool" where
  "table_inv L \<longleftrightarrow>
     dict_ok L \<and> load_order L \<and> deps_closed L \<and> (\<forall>f pr. dict_get L f = Some pr \<longrightarrow> record_ok f pr)"

text \<open>No module lists a dependency twice. (With a duplicate, \<^verbatim>\<open>_package_unload\<close> deletes the same
  dependent twice and raises \<open>KeyError\<close>.)\<close>

definition files_wf :: "files \<Rightarrow> bool" where
  "files_wf fs \<longleftrightarrow>
     (\<forall>p fl m. dict_get fs p = Some fl \<longrightarrow> f_module fl = Some m \<longrightarrow> distinct (deps_list (m_dependencies m)))"

definition pm_inv :: "pm \<Rightarrow> bool" where
  "pm_inv s \<longleftrightarrow> table_inv (packages_loaded s) \<and> registry_inv (resource_registry s) \<and> files_wf (pm_files s)"

definition key_order_ok :: "pm \<Rightarrow> bool" where
  "key_order_ok s \<longleftrightarrow> (\<forall>xs. set (key_order s xs) = set xs)"

lemma table_invD:
  assumes "table_inv L"
  shows "dict_ok L" "load_order L" "deps_closed L" "dict_get L f = Some pr \<Longrightarrow> record_ok f pr"
  using assms by (auto simp: table_inv_def)

lemma pm_invD: "pm_inv s \<Longrightarrow> table_inv (packages_loaded s)" "pm_inv s \<Longrightarrow> registry_inv (resource_registry s)"
  "pm_inv s \<Longrightarrow> files_wf (pm_files s)"
  by (auto simp: pm_inv_def)

lemma deps_closedD:
  "deps_closed L \<Longrightarrow> dict_get L f = Some pr \<Longrightarrow> d \<in> set (pr_dependencies pr) \<Longrightarrow>
     dict_has L d \<and> f \<in> dependents_of L d"
  by (auto simp: deps_closed_def)

lemma dependents_of_set:
  "dependents_of (dict_set k pr L) j = (if j = k then set (pr_dependents pr) else dependents_of L j)"
  by (simp add: dependents_of_def)

lemma dependents_of_del:
  "dependents_of (dict_del k L) j = (if j = k then {} else dependents_of L j)"
  by (simp add: dependents_of_def)

lemma table_inv_Nil: "table_inv []"
  by (simp add: table_inv_def load_order_def deps_closed_def)

lemma pm_inv_init: "files_wf (pm_files env) \<Longrightarrow> pm_inv (PackageThread_init env)"
  by (simp add: pm_inv_def PackageThread_init_def table_inv_Nil registry_inv_register registry_inv_init)

lemma files_wf_module:
  "files_wf fs \<Longrightarrow> package_module_load fs path ext = Some m \<Longrightarrow> distinct (deps_list (m_dependencies m))"
  by (auto simp: files_wf_def package_module_load_def split: if_splits option.splits)

section \<open>The load order\<close>

text \<open>Removing keys, and changing dependents by names that are not in the table, keep the order.\<close>

lemma load_order_mono:
  assumes "load_order L" "dict_keys L' = filter P (dict_keys L)"
    and "\<And>y. y \<in> set (dict_keys L') \<Longrightarrow> dependents_of L' y \<inter> set (dict_keys L') \<subseteq> dependents_of L y"
  shows "load_order L'"
proof -
  have "sorted_wrt (\<lambda>x y. x \<notin> dependents_of L y) (dict_keys L')"
    using assms(1,2) by (simp add: load_order_def sorted_wrt_filter)
  then have "sorted_wrt (\<lambda>x y. x \<notin> dependents_of L' y) (dict_keys L')"
    using assms(3) by (elim sorted_wrt_mono_rel [rotated]) blast
  moreover have "x \<notin> dependents_of L' x" if "x \<in> set (dict_keys L')" for x
    using that assms(3)[OF that] assms(1,2) by (auto simp: load_order_def)
  ultimately show ?thesis by (simp add: load_order_def)
qed

lemma load_order_append:
  assumes "load_order L" "\<not> dict_has L k" "pr_dependents pr = []"
  shows "load_order (L @ [(k, pr)])"
proof -
  have eq: "L @ [(k, pr)] = dict_set k pr L" using assms(2) by (simp add: dict_set_append)
  have D: "dependents_of (L @ [(k, pr)]) y = (if y = k then {} else dependents_of L y)" for y
    unfolding eq using assms(3) by (simp add: dependents_of_set)
  have "k \<notin> set (dict_keys L)" using assms(2) by (simp add: dict_has_def)
  then have "sorted_wrt (\<lambda>x y. x \<notin> dependents_of (L @ [(k, pr)]) y) (dict_keys L)"
    using assms(1) unfolding load_order_def
    by (auto simp: D elim!: sorted_wrt_mono_rel [rotated])
  with assms show ?thesis
    by (auto simp: load_order_def sorted_wrt_append D)
qed

text \<open>A loaded dependent stands after its package in the table.\<close>

lemma load_order_later:
  assumes "load_order L" "dict_keys L = us @ f # vs" "d \<in> dependents_of L f" "dict_has L d"
  shows "d \<in> set vs"
  using assms by (auto simp: load_order_def sorted_wrt_append dict_has_def)

section \<open>Changing the table\<close>

lemma record_ok_add_dependent: "record_ok f pr \<Longrightarrow> record_ok f (add_dependent g pr)"
  by (auto simp: record_ok_def add_dependent_def)

lemma add_dependent_simps [simp]:
  "pr_dependencies (add_dependent g pr) = pr_dependencies pr"
  "set (pr_dependents (add_dependent g pr)) = insert g (set (pr_dependents pr))"
  by (auto simp: add_dependent_def)

text \<open>Adding a dependent that is not loaded.\<close>

lemma table_inv_add_dependent:
  assumes inv: "table_inv L" and d: "dict_get L d = Some dr" and f: "\<not> dict_has L f"
  shows "table_inv (dict_set d (add_dependent f dr) L)"
proof -
  let ?L = "dict_set d (add_dependent f dr) L"
  have keys: "dict_keys ?L = dict_keys L" using d by (simp add: dict_keys_set dict_has_iff)
  have D: "dependents_of ?L y = (if y = d then insert f (dependents_of L d) else dependents_of L y)" for y
    using d by (simp add: dependents_of_set) (simp add: dependents_of_def)
  have "load_order ?L"
    using table_invD(2)[OF inv] f
    by (intro load_order_mono [of L ?L "\<lambda>_. True"]) (auto simp: keys D dict_has_def)
  moreover have "deps_closed ?L"
    using table_invD(3)[OF inv] d unfolding deps_closed_def
    by (fastforce simp: D split: if_splits)
  moreover have "\<forall>g pr. dict_get ?L g = Some pr \<longrightarrow> record_ok g pr"
    using table_invD(4)[OF inv] d by (auto simp: record_ok_add_dependent)
  ultimately show ?thesis using table_invD(1)[OF inv] by (simp add: table_inv_def distinct_update)
qed

text \<open>Entering a new package whose dependencies are all prepared.\<close>

lemma table_inv_insert:
  assumes inv: "table_inv L" and f: "\<not> dict_has L f" and ok: "record_ok f pr"
    and nodeps: "pr_dependents pr = []"
    and deps: "\<forall>d\<in>set (pr_dependencies pr). dict_has L d \<and> f \<in> dependents_of L d"
  shows "table_inv (dict_set f pr L)"
proof -
  let ?L = "dict_set f pr L"
  have "load_order ?L"
    using load_order_append [OF table_invD(2)[OF inv] f nodeps] f by (simp add: dict_set_append)
  moreover have "deps_closed ?L"
    unfolding deps_closed_def
  proof (intro allI impI)
    fix g prg d
    assume g: "dict_get ?L g = Some prg" and d: "d \<in> set (pr_dependencies prg)"
    show "dict_has ?L d \<and> g \<in> dependents_of ?L d"
    proof (cases "g = f")
      case True
      with g d deps f show ?thesis by (auto simp: dependents_of_set)
    next
      case False
      with g have "dict_get L g = Some prg" by simp
      with d have "dict_has L d \<and> g \<in> dependents_of L d"
        using deps_closedD [OF table_invD(3)[OF inv]] by blast
      with f show ?thesis by (auto simp: dependents_of_set)
    qed
  qed
  moreover have "\<forall>g prg. dict_get ?L g = Some prg \<longrightarrow> record_ok g prg"
    using table_invD(4)[OF inv] ok by auto
  ultimately show ?thesis using table_invD(1)[OF inv] by (simp add: table_inv_def distinct_update)
qed

section \<open>What a load may change\<close>

text \<open>\<open>same_env s s'\<close>: the two states agree on everything but the table, the registry and the
  start-up list.\<close>

definition same_env :: "pm \<Rightarrow> pm \<Rightarrow> bool" where
  "same_env s s' \<longleftrightarrow>
     s'\<lparr>packages_loaded := packages_loaded s, resource_registry := resource_registry s,
        autoload := autoload s\<rparr> = s"

lemma same_env_refl [simp, intro]: "same_env s s"
  by (simp add: same_env_def)

lemma same_env_iff:
  "same_env s s' \<longleftrightarrow> pm_files s' = pm_files s \<and> pm_cwd s' = pm_cwd s \<and> package_path s' = package_path s \<and>
    pm_flag_alive s' = pm_flag_alive s \<and> messenger_alive s' = messenger_alive s \<and>
    messenger_pipe s' = messenger_pipe s \<and> handler_terminated s' = handler_terminated s \<and>
    key_order s' = key_order s \<and> os_rename_ok s' = os_rename_ok s \<and> os_remove_ok s' = os_remove_ok s"
  by (cases s; cases s') (auto simp: same_env_def)

lemma same_env_eqs:
  assumes "same_env s s'"
  shows "pm_files s' = pm_files s" "pm_cwd s' = pm_cwd s" "package_path s' = package_path s"
    "pm_flag_alive s' = pm_flag_alive s" "key_order s' = key_order s"
  using assms by (simp_all add: same_env_iff)

lemma same_env_trans [trans]: "same_env s s' \<Longrightarrow> same_env s' s'' \<Longrightarrow> same_env s s''"
  by (simp add: same_env_iff)

lemma same_env_upd [simp, intro]:
  "same_env s (s\<lparr>packages_loaded := L\<rparr>)" "same_env s (s\<lparr>resource_registry := r\<rparr>)"
  "same_env s (s\<lparr>autoload := a\<rparr>)"
  by (simp_all add: same_env_iff)

end
