(* ===== verification/Package_Load.thy ===== *)
theory Package_Load
  imports Package_Invariant
begin

text \<open>
  Correctness of \<^verbatim>\<open>_package_load\<close>. The recursive call inside the loop over the dependencies is
  specified by the locale \<open>loader\<close>: what a load may change when a stack of packages is being loaded.
  The loop is proved against that contract, and \<^verbatim>\<open>_package_load\<close> is shown to satisfy it. The
  extension \<open>total_loader\<close> adds that the call does not raise, which holds of \<^verbatim>\<open>_package_load\<close>
  when the recursion limit covers the names that occur in dependency lists.
\<close>

section \<open>What a load may change\<close>

text \<open>A record without its dependents.\<close>

definition core :: "package_record \<Rightarrow> package_record" where
  "core pr = pr\<lparr>pr_dependents := []\<rparr>"

definition grows :: "(string, package_record) dict \<Rightarrow> (string, package_record) dict \<Rightarrow> bool" where
  "grows L L' \<longleftrightarrow>
     (\<forall>x pr. dict_get L x = Some pr \<longrightarrow>
        (\<exists>pr'. dict_get L' x = Some pr' \<and> core pr' = core pr \<and>
               set (pr_dependents pr) \<subseteq> set (pr_dependents pr')))"

definition load_ext :: "string list \<Rightarrow> pm \<Rightarrow> pm \<Rightarrow> bool" where
  "load_ext stack s s' \<longleftrightarrow>
     pm_inv s' \<and> same_env s s' \<and> grows (packages_loaded s) (packages_loaded s') \<and>
     (\<exists>new. dict_keys (packages_loaded s') = dict_keys (packages_loaded s) @ new \<and> set new \<inter> set stack = {})"

text \<open>What the files say a package depends on when no extension is forced.\<close>

definition file_deps :: "pm \<Rightarrow> string \<Rightarrow> string list option" where
  "file_deps s f =
     (case package_chk_exists (pm_files s) (pm_cwd s) (package_path s) f None of
        None \<Rightarrow> None
      | Some (path, ext, cs) \<Rightarrow>
          map_option (\<lambda>m. deps_list (m_dependencies m)) (package_module_load (pm_files s) path ext))"

text \<open>New records carry the dependencies of the files.\<close>

definition fresh_deps :: "pm \<Rightarrow> pm \<Rightarrow> bool" where
  "fresh_deps s s' \<longleftrightarrow>
     (\<forall>x pr. \<not> loaded s x \<longrightarrow> dict_get (packages_loaded s') x = Some pr \<longrightarrow>
        file_deps s x = Some (pr_dependencies pr))"

text \<open>A load without forced extension and without the start-up flag.\<close>

definition quiet_ext :: "string list \<Rightarrow> pm \<Rightarrow> pm \<Rightarrow> bool" where
  "quiet_ext stack s s' \<longleftrightarrow> load_ext stack s s' \<and> autoload s' = autoload s \<and> fresh_deps s s'"

lemma growsE:
  assumes "grows L L'" "dict_get L x = Some pr"
  obtains pr' where "dict_get L' x = Some pr'" "core pr' = core pr"
    "set (pr_dependents pr) \<subseteq> set (pr_dependents pr')"
  using assms unfolding grows_def by blast

lemma core_eqs:
  assumes "core pr' = core pr"
  shows "pr_dependencies pr' = pr_dependencies pr" "pr_instance pr' = pr_instance pr"
    "pr_sha1 pr' = pr_sha1 pr" "pr_ext pr' = pr_ext pr" "pr_file_name pr' = pr_file_name pr"
  using assms by (cases pr; cases pr'; simp add: core_def)+

lemma core_add_dependent [simp]: "core (add_dependent f pr) = core pr"
  by (simp add: core_def add_dependent_def)

lemma grows_refl [simp, intro]: "grows L L"
  by (auto simp: grows_def)

lemma grows_trans [trans]:
  assumes "grows L L'" "grows L' L''"
  shows "grows L L''"
  unfolding grows_def
proof (intro allI impI)
  fix x pr
  assume "dict_get L x = Some pr"
  with assms(1) obtain pr' where "dict_get L' x = Some pr'" "core pr' = core pr"
    "set (pr_dependents pr) \<subseteq> set (pr_dependents pr')" by (rule growsE)
  moreover from assms(2) this(1) obtain pr'' where "dict_get L'' x = Some pr''" "core pr'' = core pr'"
    "set (pr_dependents pr') \<subseteq> set (pr_dependents pr'')" by (rule growsE)
  ultimately show "\<exists>pr''. dict_get L'' x = Some pr'' \<and> core pr'' = core pr \<and>
      set (pr_dependents pr) \<subseteq> set (pr_dependents pr'')" by auto
qed

lemma load_extD:
  assumes "load_ext stack s s'"
  shows "pm_inv s'" "same_env s s'" "grows (packages_loaded s) (packages_loaded s')"
    "loaded s x \<Longrightarrow> loaded s' x" "x \<in> set stack \<Longrightarrow> loaded s' x \<Longrightarrow> loaded s x"
  using assms by (auto simp: load_ext_def dict_has_def simp del: set_map)

lemma load_ext_refl [simp, intro]: "pm_inv s \<Longrightarrow> load_ext stack s s"
  by (auto simp: load_ext_def)

lemma load_ext_trans [trans]:
  assumes "load_ext stack s s'" "load_ext stack s' s''"
  shows "load_ext stack s s''"
proof -
  obtain new new' where "dict_keys (packages_loaded s') = dict_keys (packages_loaded s) @ new"
    "dict_keys (packages_loaded s'') = dict_keys (packages_loaded s') @ new'"
    "set new \<inter> set stack = {}" "set new' \<inter> set stack = {}"
    using assms by (auto simp: load_ext_def)
  then have "dict_keys (packages_loaded s'') = dict_keys (packages_loaded s) @ (new @ new')"
    "set (new @ new') \<inter> set stack = {}" by auto
  with assms show ?thesis
    unfolding load_ext_def by (blast intro: same_env_trans grows_trans)
qed

lemma load_ext_weaken: "load_ext stack s s' \<Longrightarrow> set stack' \<subseteq> set stack \<Longrightarrow> load_ext stack' s s'"
  by (auto simp: load_ext_def)

lemma grows_dependents: "grows L L' \<Longrightarrow> dependents_of L x \<subseteq> dependents_of L' x"
  by (cases "dict_get L x") (auto simp: dependents_of_def elim!: growsE)

text \<open>One dependency recorded.\<close>

lemma load_ext_add_dependent:
  assumes "pm_inv s" "dict_get (packages_loaded s) d = Some dr" "\<not> loaded s f"
  shows "load_ext stack s (s\<lparr>packages_loaded := dict_set d (add_dependent f dr) (packages_loaded s)\<rparr>)"
    (is "load_ext _ _ ?s")
proof -
  have "pm_inv ?s" using assms by (simp add: pm_inv_def table_inv_add_dependent)
  moreover have "grows (packages_loaded s) (packages_loaded ?s)"
    using assms(2) by (auto simp: grows_def)
  moreover have "dict_keys (packages_loaded ?s) = dict_keys (packages_loaded s)"
    using assms(2) by (simp add: dict_keys_set dict_has_iff)
  ultimately show ?thesis by (simp add: load_ext_def)
qed

lemma file_deps_same_env:
  assumes "same_env s s'"
  shows "file_deps s' x = file_deps s x"
  unfolding file_deps_def same_env_eqs [OF assms] ..

lemma fresh_deps_refl [simp]: "fresh_deps s s"
  by (auto simp: fresh_deps_def dict_has_iff)

lemma fresh_deps_trans:
  assumes "fresh_deps s s1" "fresh_deps s1 s2" "load_ext stack s s1" "load_ext stack s1 s2"
  shows "fresh_deps s s2"
  unfolding fresh_deps_def
proof (intro allI impI)
  fix x pr
  assume x: "\<not> loaded s x" and pr: "dict_get (packages_loaded s2) x = Some pr"
  show "file_deps s x = Some (pr_dependencies pr)"
  proof (cases "dict_get (packages_loaded s1) x")
    case None
    with pr assms(2) have "file_deps s1 x = Some (pr_dependencies pr)"
      by (simp add: fresh_deps_def dict_has_iff)
    then show ?thesis by (simp add: file_deps_same_env [OF load_extD(2)[OF assms(3)]])
  next
    case (Some pr1)
    from load_extD(3)[OF assms(4)] this pr have "core pr = core pr1"
      by (elim growsE) auto
    then have "pr_dependencies pr = pr_dependencies pr1" by (rule core_eqs)
    with Some x assms(1) show ?thesis by (simp add: fresh_deps_def)
  qed
qed

lemma quiet_extD:
  "quiet_ext stack s s' \<Longrightarrow> load_ext stack s s'" "quiet_ext stack s s' \<Longrightarrow> autoload s' = autoload s"
  "quiet_ext stack s s' \<Longrightarrow> fresh_deps s s'"
  by (auto simp: quiet_ext_def)

lemma quiet_ext_refl [simp, intro]: "pm_inv s \<Longrightarrow> quiet_ext stack s s"
  by (simp add: quiet_ext_def load_ext_refl)

lemma quiet_ext_trans [trans]: "quiet_ext stack s s' \<Longrightarrow> quiet_ext stack s' s'' \<Longrightarrow> quiet_ext stack s s''"
  unfolding quiet_ext_def by (metis fresh_deps_trans load_ext_trans)

lemma quiet_ext_add_dependent:
  assumes "pm_inv s" "dict_get (packages_loaded s) d = Some dr" "\<not> loaded s f"
  shows "quiet_ext stack s (s\<lparr>packages_loaded := dict_set d (add_dependent f dr) (packages_loaded s)\<rparr>)"
  using load_ext_add_dependent [OF assms] assms(2)
  by (auto simp: quiet_ext_def fresh_deps_def dict_has_iff split: if_splits)

section \<open>The loop over the dependencies\<close>

locale loader =
  fixes load :: "string \<Rightarrow> string list \<Rightarrow> pm \<Rightarrow> (pm, package_record option) outcome"
  assumes load_contract: "pm_inv s \<Longrightarrow> d \<notin> set stack \<Longrightarrow> quiet_ext stack s (snd (load d stack s))"
begin

lemma load_dependencies_contract:
  assumes "pm_inv s" "f \<in> set stack" "\<not> loaded s f"
    and "load_dependencies load f stack ds s = (r, s')"
  shows "quiet_ext stack s s' \<and>
    (r = Inr True \<longrightarrow> (\<forall>d\<in>set ds. loaded s' d \<and> f \<in> dependents_of (packages_loaded s') d))"
  using assms
proof (induction ds arbitrary: s)
  case Nil
  then show ?case by auto
next
  case (Cons d ds)
  show ?case
  proof (cases "d \<in> set stack")
    case True
    with Cons.prems show ?thesis by auto
  next
    case False
    obtain r1 s1 where c1: "(if loaded s d then (Inr None, s) else load d stack s) = (r1, s1)"
      by fastforce
    have ext1: "quiet_ext stack s s1"
      using c1 load_contract [OF Cons.prems(1) False] Cons.prems(1) by (auto split: if_splits)
    show ?thesis
    proof (cases "r1")
      case (Inl e)
      with False Cons.prems(4) c1 ext1 show ?thesis by auto
    next
      case (Inr a)
      show ?thesis
      proof (cases "dict_get (packages_loaded s1) d")
        case None
        with False Cons.prems(4) c1 Inr ext1 show ?thesis by auto
      next
        case (Some dr)
        let ?s2 = "s1\<lparr>packages_loaded := dict_set d (add_dependent f dr) (packages_loaded s1)\<rparr>"
        have f1: "\<not> loaded s1 f" using load_extD(5)[OF quiet_extD(1)[OF ext1] Cons.prems(2)] Cons.prems(3) by blast
        have ext2: "quiet_ext stack s1 ?s2"
          by (rule quiet_ext_add_dependent [OF load_extD(1)[OF quiet_extD(1)[OF ext1]] Some f1])
        have f2: "\<not> loaded ?s2 f" using f1 Some by (auto simp: dict_has_iff)
        have call: "load_dependencies load f stack ds ?s2 = (r, s')"
          using False Cons.prems(4) c1 Inr Some by simp
        note IH = Cons.IH [OF load_extD(1)[OF quiet_extD(1)[OF ext2]] Cons.prems(2) f2 call]
        have d2: "loaded ?s2 d" "f \<in> dependents_of (packages_loaded ?s2) d"
          by (simp_all add: dependents_of_set)
        with IH have "loaded s' d" "f \<in> dependents_of (packages_loaded s') d"
          using load_extD(3,4) quiet_extD(1) grows_dependents by blast+
        with IH ext1 ext2 show ?thesis by (auto intro: quiet_ext_trans)
      qed
    qed
  qed
qed

end

section \<open>The contract holds of \<^verbatim>\<open>_package_load\<close>\<close>

lemma package_start_contract:
  assumes inv: "pm_inv s" and f: "\<not> loaded s f" "f \<notin> set stack"
    and deps: "\<forall>d\<in>set ds. loaded s d \<and> f \<in> dependents_of (packages_loaded s) d"
    and dist: "distinct ds"
    and call: "package_start f sha1 ext ds kl a s = (r, s')"
  shows "load_ext stack s s'" "\<not> a \<Longrightarrow> autoload s' = autoload s"
    "dict_get (packages_loaded s') x = Some pr \<Longrightarrow> \<not> loaded s x \<Longrightarrow> x = f \<and> pr_dependencies pr = ds"
proof -
  have reg: "run_prog p (get_package_registry f) (resource_registry s) = (x, r) \<Longrightarrow> registry_inv r" for p x r
    using inv inv_safe.P_run_prog by (metis pm_invD(2) snd_conv)
  let ?pr = "\<lambda>k. \<lparr>pr_file_name = f, pr_ext = Some ext, pr_sha1 = Some sha1, pr_dependents = [],
      pr_dependencies = ds, pr_instance = Some k\<rparr>"
  have tab: "table_inv (dict_set f (?pr k) (packages_loaded s))" for k
    using inv f deps dist by (intro table_inv_insert) (auto simp: pm_inv_def record_ok_def)
  have gr: "grows (packages_loaded s) (dict_set f (?pr k) (packages_loaded s))" for k
    using f by (auto simp: grows_def dict_has_iff)
  have keys: "dict_keys (dict_set f (?pr k) (packages_loaded s)) = dict_keys (packages_loaded s) @ [f]" for k
    using f by (simp add: dict_keys_set)
  from call show "load_ext stack s s'"
    using inv reg tab gr keys f(2)
    by (auto simp: package_start_def pr_simps Let_def load_ext_def pm_inv_def same_env_iff
        split: option.splits if_splits prod.splits sum.splits)
  from call show "\<not> a \<Longrightarrow> autoload s' = autoload s"
    by (auto simp: package_start_def pr_simps Let_def
        split: option.splits if_splits prod.splits sum.splits)
  from call show "dict_get (packages_loaded s') x = Some pr \<Longrightarrow> \<not> loaded s x \<Longrightarrow> x = f \<and> pr_dependencies pr = ds"
    by (auto simp: package_start_def pr_simps Let_def dict_has_iff
        split: option.splits if_splits prod.splits sum.splits)
qed

lemma verify_no_raise:
  assumes "package_chk_exists fs cwd pp f ext = Some (path, fext, cs)"
  shows "verify_integrity fs c cs path \<noteq> Inl e"
  using package_chk_exists_SomeD(3)[OF assms]
  by (auto simp: verify_integrity_def isfile_def sha1sum_def dict_has_iff split: option.splits)

text \<open>The two ways a load can go: it stops before the dependencies and changes nothing, or it
  finds a module and works through its dependency list.\<close>

lemma package_load_cases:
  assumes "package_load (Suc lim) f c a ext stack s = (r, s')"
  obtains (stop) "s' = s" "r = Inr None"
  | (deps) path fext cs sha1 m r1 s1 where "\<not> loaded s f"
      "package_chk_exists (pm_files s) (pm_cwd s) (package_path s) f ext = Some (path, fext, cs)"
      "verify_integrity (pm_files s) c cs path = Inr (Some sha1)"
      "package_module_load (pm_files s) path fext = Some m"
      "m_dependencies m \<noteq> DepsNotList"
      "(if deps_list (m_dependencies m) = [] then (Inr True, s)
        else load_dependencies (\<lambda>d stack. package_load lim d None False None stack) f (stack @ [f])
               (deps_list (m_dependencies m)) s) = (r1, s1)"
      "(case r1 of Inl e \<Rightarrow> (Inl e, s1) | Inr False \<Rightarrow> (Inr None, s1)
        | Inr True \<Rightarrow> package_start f sha1 fext (deps_list (m_dependencies m)) (m_class m) a s1) = (r, s')"
proof -
  consider (a) "loaded s f"
    | (b) "\<not> loaded s f" "package_chk_exists (pm_files s) (pm_cwd s) (package_path s) f ext = None"
    | (c) path fext cs where "\<not> loaded s f"
        "package_chk_exists (pm_files s) (pm_cwd s) (package_path s) f ext = Some (path, fext, cs)"
    by (metis not_Some_eq prod_cases3)
  then show ?thesis
  proof cases
    case (c path fext cs)
    consider (d) e where "verify_integrity (pm_files s) c cs path = Inl e"
      | (e) "verify_integrity (pm_files s) c cs path = Inr None"
      | (f) sha1 where "verify_integrity (pm_files s) c cs path = Inr (Some sha1)"
          "package_module_load (pm_files s) path fext = None"
      | (g) sha1 m where "verify_integrity (pm_files s) c cs path = Inr (Some sha1)"
          "package_module_load (pm_files s) path fext = Some m"
      by (metis not_Some_eq obj_sumE)
    then show ?thesis
    proof cases
      case (d e)
      with verify_no_raise [OF c(2)] show ?thesis by blast
    next
      case (g sha1 m)
      obtain r1 s1 where "(if deps_list (m_dependencies m) = [] then (Inr True, s)
        else load_dependencies (\<lambda>d stack. package_load lim d None False None stack) f (stack @ [f])
               (deps_list (m_dependencies m)) s) = (r1, s1)" by fastforce
      with g c assms stop deps show ?thesis
        by (cases "m_dependencies m = DepsNotList") (simp_all add: Let_def)
    qed (use c assms stop in simp_all)
  qed (use assms stop in simp_all)
qed

lemma package_load_contract:
  assumes "pm_inv s" "f \<notin> set stack" "package_load lim f c a ext stack s = (r, s')"
  shows "load_ext stack s s' \<and> (\<not> a \<longrightarrow> autoload s' = autoload s) \<and> (ext = None \<longrightarrow> fresh_deps s s')"
  using assms
proof (induction lim arbitrary: f c a ext stack s r s')
  case 0
  then show ?case by auto
next
  case (Suc lim)
  let ?load = "\<lambda>d stack. package_load lim d None False None stack"
  have L: "loader ?load"
    by unfold_locales (metis Suc.IH prod.collapse quiet_ext_def)
  from Suc.prems(3) show ?case
  proof (cases rule: package_load_cases)
    case stop
    with Suc.prems show ?thesis by auto
  next
    case (deps path fext cs sha1 m r1 s1)
    let ?ds = "deps_list (m_dependencies m)"
    have ext1: "quiet_ext (stack @ [f]) s s1 \<and> (r1 = Inr True \<longrightarrow>
        (\<forall>d\<in>set ?ds. loaded s1 d \<and> f \<in> dependents_of (packages_loaded s1) d))"
      using deps(1,6) Suc.prems loader.load_dependencies_contract [OF L, of s f "stack @ [f]" ?ds r1 s1]
      by (auto split: if_splits)
    then have ext: "load_ext stack s s1" "\<not> loaded s1 f" "pm_inv s1"
      using deps(1) load_extD [of "stack @ [f]" s s1] quiet_extD [of "stack @ [f]" s s1]
      by (auto intro: load_ext_weaken)
    show ?thesis
    proof (cases "r1 = Inr True")
      case True
      with deps(7) have start: "package_start f sha1 fext ?ds (m_class m) a s1 = (r, s')" by simp
      note pc = package_start_contract [OF ext(3,2) Suc.prems(2) _
          files_wf_module [OF pm_invD(3)[OF Suc.prems(1)] deps(4)] start]
      have "fresh_deps s1 s'" if "ext = None"
        unfolding fresh_deps_def
      proof (intro allI impI)
        fix x pr
        assume "\<not> loaded s1 x" "dict_get (packages_loaded s') x = Some pr"
        with pc(3) ext1 True have "x = f" "pr_dependencies pr = ?ds" by blast+
        moreover have "file_deps s f = Some ?ds"
          using deps(2,4) that by (simp add: file_deps_def)
        ultimately show "file_deps s1 x = Some (pr_dependencies pr)"
          by (simp add: file_deps_same_env [OF load_extD(2)[OF ext(1)]])
      qed
      with pc(1,2) ext1 True ext(1) show ?thesis
        by (auto intro: load_ext_trans fresh_deps_trans dest: quiet_extD)
    next
      case False
      with deps(7) ext(1) ext1 show ?thesis
        by (auto dest: quiet_extD split: sum.splits bool.splits)
    qed
  qed
qed

interpretation pl: loader "\<lambda>d stack. package_load lim d c False None stack" for lim c
  by unfold_locales (metis package_load_contract prod.collapse quiet_ext_def)

section \<open>The dependency graph\<close>

definition position :: "pm \<Rightarrow> string \<Rightarrow> nat" where
  "position s k = length (takeWhile (\<lambda>x. x \<noteq> k) (dict_keys (packages_loaded s)))"

definition dep_graph :: "pm \<Rightarrow> (string \<times> string) set" where
  "dep_graph s = {(d, f). \<exists>pr. dict_get (packages_loaded s) f = Some pr \<and> d \<in> set (pr_dependencies pr)}"

lemma position_less:
  assumes "pm_inv s" "loaded s d" "loaded s f" "f \<in> dependents_of (packages_loaded s) d"
  shows "position s d < position s f"
proof -
  from assms(2) obtain us vs where split: "dict_keys (packages_loaded s) = us @ d # vs" "d \<notin> set us"
    by (metis dict_has_def split_list_first)
  have "f \<in> set vs"
    using load_order_later [OF table_invD(2)[OF pm_invD(1)[OF assms(1)]] split(1) assms(4,3)] .
  moreover have "distinct (us @ d # vs)"
    using table_invD(1)[OF pm_invD(1)[OF assms(1)]] split(1) by simp
  ultimately have "f \<notin> set us" "f \<noteq> d" by auto
  moreover have "takeWhile (\<lambda>x. x \<noteq> d) (us @ d # vs) = us"
    using split(2) by (subst takeWhile_append2) auto
  moreover from \<open>f \<notin> set us\<close> have "takeWhile (\<lambda>x. x \<noteq> f) (us @ d # vs) = us @ takeWhile (\<lambda>x. x \<noteq> f) (d # vs)"
    by (subst takeWhile_append2) auto
  ultimately show ?thesis by (simp add: position_def split(1))
qed

lemma dep_graph_position: "pm_inv s \<Longrightarrow> (d, f) \<in> dep_graph s \<Longrightarrow> position s d < position s f"
  using deps_closedD [OF table_invD(3)[OF pm_invD(1)]]
  by (fastforce simp: dep_graph_def dict_has_iff intro: position_less)

lemma acyclic_dep_graph: "pm_inv s \<Longrightarrow> acyclic (dep_graph s)"
  by (rule acyclic_subset [OF wf_acyclic [OF wf_measure [of "position s"]]])
    (auto simp: dep_graph_position)

text \<open>A package on a cycle of the dependencies in the files is not loaded by any load.\<close>

definition file_graph :: "pm \<Rightarrow> (string \<times> string) set" where
  "file_graph s = {(d, f). \<exists>ds. file_deps s f = Some ds \<and> d \<in> set ds}"

lemma fresh_dep_edge:
  assumes "pm_inv s'" "fresh_deps s s'" "loaded s' f" "\<not> loaded s f" "(d, f) \<in> file_graph s"
  shows "loaded s' d" "(d, f) \<in> dep_graph s'"
proof -
  from assms(3) obtain pr where pr: "dict_get (packages_loaded s') f = Some pr"
    by (auto simp: dict_has_iff)
  with assms(2,4,5) have d: "d \<in> set (pr_dependencies pr)"
    by (auto simp: fresh_deps_def file_graph_def)
  with pr show "(d, f) \<in> dep_graph s'" by (auto simp: dep_graph_def)
  from pr d show "loaded s' d"
    using deps_closedD [OF table_invD(3)[OF pm_invD(1)[OF assms(1)]]] by blast
qed

lemma fresh_dep_path:
  assumes "pm_inv s'" "fresh_deps s s'" "(d, f) \<in> (file_graph s)\<^sup>+"
    and "loaded s' f" "\<not> loaded s f" "\<forall>x. (d, x) \<in> (file_graph s)\<^sup>+ \<longrightarrow> (x, f) \<in> (file_graph s)\<^sup>* \<longrightarrow> \<not> loaded s x"
  shows "(d, f) \<in> (dep_graph s')\<^sup>+ \<and> loaded s' d"
  using assms(3,4,5,6)
proof (induction rule: trancl_induct)
  case (base f)
  then show ?case using fresh_dep_edge [OF assms(1,2)] by blast
next
  case (step y f)
  have y: "loaded s' y" "(y, f) \<in> dep_graph s'"
    using fresh_dep_edge [OF assms(1,2) step.prems(1,2) step.hyps(2)] by auto
  moreover have "\<not> loaded s y" using step.prems(3) step.hyps by blast
  ultimately have "(d, y) \<in> (dep_graph s')\<^sup>+ \<and> loaded s' d"
    using step.IH step.prems(3) step.hyps(2) by (meson rtrancl.rtrancl_into_rtrancl)
  with y show ?case by (meson trancl.trancl_into_trancl)
qed

section \<open>Loads that do not raise\<close>

locale total_loader = loader load
  for load :: "string \<Rightarrow> string list \<Rightarrow> pm \<Rightarrow> (pm, package_record option) outcome" +
  fixes ready :: "pm \<Rightarrow> string \<Rightarrow> string list \<Rightarrow> bool"
  assumes load_returns: "pm_inv s \<Longrightarrow> d \<notin> set stack \<Longrightarrow> ready s d stack \<Longrightarrow> \<exists>x. fst (load d stack s) = Inr x"
    and ready_env: "same_env s s' \<Longrightarrow> ready s d stack \<Longrightarrow> ready s' d stack"
begin

lemma load_dependencies_returns:
  assumes "pm_inv s" "f \<in> set stack" "\<not> loaded s f" "\<forall>d\<in>set ds. d \<notin> set stack \<longrightarrow> ready s d stack"
  shows "\<exists>b. fst (load_dependencies load f stack ds s) = Inr b"
  using assms
proof (induction ds arbitrary: s)
  case (Cons d ds)
  show ?case
  proof (cases "d \<in> set stack")
    case False
    obtain r1 s1 where c1: "(if loaded s d then (Inr None, s) else load d stack s) = (r1, s1)"
      by fastforce
    have ext1: "quiet_ext stack s s1"
      using c1 load_contract [OF Cons.prems(1) False] Cons.prems(1) by (auto split: if_splits)
    have "\<exists>x. r1 = Inr x"
      using c1 load_returns [OF Cons.prems(1) False] Cons.prems(4) False by (auto split: if_splits)
    then obtain x where r1: "r1 = Inr x" ..
    note D = load_extD [OF quiet_extD(1)[OF ext1]]
    have f1: "\<not> loaded s1 f" using D(5) Cons.prems(2,3) by blast
    show ?thesis
    proof (cases "dict_get (packages_loaded s1) d")
      case (Some dr)
      let ?s2 = "s1\<lparr>packages_loaded := dict_set d (add_dependent f dr) (packages_loaded s1)\<rparr>"
      have ext2: "load_ext stack s1 ?s2" by (rule load_ext_add_dependent [OF D(1) Some f1])
      have "\<not> loaded ?s2 f" using f1 Some by (auto simp: dict_has_iff)
      moreover have "\<forall>d\<in>set ds. d \<notin> set stack \<longrightarrow> ready ?s2 d stack"
        using Cons.prems(4) ready_env same_env_trans [OF D(2) load_extD(2)[OF ext2]] by auto
      ultimately show ?thesis
        using Cons.IH [OF load_extD(1)[OF ext2] Cons.prems(2)] False c1 r1 Some by auto
    qed (use False c1 r1 in auto)
  qed auto
qed auto

end

text \<open>The names that occur in dependency lists bound the depth of the recursion.\<close>

definition all_deps :: "files \<Rightarrow> string list" where
  "all_deps fs =
     concat (map (\<lambda>p. case f_module (snd p) of None \<Rightarrow> [] | Some m \<Rightarrow> deps_list (m_dependencies m)) fs)"

definition load_depth :: "files \<Rightarrow> string \<Rightarrow> string list \<Rightarrow> nat" where
  "load_depth fs f stack = card (insert f (set (all_deps fs)) - set stack)"

lemma load_depth_bound: "load_depth fs f [] \<le> Suc (length (all_deps fs))"
proof -
  have "card (insert f (set (all_deps fs))) \<le> Suc (card (set (all_deps fs)))"
    by (rule card_insert_le_m1) auto
  also have "\<dots> \<le> Suc (length (all_deps fs))" by (simp add: card_length)
  finally show ?thesis by (simp add: load_depth_def)
qed

lemma module_deps_in_all_deps:
  assumes "package_module_load fs path ext = Some m"
  shows "set (deps_list (m_dependencies m)) \<subseteq> set (all_deps fs)"
proof -
  from assms obtain fl where fl: "dict_get fs path = Some fl" "f_module fl = Some m"
    by (auto simp: package_module_load_def split: if_splits option.splits)
  then have "(path, fl) \<in> set fs" by (blast dest: dict_get_in_set)
  with fl(2) show ?thesis by (force simp: all_deps_def)
qed

lemma load_depth_step:
  assumes "f \<notin> set stack" "d \<in> set (all_deps fs)" "d \<notin> set (stack @ [f])"
  shows "load_depth fs d (stack @ [f]) < load_depth fs f stack"
proof -
  have "insert d (set (all_deps fs)) - set (stack @ [f]) \<subset> insert f (set (all_deps fs)) - set stack"
    using assms by auto
  then show ?thesis unfolding load_depth_def by (intro psubset_card_mono) auto
qed

lemma verify_hash:
  assumes "package_chk_exists fs cwd pp f ext = Some (path, fext, cs)"
    and "verify_integrity fs c cs path = Inr (Some h)"
  shows "\<exists>p fl. dict_get fs p = Some fl \<and> f_sha1 fl = h"
  using assms(2) package_chk_exists_SomeD(6)[OF assms(1)]
  by (auto simp: verify_integrity_def sha1sum_def set_checksums split: option.splits if_splits)

definition files_ok :: "files \<Rightarrow> bool" where
  "files_ok fs \<longleftrightarrow> (\<forall>p fl. dict_get fs p = Some fl \<longrightarrow> field_ok (f_sha1 fl))"

lemma package_start_returns:
  assumes "package_start f sha1 ext ds kl a s = (r, s')"
    and "a \<longrightarrow> autoload_ok (autoload s) \<and> field_ok f \<and> field_ok sha1"
  shows "\<exists>x. r = Inr x"
  using assms autoload_ok_write(1)[of "autoload s" f sha1]
  by (auto simp: package_start_def pr_simps Let_def
      split: option.splits if_splits prod.splits sum.splits)

lemma package_load_returns:
  assumes "pm_inv s" "f \<notin> set stack" "load_depth (pm_files s) f stack \<le> lim"
    and "a \<longrightarrow> autoload_ok (autoload s) \<and> field_ok f \<and> files_ok (pm_files s)"
  shows "\<exists>x. fst (package_load lim f c a ext stack s) = Inr x"
  using assms
proof (induction lim arbitrary: f c a ext stack s)
  case 0
  then have "insert f (set (all_deps (pm_files s))) - set stack = {}" by (simp add: load_depth_def)
  with 0 show ?case by auto
next
  case (Suc lim)
  let ?load = "\<lambda>d stack. package_load lim d None False None stack"
  let ?ready = "\<lambda>s d stack. load_depth (pm_files s) d stack \<le> lim"
  have L: "total_loader ?load ?ready"
    by unfold_locales (use Suc.IH in \<open>auto simp: same_env_eqs\<close>)
  obtain r s' where call: "package_load (Suc lim) f c a ext stack s = (r, s')" by fastforce
  then have "\<exists>x. r = Inr x"
  proof (cases rule: package_load_cases)
    case stop
    then show ?thesis by simp
  next
    case (deps path fext cs sha1 m r1 s1)
    let ?ds = "deps_list (m_dependencies m)"
    have ready: "\<forall>d\<in>set ?ds. d \<notin> set (stack @ [f]) \<longrightarrow> ?ready s d (stack @ [f])"
      using load_depth_step [OF Suc.prems(2)] module_deps_in_all_deps [OF deps(4)] Suc.prems(3)
      by (meson le_trans less_Suc_eq_le linorder_not_less not_less subset_iff)
    then have "\<exists>b. r1 = Inr b"
      using total_loader.load_dependencies_returns [OF L, of s f "stack @ [f]" ?ds] deps(1,6) Suc.prems(1)
      by (auto split: if_splits)
    then obtain b where b: "r1 = Inr b" ..
    have a1: "autoload s1 = autoload s"
      using deps(1,6) Suc.prems(1) pl.load_dependencies_contract [of s f "stack @ [f]" lim None ?ds]
      by (auto split: if_splits dest: quiet_extD(2))
    show ?thesis
    proof (cases b)
      case True
      with b deps(7) have "package_start f sha1 fext ?ds (m_class m) a s1 = (r, s')" by simp
      then show ?thesis
        using package_start_returns a1 Suc.prems(4) verify_hash [OF deps(2,3)]
        by (metis files_ok_def)
    qed (use b deps(7) in auto)
  qed
  with call show ?case by simp
qed

interpretation tl: total_loader "\<lambda>d stack. package_load lim d c False None stack"
  "\<lambda>s d stack. load_depth (pm_files s) d stack \<le> lim" for lim c
  by unfold_locales (use package_load_returns in \<open>auto simp: same_env_eqs\<close>)

section \<open>Results of a load\<close>

lemma package_start_result:
  assumes "package_start f sha1 ext ds kl a s = (Inr x, s')"
  shows "(x = None \<and> packages_loaded s' = packages_loaded s) \<or>
    (\<exists>k. kl = Some k \<and> k_new_ok k \<and> dict_get (packages_loaded s') f = x \<and>
      fst (run_prog (k_run k) (get_package_registry f) (resource_registry s)) = Inr () \<and>
      x = Some \<lparr>pr_file_name = f, pr_ext = Some ext, pr_sha1 = Some sha1, pr_dependents = [],
                pr_dependencies = ds, pr_instance = Some k\<rparr>)"
  using assms
  by (auto simp: package_start_def pr_simps Let_def
      split: option.splits if_splits prod.splits sum.splits)

lemma package_load_result:
  assumes "pm_inv s" "f \<notin> set stack" "package_load lim f c a ext stack s = (Inr x, s')"
  shows "(x = None \<and> loaded s' f = loaded s f) \<or>
    (\<exists>path fext cs sha1 m k. \<not> loaded s f \<and>
      package_chk_exists (pm_files s) (pm_cwd s) (package_path s) f ext = Some (path, fext, cs) \<and>
      verify_integrity (pm_files s) c cs path = Inr (Some sha1) \<and>
      package_module_load (pm_files s) path fext = Some m \<and> m_class m = Some k \<and>
      dict_get (packages_loaded s') f = x \<and>
      x = Some \<lparr>pr_file_name = f, pr_ext = Some fext, pr_sha1 = Some sha1, pr_dependents = [],
                pr_dependencies = deps_list (m_dependencies m), pr_instance = Some k\<rparr>)"
proof (cases lim)
  case 0
  with assms(3) show ?thesis by simp
next
  case (Suc n)
  from assms(3)[unfolded Suc] show ?thesis
  proof (cases rule: package_load_cases)
    case stop
    then show ?thesis by auto
  next
    case (deps path fext cs sha1 m r1 s1)
    let ?ds = "deps_list (m_dependencies m)"
    have f1: "\<not> loaded s1 f"
      using deps(1,6) assms(1) pl.load_dependencies_contract [of s f "stack @ [f]" n None ?ds]
        load_extD(5)[OF quiet_extD(1)]
      by (fastforce split: if_splits)
    show ?thesis
    proof (cases "r1 = Inr True")
      case True
      with deps(7) have "package_start f sha1 fext ?ds (m_class m) a s1 = (Inr x, s')" by simp
      from package_start_result [OF this] show ?thesis
        using f1 deps(1-4) by auto
    next
      case False
      with deps(7) f1 deps(1) show ?thesis by (auto split: sum.splits bool.splits)
    qed
  qed
qed

end
