(* ===== verification/Package_Unload.thy ===== *)
theory Package_Unload
  imports Package_Load
begin

text \<open>
  Correctness of \<^verbatim>\<open>_package_unload\<close>. The locale \<open>unloader\<close> states what an unload may change:
  packages only disappear, the ones that do are the named package and recursively its dependents,
  and the resources of every package that stays are untouched. The loop over the dependents is
  proved against it. \<open>total_unloader\<close> adds that the call succeeds, which holds of
  \<^verbatim>\<open>_package_unload\<close> when the recursion limit covers the packages loaded after the named one.
\<close>

section \<open>What an unload may change\<close>

definition shrinks :: "(string, package_record) dict \<Rightarrow> (string, package_record) dict \<Rightarrow> bool" where
  "shrinks L L' \<longleftrightarrow>
     (\<exists>P. dict_keys L' = filter P (dict_keys L)) \<and>
     (\<forall>x pr'. dict_get L' x = Some pr' \<longrightarrow>
        (\<exists>pr. dict_get L x = Some pr \<and> core pr' = core pr \<and> set (pr_dependents pr') \<subseteq> set (pr_dependents pr)))"

text \<open>The graph of the recorded dependents.\<close>

definition dependents_graph :: "pm \<Rightarrow> (string \<times> string) set" where
  "dependents_graph s = {(x, y). y \<in> dependents_of (packages_loaded s) x}"

definition same_resources :: "registry \<Rightarrow> registry \<Rightarrow> string \<Rightarrow> bool" where
  "same_resources r r' y \<longleftrightarrow> owned r' y = owned r y \<and>
     (\<forall>i\<in>set (owned r y). dict_get (reg_registry r') i = dict_get (reg_registry r) i)"

definition unload_ext :: "string set \<Rightarrow> pm \<Rightarrow> pm \<Rightarrow> bool" where
  "unload_ext F s s' \<longleftrightarrow>
     pm_inv s' \<and> same_env s s' \<and> shrinks (packages_loaded s) (packages_loaded s') \<and>
     (\<forall>x. loaded s x \<longrightarrow> \<not> loaded s' x \<longrightarrow> x \<in> (dependents_graph s)\<^sup>* `` F) \<and>
     (\<forall>y. (loaded s y \<longrightarrow> loaded s' y) \<longrightarrow> same_resources (resource_registry s) (resource_registry s') y) \<and>
     (autoload_ok (autoload s) \<longrightarrow> autoload_ok (autoload s'))"

lemma dependents_ofD:
  "y \<in> dependents_of L x \<Longrightarrow> \<exists>pr. dict_get L x = Some pr \<and> y \<in> set (pr_dependents pr)"
  by (auto simp: dependents_of_def split: option.splits)

lemma shrinksE:
  assumes "shrinks L L'" "dict_get L' x = Some pr'"
  obtains pr where "dict_get L x = Some pr" "core pr' = core pr"
    "set (pr_dependents pr') \<subseteq> set (pr_dependents pr)"
  using assms unfolding shrinks_def by blast

lemma shrinks_refl [simp, intro]: "shrinks L L"
  by (auto simp: shrinks_def intro: exI [of _ "\<lambda>_. True"])

lemma shrinks_trans:
  assumes "shrinks L L'" "shrinks L' L''"
  shows "shrinks L L''"
  unfolding shrinks_def
proof (intro conjI allI impI)
  show "\<exists>P. dict_keys L'' = filter P (dict_keys L)"
    using assms unfolding shrinks_def by (metis filter_filter)
  fix x pr''
  assume "dict_get L'' x = Some pr''"
  with assms(2) obtain pr' where 1: "dict_get L' x = Some pr'" "core pr'' = core pr'"
    "set (pr_dependents pr'') \<subseteq> set (pr_dependents pr')" by (rule shrinksE)
  from assms(1) 1(1) obtain pr where "dict_get L x = Some pr" "core pr' = core pr"
    "set (pr_dependents pr') \<subseteq> set (pr_dependents pr)" by (rule shrinksE)
  with 1 show "\<exists>pr. dict_get L x = Some pr \<and> core pr'' = core pr \<and>
      set (pr_dependents pr'') \<subseteq> set (pr_dependents pr)" by auto
qed

lemma shrinks_has: "shrinks L L' \<Longrightarrow> dict_has L' x \<Longrightarrow> dict_has L x"
  by (auto simp: dict_has_iff elim!: shrinksE)

lemma shrinks_dependents: "shrinks L L' \<Longrightarrow> dependents_of L' x \<subseteq> dependents_of L x"
  by (cases "dict_get L' x") (auto simp: dependents_of_def elim!: shrinksE)

lemma same_resources_refl [simp]: "same_resources r r y"
  by (simp add: same_resources_def)

lemma same_resources_trans: "same_resources r r' y \<Longrightarrow> same_resources r' r'' y \<Longrightarrow> same_resources r r'' y"
  by (simp add: same_resources_def)

lemma dependents_graph_mono:
  "shrinks (packages_loaded s) (packages_loaded s') \<Longrightarrow> dependents_graph s' \<subseteq> dependents_graph s"
  using shrinks_dependents by (fastforce simp: dependents_graph_def)

lemma unload_extD:
  assumes "unload_ext F s s'"
  shows "pm_inv s'" "same_env s s'" "shrinks (packages_loaded s) (packages_loaded s')"
    "loaded s x \<Longrightarrow> \<not> loaded s' x \<Longrightarrow> x \<in> (dependents_graph s)\<^sup>* `` F"
    "(loaded s x \<Longrightarrow> loaded s' x) \<Longrightarrow> same_resources (resource_registry s) (resource_registry s') x"
    "autoload_ok (autoload s) \<Longrightarrow> autoload_ok (autoload s')"
    "loaded s' x \<Longrightarrow> loaded s x"
    "dependents_graph s' \<subseteq> dependents_graph s"
  using assms shrinks_has dependents_graph_mono by (auto simp: unload_ext_def)

lemma unload_ext_refl [simp, intro]: "pm_inv s \<Longrightarrow> unload_ext F s s"
  by (auto simp: unload_ext_def)

lemma unload_ext_trans:
  assumes 1: "unload_ext F s s1" and 2: "unload_ext F s1 s2"
  shows "unload_ext F s s2"
proof -
  have "x \<in> (dependents_graph s)\<^sup>* `` F" if "loaded s x" "\<not> loaded s2 x" for x
  proof (cases "loaded s1 x")
    case True
    then have "x \<in> (dependents_graph s1)\<^sup>* `` F" using unload_extD(4)[OF 2] that by blast
    with unload_extD(8)[OF 1] show ?thesis by (meson Image_mono rtrancl_mono subset_refl subsetD)
  qed (use unload_extD(4)[OF 1] that in blast)
  moreover have "same_resources (resource_registry s) (resource_registry s2) y"
    if "loaded s y \<longrightarrow> loaded s2 y" for y
  proof -
    have "same_resources (resource_registry s) (resource_registry s1) y"
      using unload_extD(5)[OF 1] unload_extD(7)[OF 2] that by blast
    moreover have "same_resources (resource_registry s1) (resource_registry s2) y"
      using unload_extD(5)[OF 2] unload_extD(7)[OF 1] that by blast
    ultimately show ?thesis by (rule same_resources_trans)
  qed
  ultimately show ?thesis
    using unload_extD(1)[OF 2] same_env_trans [OF unload_extD(2)[OF 1] unload_extD(2)[OF 2]]
      shrinks_trans [OF unload_extD(3)[OF 1] unload_extD(3)[OF 2]] unload_extD(6)[OF 1] unload_extD(6)[OF 2]
    unfolding unload_ext_def by blast
qed

lemma unload_ext_mono: "unload_ext F s s' \<Longrightarrow> F \<subseteq> G \<Longrightarrow> unload_ext G s s'"
  unfolding unload_ext_def by blast

lemma unload_ext_roots:
  assumes "unload_ext F s s'" "F \<subseteq> (dependents_graph s)\<^sup>* `` G"
  shows "unload_ext G s s'"
proof -
  have "(dependents_graph s)\<^sup>* `` F \<subseteq> (dependents_graph s)\<^sup>* `` G"
    using assms(2) by (blast intro: rtrancl_trans)
  with assms(1) show ?thesis unfolding unload_ext_def by blast
qed

lemma key_order_ok_env: "same_env s s' \<Longrightarrow> key_order_ok s \<Longrightarrow> key_order_ok s'"
  by (simp add: key_order_ok_def same_env_eqs)

section \<open>The loop over the dependents\<close>

locale unloader =
  fixes unload :: "string \<Rightarrow> tracked \<Rightarrow> (tracked, bool) outcome"
  assumes unload_contract:
    "pm_inv s \<Longrightarrow> key_order_ok s \<Longrightarrow> unload d (s, tr) = (r, (s', tr')) \<Longrightarrow> unload_ext {d} s s'"
begin

lemma unload_dependents_contract:
  assumes "pm_inv s" "key_order_ok s" "unload_dependents unload ds (s, tr) = (r, (s', tr'))"
  shows "unload_ext (set ds) s s' \<and> (r = Inr True \<longrightarrow> (\<forall>d\<in>set ds. \<not> loaded s' d))"
  using assms
proof (induction ds arbitrary: s tr)
  case Nil
  then show ?case by auto
next
  case (Cons d ds)
  obtain r1 s1 tr1 where c: "(if loaded s d then unload d (s, tr) else (Inr True, (s, tr))) = (r1, (s1, tr1))"
    by (metis prod.collapse)
  have e1: "unload_ext {d} s s1"
    using c unload_contract [OF Cons.prems(1,2)] Cons.prems(1) by (auto split: if_splits)
  then have e1': "unload_ext (set (d # ds)) s s1" by (rule unload_ext_mono) auto
  show ?case
  proof (cases "\<exists>e. r1 = Inl e")
    case True
    with Cons.prems(3) c e1' show ?thesis by auto
  next
    case False
    then obtain b where b: "r1 = Inr b" by (cases r1) auto
    show ?thesis
    proof (cases "loaded s1 d")
      case True
      with Cons.prems(3) c b e1' show ?thesis by auto
    next
      case False
      with Cons.prems(3) c b have call: "unload_dependents unload ds (s1, tr1) = (r, (s', tr'))" by simp
      note IH = Cons.IH [OF unload_extD(1)[OF e1] key_order_ok_env [OF unload_extD(2)[OF e1] Cons.prems(2)] call]
      then have "unload_ext (set (d # ds)) s1 s'" by (auto intro: unload_ext_mono)
      moreover have "\<not> loaded s' d" using False IH unload_extD(7) by blast
      ultimately show ?thesis using IH e1' unload_ext_trans by auto
    qed
  qed
qed

end

section \<open>Removing one package\<close>

lemma remove_from_dependencies_ok:
  assumes "distinct ds"
    and "\<forall>d\<in>set ds. \<exists>dr. dict_get (packages_loaded s) d = Some dr \<and> f \<in> set (pr_dependents dr)"
  shows "\<exists>L'. remove_from_dependencies f ds s = (Inr (), s\<lparr>packages_loaded := L'\<rparr>) \<and>
    dict_keys L' = dict_keys (packages_loaded s) \<and>
    (\<forall>x. dict_get L' x =
       map_option (\<lambda>pr. if x \<in> set ds then pr\<lparr>pr_dependents := remove1 f (pr_dependents pr)\<rparr> else pr)
         (dict_get (packages_loaded s) x))"
  using assms
proof (induction ds arbitrary: s)
  case Nil
  then show ?case by (auto intro!: exI [of _ "packages_loaded s"] simp: option.map_ident)
next
  case (Cons d ds)
  then obtain dr where dr: "dict_get (packages_loaded s) d = Some dr" "f \<in> set (pr_dependents dr)" by auto
  let ?dr = "dr\<lparr>pr_dependents := remove1 f (pr_dependents dr)\<rparr>"
  let ?s = "s\<lparr>packages_loaded := dict_set d ?dr (packages_loaded s)\<rparr>"
  have "\<forall>x\<in>set ds. \<exists>r. dict_get (packages_loaded ?s) x = Some r \<and> f \<in> set (pr_dependents r)"
    using Cons.prems by auto
  with Cons.IH [of ?s] Cons.prems(1) obtain L' where
    L': "remove_from_dependencies f ds ?s = (Inr (), ?s\<lparr>packages_loaded := L'\<rparr>)"
    "dict_keys L' = dict_keys (packages_loaded ?s)"
    "\<forall>x. dict_get L' x = map_option (\<lambda>pr. if x \<in> set ds
       then pr\<lparr>pr_dependents := remove1 f (pr_dependents pr)\<rparr> else pr) (dict_get (packages_loaded ?s) x)"
    by auto
  have "remove_from_dependencies f (d # ds) s = (Inr (), s\<lparr>packages_loaded := L'\<rparr>)"
    using dr L'(1) by (simp add: del_dependent_def)
  moreover have "dict_keys L' = dict_keys (packages_loaded s)"
    using L'(2) dr(1) by (simp add: dict_keys_set dict_has_iff)
  ultimately show ?case using L'(3) dr(1) Cons.prems(1) by (intro exI [of _ L']) auto
qed

text \<open>The table after \<open>f\<close>, which nothing loaded depends on, has been taken out.\<close>

lemma table_inv_remove:
  assumes inv: "table_inv L" and f: "dict_get L f = Some pr"
    and alone: "dependents_of L f \<inter> set (dict_keys L) = {}"
    and keys: "dict_keys L' = dict_keys L"
    and get: "\<And>x. dict_get L' x =
      map_option (\<lambda>r. if x \<in> set (pr_dependencies pr)
        then r\<lparr>pr_dependents := remove1 f (pr_dependents r)\<rparr> else r) (dict_get L x)"
  shows "table_inv (dict_del f L') \<and> shrinks L (dict_del f L')"
proof -
  have dist: "distinct (pr_dependents r)" if "dict_get L x = Some r" for x r
    using table_invD(4)[OF inv that] by (simp add: record_ok_def)
  have sub: "set (pr_dependents r') \<subseteq> set (pr_dependents r) \<and> core r' = core r"
    if "dict_get L' x = Some r'" "dict_get L x = Some r" for x r r'
    using that get [of x] by (auto simp: core_def split: if_splits dest: set_remove1_subset [THEN subsetD])
  have "dict_keys (dict_del f L') = filter (\<lambda>x. x \<noteq> f) (dict_keys L)"
    by (simp add: dict_keys_del keys removeAll_filter_not_eq) (metis (mono_tags) filter_cong)
  moreover have "\<exists>r. dict_get L x = Some r \<and> core r' = core r \<and> set (pr_dependents r') \<subseteq> set (pr_dependents r)"
    if "dict_get (dict_del f L') x = Some r'" for x r'
    using that sub [of x r'] get [of x] by (cases "dict_get L x") (auto split: if_splits)
  ultimately have shr: "shrinks L (dict_del f L')" unfolding shrinks_def by blast
  have closed: "deps_closed (dict_del f L')"
    unfolding deps_closed_def
  proof (intro allI impI)
    fix g r' d
    assume g: "dict_get (dict_del f L') g = Some r'" and d: "d \<in> set (pr_dependencies r')"
    from shr g obtain r where r: "dict_get L g = Some r" "core r' = core r" by (rule shrinksE)
    have gf: "g \<noteq> f" using g by auto
    have dd: "dict_has L d \<and> g \<in> dependents_of L d"
      using deps_closedD [OF table_invD(3)[OF inv] r(1)] core_eqs(1)[OF r(2)] d by simp
    have "dict_has L g" using r(1) by (simp add: dict_has_iff)
    with dd alone have df: "d \<noteq> f" unfolding dict_has_def by blast
    from dd obtain dr where dr: "dict_get L d = Some dr" "g \<in> set (pr_dependents dr)"
      by (auto simp: dependents_of_def dict_has_iff)
    with get [of d] gf df show "dict_has (dict_del f L') d \<and> g \<in> dependents_of (dict_del f L') d"
      by (auto simp: dict_has_iff dependents_of_def in_set_remove1)
  qed
  have rok: "\<forall>x r'. dict_get (dict_del f L') x = Some r' \<longrightarrow> record_ok x r'"
  proof (intro allI impI)
    fix x r'
    assume x: "dict_get (dict_del f L') x = Some r'"
    with shr obtain r where r: "dict_get L x = Some r" "core r' = core r" by (rule shrinksE)
    have "distinct (pr_dependents r')"
      using x get [of x] r(1) dist [OF r(1)] by (auto split: if_splits)
    then show "record_ok x r'"
      using table_invD(4)[OF inv r(1)] core_eqs [OF r(2)] by (simp add: record_ok_def)
  qed
  have "load_order (dict_del f L')"
    using shr shrinks_dependents [OF shr]
    by (intro load_order_mono [OF table_invD(2)[OF inv], of _ "\<lambda>x. x \<noteq> f"])
      (auto simp: dict_keys_del keys removeAll_filter_not_eq intro!: filter_cong)
  moreover have "dict_ok (dict_del f L')"
    using table_invD(1)[OF inv] keys by (metis dict_ok_del)
  ultimately show ?thesis using closed rok shr by (simp add: table_inv_def)
qed

lemma unload_self_contract:
  assumes inv: "pm_inv s" and f: "dict_get (packages_loaded s) f = Some pr1" and core: "core pr = core pr1"
    and alone: "dependents_of (packages_loaded s) f \<inter> set (dict_keys (packages_loaded s)) = {}"
    and call: "unload_self f pr (s, tr) = (r, (s', tr'))"
  shows "unload_ext {f} s s'" "r = Inr True \<Longrightarrow> \<not> loaded s' f"
    "autoload_ok (autoload s) \<Longrightarrow> (\<And>k. pr_instance pr = Some k \<Longrightarrow> k_is_package k) \<Longrightarrow> r = Inr True"
proof -
  note tab = pm_invD(1)[OF inv] and reg = pm_invD(2)[OF inv] and wf = pm_invD(3)[OF inv]
  have ok: "record_ok f pr1" by (rule table_invD(4)[OF tab f])
  then obtain k where k: "pr_instance pr = Some k" using core_eqs(2)[OF core] by (auto simp: record_ok_def)
  obtain h where h: "pr_sha1 pr = Some h" using ok core_eqs(3)[OF core] by (auto simp: record_ok_def)
  obtain r1 where r1: "deregister_package f (resource_registry s) = (Inr (), r1)" "registry_inv r1"
    "owned r1 f = []" "\<And>q. q \<noteq> f \<Longrightarrow> owned r1 q = owned (resource_registry s) q"
    "\<And>i. dict_get (reg_registry r1) i =
       (if i \<in> set (owned (resource_registry s) f) then None else dict_get (reg_registry (resource_registry s)) i)"
    using deregister_package_ok [OF reg, of f] by metis
  obtain x r2 where r2: "run_prog (k_clean_up k) (get_package_registry f) r1 = (x, r2)" by fastforce
  have r2ok: "registry_inv r2" by (rule registry_inv_run_prog [OF r1(2) r2])
  have res: "same_resources (resource_registry s) r2 y" if "y \<noteq> f" for y
    unfolding same_resources_def
  proof (intro conjI ballI)
    note fr = run_prog_frame [OF r1(2) _ r2, of y]
    show "owned r2 y = owned (resource_registry s) y"
      using fr(1) r1(4) that by (simp add: get_package_registry_def)
    fix i assume i: "i \<in> set (owned (resource_registry s) y)"
    with registry_invD(5)[OF reg] that have "i \<notin> set (owned (resource_registry s) f)" by blast
    with fr(2)[of i] i r1(4,5) that
    show "dict_get (reg_registry r2) i = dict_get (reg_registry (resource_registry s)) i"
      by (simp add: get_package_registry_def)
  qed
  let ?s1 = "s\<lparr>resource_registry := r2\<rparr>"
  have deps: "\<forall>d\<in>set (pr_dependencies pr). \<exists>dr. dict_get (packages_loaded ?s1) d = Some dr \<and> f \<in> set (pr_dependents dr)"
    using deps_closedD [OF table_invD(3)[OF tab] f] core_eqs(1)[OF core]
    by (auto dest!: dependents_ofD)
  have dist: "distinct (pr_dependencies pr)" using ok core_eqs(1)[OF core] by (simp add: record_ok_def)
  obtain L' where L': "remove_from_dependencies f (pr_dependencies pr) ?s1 = (Inr (), ?s1\<lparr>packages_loaded := L'\<rparr>)"
    "dict_keys L' = dict_keys (packages_loaded s)"
    "\<And>x. dict_get L' x = map_option (\<lambda>r. if x \<in> set (pr_dependencies pr)
       then r\<lparr>pr_dependents := remove1 f (pr_dependents r)\<rparr> else r) (dict_get (packages_loaded s) x)"
    using remove_from_dependencies_ok [OF dist deps] by auto
  have T: "table_inv (dict_del f L')" "shrinks (packages_loaded s) (dict_del f L')"
    using table_inv_remove [OF tab f alone L'(2)] L'(3) core_eqs(1)[OF core] by auto
  have fL: "dict_has L' f" using L'(2) f by (metis dict_has_def dict_has_iff option.discI)
  let ?a = "remove_package_from_autoload f (autoload s)"
  let ?s' = "s\<lparr>resource_registry := r2, packages_loaded := dict_del f L', autoload := snd ?a\<rparr>"
  have ext: "unload_ext {f} s ?s'"
    unfolding unload_ext_def
  proof (intro conjI allI impI)
    show "pm_inv ?s'" using T(1) r2ok wf by (simp add: pm_inv_def)
    show "same_env s ?s'" by (simp add: same_env_iff)
    show "shrinks (packages_loaded s) (packages_loaded ?s')" using T(2) by simp
    show "x \<in> (dependents_graph s)\<^sup>* `` {f}" if "loaded s x" "\<not> loaded ?s' x" for x
    proof -
      have "dict_has L' x" using that(1) L'(2) by (simp add: dict_has_def del: set_map)
      with that(2) have "x = f" by simp
      then show ?thesis by simp
    qed
    show "same_resources (resource_registry s) (resource_registry ?s') y"
      if "loaded s y \<longrightarrow> loaded ?s' y" for y
    proof -
      have "loaded s f" using f by (simp add: dict_has_iff)
      with that have "y \<noteq> f" by auto
      then show ?thesis using res by simp
    qed
    show "autoload_ok (autoload s) \<Longrightarrow> autoload_ok (autoload ?s')"
      by (simp add: autoload_ok_remove)
  qed
  show "unload_ext {f} s s'"
    using call k h r1(1) r2 L'(1) fL ext inv
    by (auto simp: unload_self_def pr_simps track_def Let_def split: if_splits option.splits prod.splits sum.splits)
  show "r = Inr True \<Longrightarrow> \<not> loaded s' f"
    using call k h r1(1) r2 L'(1) fL
    by (auto simp: unload_self_def pr_simps track_def Let_def split: if_splits option.splits prod.splits sum.splits)
  show "autoload_ok (autoload s) \<Longrightarrow> (\<And>k. pr_instance pr = Some k \<Longrightarrow> k_is_package k) \<Longrightarrow> r = Inr True"
    using call k h r1(1) r2 L'(1) fL autoload_ok_remove(1)[of "autoload s" f]
    by (auto simp: unload_self_def pr_simps track_def Let_def split: if_splits option.splits prod.splits sum.splits)
qed

section \<open>The contract holds of \<^verbatim>\<open>_package_unload\<close>\<close>

text \<open>Paths in the dependents graph between loaded packages follow the load order.\<close>

lemma edge_position:
  assumes "pm_inv s" "(x, y) \<in> dependents_graph s"
  shows "loaded s x" "loaded s y \<Longrightarrow> position s x < position s y"
proof -
  have e: "y \<in> dependents_of (packages_loaded s) x" using assms(2) by (simp add: dependents_graph_def)
  then show x: "loaded s x" by (auto simp: dict_has_iff dest!: dependents_ofD)
  show "loaded s y \<Longrightarrow> position s x < position s y" using position_less [OF assms(1) x _ e] .
qed

lemma dependents_path_position:
  assumes "pm_inv s" "(x, y) \<in> (dependents_graph s)\<^sup>+" "loaded s y"
  shows "position s x < position s y"
  using assms(2,3)
proof (induction rule: trancl_induct)
  case (base y)
  then show ?case using edge_position [OF assms(1)] by blast
next
  case (step y z)
  have "loaded s y" using edge_position(1)[OF assms(1) step.hyps(2)] .
  with step.IH have "position s x < position s y" .
  also have "\<dots> < position s z" using edge_position(2)[OF assms(1) step.hyps(2) step.prems] .
  finally show ?case .
qed

lemma dependents_loop_keeps:
  assumes "pm_inv s" "loaded s f" "unload_ext F s s1" "F \<subseteq> dependents_of (packages_loaded s) f"
  shows "loaded s1 f"
proof (rule ccontr)
  assume "\<not> loaded s1 f"
  with unload_extD(4)[OF assms(3,2)] obtain d where "d \<in> F" "(d, f) \<in> (dependents_graph s)\<^sup>*" by blast
  moreover from this assms(4) have "(f, d) \<in> dependents_graph s" by (auto simp: dependents_graph_def)
  ultimately have "(f, f) \<in> (dependents_graph s)\<^sup>+" by (rule_tac rtrancl_into_trancl2)
  from dependents_path_position [OF assms(1) this assms(2)] show False by simp
qed

lemma package_unload_cases:
  assumes "package_unload (Suc lim) f (s, tr) = (r, (s', tr'))"
  obtains (absent) "\<not> loaded s f" "s' = s" "r = Inr False"
  | (loop) pr r1 s1 tr1 where "dict_get (packages_loaded s) f = Some pr"
      "unload_dependents (package_unload lim) (key_order s (pr_dependents pr)) (s, tr) = (r1, (s1, tr1))"
      "(case r1 of Inl e \<Rightarrow> (Inl e, (s1, tr1)) | Inr False \<Rightarrow> (Inr False, (s1, tr1))
        | Inr True \<Rightarrow> unload_self f pr (s1, tr1)) = (r, (s', tr'))"
proof (cases "dict_get (packages_loaded s) f")
  case None
  show ?thesis by (rule absent) (use assms None in \<open>simp_all add: dict_has_iff\<close>)
next
  case (Some pr)
  obtain r1 s1 tr1 where
    l: "unload_dependents (package_unload lim) (key_order s (pr_dependents pr)) (s, tr) = (r1, (s1, tr1))"
    by (metis prod.collapse)
  show ?thesis by (rule loop [OF Some l]) (use Some l assms in \<open>simp add: pr_simps\<close>)
qed

text \<open>The situation after the loop: the package is still there, its dependents are gone.\<close>

lemma after_dependents:
  assumes "pm_inv s" "key_order_ok s" "dict_get (packages_loaded s) f = Some pr"
    and "unload_ext (set (key_order s (pr_dependents pr))) s s1"
    and gone: "\<forall>d\<in>set (key_order s (pr_dependents pr)). \<not> loaded s1 d"
  obtains pr1 where "dict_get (packages_loaded s1) f = Some pr1" "core pr = core pr1"
    "dependents_of (packages_loaded s1) f \<inter> set (dict_keys (packages_loaded s1)) = {}"
proof -
  have D: "set (key_order s (pr_dependents pr)) = dependents_of (packages_loaded s) f"
    using assms(2,3) by (simp add: key_order_ok_def dependents_of_def)
  have "loaded s1 f"
    using dependents_loop_keeps [OF assms(1) _ assms(4)] assms(3) D by (simp add: dict_has_iff)
  then obtain pr1 where pr1: "dict_get (packages_loaded s1) f = Some pr1" by (auto simp: dict_has_iff)
  from unload_extD(3)[OF assms(4)] pr1 assms(3) have "core pr1 = core pr" by (elim shrinksE) auto
  moreover have "dependents_of (packages_loaded s1) f \<inter> set (dict_keys (packages_loaded s1)) = {}"
    using gone D shrinks_dependents [OF unload_extD(3)[OF assms(4)], of f]
    by (auto simp: dict_has_def simp del: set_map)
  ultimately show ?thesis using that pr1 by simp
qed

lemma package_unload_contract:
  assumes "pm_inv s" "key_order_ok s" "package_unload lim f (s, tr) = (r, (s', tr'))"
  shows "unload_ext {f} s s' \<and> (r = Inr True \<longrightarrow> \<not> loaded s' f)"
  using assms
proof (induction lim arbitrary: f s tr r s' tr')
  case 0
  then show ?case by auto
next
  case (Suc lim)
  have U: "unloader (package_unload lim)" by unfold_locales (use Suc.IH in blast)
  from Suc.prems(3) show ?case
  proof (cases rule: package_unload_cases)
    case absent
    with Suc.prems show ?thesis by auto
  next
    case (loop pr r1 s1 tr1)
    let ?ds = "key_order s (pr_dependents pr)"
    have c: "unload_ext (set ?ds) s s1 \<and> (r1 = Inr True \<longrightarrow> (\<forall>d\<in>set ?ds. \<not> loaded s1 d))"
      by (rule unloader.unload_dependents_contract [OF U Suc.prems(1,2) loop(2)])
    have "set ?ds \<subseteq> (dependents_graph s)\<^sup>* `` {f}"
      using Suc.prems(2) loop(1) by (auto simp: key_order_ok_def dependents_graph_def dependents_of_def)
    with c have e1: "unload_ext {f} s s1" using unload_ext_roots by blast
    show ?thesis
    proof (cases "r1 = Inr True")
      case True
      obtain pr1 where pr1: "dict_get (packages_loaded s1) f = Some pr1" "core pr = core pr1"
        "dependents_of (packages_loaded s1) f \<inter> set (dict_keys (packages_loaded s1)) = {}"
        using after_dependents [OF Suc.prems(1,2) loop(1)] c True by blast
      from True loop(3) have "unload_self f pr (s1, tr1) = (r, (s', tr'))" by simp
      note us = unload_self_contract(1,2)[OF unload_extD(1)[OF e1] pr1 this]
      show ?thesis using unload_ext_trans [OF e1 us(1)] us(2) by blast
    next
      case False
      with loop(3) e1 show ?thesis by (auto split: sum.splits bool.splits)
    qed
  qed
qed

interpretation ul: unloader "package_unload lim" for lim
  by unfold_locales (use package_unload_contract in blast)

section \<open>Unloads that succeed\<close>

text \<open>Every loaded instance is a \<^verbatim>\<open>LiotaPackage\<close> and the start-up list is well formed.\<close>

definition clean :: "pm \<Rightarrow> bool" where
  "clean s \<longleftrightarrow> autoload_ok (autoload s) \<and>
     (\<forall>f pr k. dict_get (packages_loaded s) f = Some pr \<longrightarrow> pr_instance pr = Some k \<longrightarrow> k_is_package k)"

lemma clean_unload:
  assumes "clean s" "unload_ext F s s'"
  shows "clean s'"
  unfolding clean_def
proof (intro conjI allI impI)
  show "autoload_ok (autoload s')" using assms by (simp add: clean_def unload_extD(6))
  fix f pr k
  assume pr: "dict_get (packages_loaded s') f = Some pr" "pr_instance pr = Some k"
  from unload_extD(3)[OF assms(2)] pr(1) obtain pr0
    where pr0: "dict_get (packages_loaded s) f = Some pr0" "core pr = core pr0" by (rule shrinksE)
  have "pr_instance pr0 = Some k" using core_eqs(2)[OF pr0(2)] pr(2) by simp
  with pr0(1) assms(1) show "k_is_package k" unfolding clean_def by blast
qed

locale total_unloader = unloader unload
  for unload :: "string \<Rightarrow> tracked \<Rightarrow> (tracked, bool) outcome" +
  fixes ready :: "pm \<Rightarrow> string \<Rightarrow> bool"
  assumes unload_succeeds:
      "pm_inv s \<Longrightarrow> key_order_ok s \<Longrightarrow> clean s \<Longrightarrow> loaded s d \<Longrightarrow> ready s d \<Longrightarrow>
         fst (unload d (s, tr)) = Inr True \<and> \<not> loaded (fst (snd (unload d (s, tr)))) d"
    and ready_later: "unload_ext F s s' \<Longrightarrow> loaded s' d \<Longrightarrow> ready s d \<Longrightarrow> ready s' d"
begin

lemma unload_dependents_succeeds:
  assumes "pm_inv s" "key_order_ok s" "clean s" "\<forall>d\<in>set ds. loaded s d \<longrightarrow> ready s d"
  shows "fst (unload_dependents unload ds (s, tr)) = Inr True"
  using assms
proof (induction ds arbitrary: s tr)
  case (Cons d ds)
  obtain r1 s1 tr1 where c: "(if loaded s d then unload d (s, tr) else (Inr True, (s, tr))) = (r1, (s1, tr1))"
    by (metis prod.collapse)
  have e1: "unload_ext {d} s s1"
    using c unload_contract [OF Cons.prems(1,2)] Cons.prems(1) by (auto split: if_splits)
  have r1: "r1 = Inr True" "\<not> loaded s1 d"
    using c unload_succeeds [OF Cons.prems(1-3), of d tr] Cons.prems(4) by (auto split: if_splits)
  have "\<forall>x\<in>set ds. loaded s1 x \<longrightarrow> ready s1 x"
    using Cons.prems(4) ready_later [OF e1] unload_extD(7)[OF e1] by auto
  with Cons.IH [OF unload_extD(1)[OF e1] key_order_ok_env [OF unload_extD(2)[OF e1] Cons.prems(2)]
      clean_unload [OF Cons.prems(3) e1]] c r1
  show ?case by auto
qed auto

end

text \<open>The number of table entries from the package on: a bound for the recursion.\<close>

definition unload_depth :: "pm \<Rightarrow> string \<Rightarrow> nat" where
  "unload_depth s f = length (dropWhile (\<lambda>k. k \<noteq> f) (dict_keys (packages_loaded s)))"

lemma unload_depth_bound: "unload_depth s f \<le> length (packages_loaded s)"
  unfolding unload_depth_def by (metis length_dropWhile_le length_map)

lemma unload_depth_position: "unload_depth s f = length (packages_loaded s) - position s f"
proof -
  let ?ks = "dict_keys (packages_loaded s)"
  have "length ?ks = length (takeWhile (\<lambda>k. k \<noteq> f) ?ks) + length (dropWhile (\<lambda>k. k \<noteq> f) ?ks)"
    by (metis length_append takeWhile_dropWhile_id)
  then show ?thesis by (simp add: unload_depth_def position_def)
qed

lemma position_loaded: "loaded s f \<Longrightarrow> position s f < length (packages_loaded s)"
proof -
  let ?ks = "dict_keys (packages_loaded s)"
  assume "loaded s f"
  then have "dropWhile (\<lambda>k. k \<noteq> f) ?ks \<noteq> []" by (auto simp: dict_has_def simp del: set_map)
  then have "0 < unload_depth s f" by (simp add: unload_depth_def)
  then show ?thesis by (simp add: unload_depth_position)
qed

lemma unload_depth_later:
  assumes "unload_ext F s s'" "loaded s' d"
  shows "unload_depth s' d \<le> unload_depth s d"
proof -
  obtain P where "dict_keys (packages_loaded s') = filter P (dict_keys (packages_loaded s))"
    using unload_extD(3)[OF assms(1)] by (auto simp: shrinks_def)
  with assms(2) show ?thesis
    unfolding unload_depth_def dict_has_def by (metis length_dropWhile_filter)
qed

lemma package_unload_succeeds:
  assumes "pm_inv s" "key_order_ok s" "clean s" "loaded s f" "unload_depth s f \<le> lim"
  shows "fst (package_unload lim f (s, tr)) = Inr True \<and> \<not> loaded (fst (snd (package_unload lim f (s, tr)))) f"
  using assms
proof (induction lim arbitrary: f s tr)
  case 0
  then show ?case using position_loaded [of s f] by (simp add: unload_depth_position)
next
  case (Suc lim)
  let ?ready = "\<lambda>s d. unload_depth s d \<le> lim"
  have T: "total_unloader (package_unload lim) ?ready"
    by unfold_locales (use Suc.IH unload_depth_later in \<open>blast intro: le_trans\<close>)+
  obtain r s' tr' where call: "package_unload (Suc lim) f (s, tr) = (r, (s', tr'))" by (metis prod.collapse)
  then have "r = Inr True"
  proof (cases rule: package_unload_cases)
    case absent
    with Suc.prems(4) show ?thesis by simp
  next
    case (loop pr r1 s1 tr1)
    let ?ds = "key_order s (pr_dependents pr)"
    have D: "set ?ds = dependents_of (packages_loaded s) f"
      using Suc.prems(2) loop(1) by (simp add: key_order_ok_def dependents_of_def)
    have "\<forall>d\<in>set ?ds. loaded s d \<longrightarrow> ?ready s d"
      using D position_less [OF Suc.prems(1,4)] Suc.prems(5) position_loaded
      by (fastforce simp: unload_depth_position)
    then have r1: "r1 = Inr True"
      using total_unloader.unload_dependents_succeeds [OF T Suc.prems(1-3)] loop(2) by (metis fst_conv)
    have c: "unload_ext (set ?ds) s s1 \<and> (\<forall>d\<in>set ?ds. \<not> loaded s1 d)"
      using ul.unload_dependents_contract [OF Suc.prems(1,2) loop(2)] r1 by blast
    then obtain pr1 where pr1: "dict_get (packages_loaded s1) f = Some pr1" "core pr = core pr1"
      "dependents_of (packages_loaded s1) f \<inter> set (dict_keys (packages_loaded s1)) = {}"
      using after_dependents [OF Suc.prems(1,2) loop(1)] by blast
    have us: "unload_self f pr (s1, tr1) = (r, (s', tr'))" using loop(3) r1 by simp
    have "clean s1" "pm_inv s1" using clean_unload Suc.prems(3) c unload_extD(1) by blast+
    then show ?thesis
      using unload_self_contract(3)[OF _ pr1 us] core_eqs(2)[OF pr1(2)] pr1(1)
      by (simp add: clean_def)
  qed
  with call package_unload_contract [OF Suc.prems(1,2) call] show ?case by simp
qed

interpretation tu: total_unloader "package_unload lim" "\<lambda>s d. unload_depth s d \<le> lim" for lim
  by unfold_locales (use package_unload_succeeds unload_depth_later in \<open>blast intro: le_trans\<close>)+

end
