(* ===== verification/Package_Commands.thy ===== *)
theory Package_Commands
  imports Package_Load Package_Unload
begin

text \<open>
  The command interpreter of \<^verbatim>\<open>PackageThread\<close> (\<^verbatim>\<open>run\<close>, \<^verbatim>\<open>_cmd_handler_list\<close>,
  \<^verbatim>\<open>_cmd_handler_stat\<close>) and the reader of the messenger pipe (\<^verbatim>\<open>PackageMessengerThread.run\<close>).
  A message is the list of its comma separated fields. The texts that the interpreter and the
  list and stat handlers log are returned; log lines inside the package operations are not modelled.
\<close>

section \<open>Listing and statistics\<close>

text \<open>
  What the handlers read of other modules: the live threads (\<^verbatim>\<open>threading.enumerate()\<close>; the
  identifier of a thread that is only being started is \<^verbatim>\<open>None\<close>) and the queues and the pool
  of the metric handler (\<open>None\<close>: not created).
\<close>

record thread_info =
  th_name :: string
  th_ident :: "nat option"
  th_type :: string
  th_alive :: bool

record views =
  v_threads :: "thread_info list"
  v_event_ds :: "nat option"
  v_send_queue :: "nat option"
  v_collect_queue :: "nat option"
  v_pool :: "(nat \<times> nat \<times> nat \<times> nat) option"

definition thread_line :: "thread_info \<Rightarrow> py_error + string" where
  "thread_line t =
     (case th_ident t of
        None \<Rightarrow> Inl TypeError
      | Some n \<Rightarrow>
          Inr (th_name t @ '': '' @ zero_pad 16 (digits_of 16 n) @ '' '' @
               last (py_split (CHR ''.'') (th_type t)) @ '' '' @ str_bool (th_alive t)))"

primrec thread_lines :: "thread_info list \<Rightarrow> py_error + string list" where
  "thread_lines [] = Inr []"
| "thread_lines (t # ts) =
     (case thread_line t of
        Inl e \<Rightarrow> Inl e
      | Inr l \<Rightarrow> (case thread_lines ts of Inl e \<Rightarrow> Inl e | Inr ls \<Rightarrow> Inr (l # ls)))"

definition ident_key :: "thread_info \<Rightarrow> nat" where
  "ident_key t = (case th_ident t of None \<Rightarrow> 0 | Some n \<Rightarrow> Suc n)"

definition cmd_handler_list :: "views \<Rightarrow> string \<Rightarrow> pm \<Rightarrow> py_error + string" where
  "cmd_handler_list v parameter s =
     (if parameter = ''packages'' \<or> parameter = ''pkg'' then
        Inr (''List of packages - '' @ [TAB] @ py_join [TAB] (sort (dict_keys (packages_loaded s))))
      else if parameter = ''resources'' \<or> parameter = ''res'' then
        Inr (''List of resources - '' @ [TAB] @
             py_join [TAB] (sort (dict_keys (reg_registry (resource_registry s)))))
      else if parameter = ''threads'' \<or> parameter = ''th'' then
        (case thread_lines (sort_key ident_key (v_threads v)) of
           Inl e \<Rightarrow> Inl e
         | Inr ls \<Rightarrow> Inr (''Active threads - '' @ [TAB] @ py_join [TAB] ls))
      else Inr ''Unsupported list'')"

definition size_or_na :: "nat option \<Rightarrow> string" where
  "size_or_na n = (case n of None \<Rightarrow> ''n/a'' | Some k \<Rightarrow> str_nat k)"

definition cmd_handler_stat :: "views \<Rightarrow> string list \<Rightarrow> pm \<Rightarrow> py_error + string list" where
  "cmd_handler_stat v parameters s =
     (case parameters of
        [] \<Rightarrow> Inl IndexError
      | p # ps \<Rightarrow>
     if p = ''package'' \<or> p = ''pkg'' then
       (case ps of
          [] \<Rightarrow> Inr [''package name is not specified'']
        | query_pkg # others \<Rightarrow>
            Inr ((if others \<noteq> [] then [''Only 1 package name will be taken and processed''] else []) @
                 [''packages '' @ query_pkg @ (if loaded s query_pkg then '' is loaded'' else '' is not loaded'')]))
     else if ps \<noteq> [] then Inr [''Invalid format of stat command: '' @ p]
     else if p = ''metrics'' \<or> p = ''met'' then
       Inr [''Number of metrics in - '' @ [TAB] @
            ''Waiting queue: '' @ size_or_na (v_event_ds v) @ [TAB] @
            ''Sending queue: '' @ size_or_na (v_send_queue v) @ [TAB] @
            ''Collecting queue: '' @ size_or_na (v_collect_queue v) @ [TAB] @
            ''Collecting threads: '' @ size_or_na (map_option fst (v_pool v))]
     else if p = ''collection_threads'' \<or> p = ''col'' then
       Inr [''Status of collection threads - '' @ [TAB] @
            ''Collecting: '' @ size_or_na (map_option fst (v_pool v)) @ [TAB] @
            ''Alive: '' @ size_or_na (map_option (\<lambda>x. fst (snd x)) (v_pool v)) @ [TAB] @
            ''Pool: '' @ size_or_na (map_option (\<lambda>x. fst (snd (snd x))) (v_pool v)) @ [TAB] @
            ''Capacity: '' @ size_or_na (map_option (\<lambda>x. snd (snd (snd x))) (v_pool v))]
     else if p = ''threads'' \<or> p = ''th'' then
       Inr [''Count of active threads: '' @ str_nat (length (v_threads v))]
     else Inr [''Unsupported stat''])"

section \<open>The command interpreter\<close>

text \<open>An operation whose result the interpreter ignores.\<close>

definition ran :: "(pm, 'a) outcome \<Rightarrow> (pm, string list) outcome" where
  "ran o1 = (case o1 of (Inl e, s) \<Rightarrow> (Inl e, s) | (Inr _, s) \<Rightarrow> (Inr [], s))"

definition untracked :: "(tracked, 'a) outcome \<Rightarrow> (pm, 'a) outcome" where
  "untracked o1 = (case o1 of (r, (s, _)) \<Rightarrow> (r, s))"

text \<open>The loop that pairs names and checksums.\<close>

fun pairs_of :: "string list \<Rightarrow> (string \<times> string) list" where
  "pairs_of (x # y # rest) = (x, y) # pairs_of rest"
| "pairs_of _ = []"

definition cmd_load_like :: "nat \<Rightarrow> string \<Rightarrow> string list \<Rightarrow> pm \<Rightarrow> (pm, string list) outcome" where
  "cmd_load_like lim command msg s =
     (let autoload_flag = (1 < length msg \<and> msg ! 1 = ''-r'');
          offset = (if autoload_flag then 1 else 0)
      in if length msg < 2 + offset then (Inr [''No package is specified: '' @ command], s)
         else if 3 + offset < length msg then
           (let list_arg = drop (1 + offset) msg in
            if odd (length list_arg) then
              (Inr [''Package name and checksum are not paired correctly: '' @ command], s)
            else if command = ''load'' then ran (package_load_list lim (pairs_of list_arg) autoload_flag s)
            else if command = ''update'' then ran (package_update_list lim (pairs_of list_arg) autoload_flag s)
            else (Inr [''Batch operation not supported: '' @ command], s))
         else if length msg = 2 + offset then
           (Inr [''No checksum of '' @ msg ! (1 + offset) @ '' is specified: '' @ command], s)
         else
           (let file_name = msg ! (1 + offset); checksum = Some (msg ! (2 + offset)) in
            if command = ''load'' then ran (package_load lim file_name checksum autoload_flag None [] s)
            else if command = ''reload'' then ran (package_reload lim file_name checksum autoload_flag s)
            else if command = ''update'' then ran (package_update lim file_name checksum autoload_flag s)
            else (Inl RuntimeError, s)))"

definition cmd_unload_like :: "nat \<Rightarrow> string \<Rightarrow> string list \<Rightarrow> pm \<Rightarrow> (pm, string list) outcome" where
  "cmd_unload_like lim command msg s =
     (if length msg < 2 then (Inr [''No package is specified: '' @ command], s)
      else if 2 < length msg then
        (if command = ''unload'' then ran (untracked (package_unload_list lim (drop 1 msg) (s, None)))
         else if command = ''delete'' then ran (package_delete_list lim (drop 1 msg) s)
         else (Inr [''Batch operation not supported: '' @ command], s))
      else if command = ''unload'' then ran (package_unload1 lim (msg ! 1) s)
      else if command = ''delete'' then ran (package_delete lim (msg ! 1) s)
      else (Inl RuntimeError, s))"

text \<open>
  One turn of the loop. \<^verbatim>\<open>update_all\<close> calls \<^verbatim>\<open>_package_update_list\<close> with one argument less than it
  takes, which is a \<open>TypeError\<close>.
\<close>

definition dispatch :: "nat \<Rightarrow> views \<Rightarrow> string list \<Rightarrow> pm \<Rightarrow> (pm, string list) outcome" where
  "dispatch lim v msg s =
     (case msg of
        [] \<Rightarrow> (Inl IndexError, s)
      | command # params \<Rightarrow>
     if command \<in> {''load'', ''reload'', ''update''} then cmd_load_like lim command msg s
     else if command \<in> {''unload'', ''delete''} then cmd_unload_like lim command msg s
     else if command = ''list'' then
       (if length msg \<noteq> 2 then (Inr [''Invalid format of command: '' @ command], s)
        else case cmd_handler_list v (msg ! 1) s of Inl e \<Rightarrow> (Inl e, s) | Inr l \<Rightarrow> (Inr [l], s))
     else if command = ''stat'' then
       (if length msg < 2 then (Inr [''Invalid format of command: '' @ command], s)
        else (cmd_handler_stat v params s, s))
     else if command = ''load_auto'' then ran (package_load_auto lim s)
     else if command = ''unload_all'' then
       ran (untracked (package_unload_list lim (key_order s (dict_keys (packages_loaded s))) (s, None)))
     else if command = ''update_all'' then (Inl TypeError, s)
     else if command = ''terminate'' then
       (case terminate_all lim s of
          (Inl e, s1) \<Rightarrow> (Inl e, s1)
        | (Inr True, s1) \<Rightarrow> (Inr [], s1\<lparr>pm_flag_alive := False\<rparr>)
        | (Inr False, s1) \<Rightarrow> (Inr [], s1))
     else (Inr [''Unsupported command is dropped''], s))"

text \<open>The thread on a queue of messages: it waits when the queue is empty, and an exception ends it.\<close>

datatype thread_status = Waiting | Exited | Died py_error

primrec run_loop :: "nat \<Rightarrow> (views \<times> string list) list \<Rightarrow> pm \<Rightarrow> thread_status \<times> string list \<times> pm" where
  "run_loop lim [] s = (if pm_flag_alive s then Waiting else Exited, [], s)"
| "run_loop lim (m # ms) s =
     (if \<not> pm_flag_alive s then (Exited, [], s)
      else case dispatch lim (fst m) (snd m) s of
             (Inl e, s1) \<Rightarrow> (Died e, [], s1)
           | (Inr out, s1) \<Rightarrow> (case run_loop lim ms s1 of (st, out', s2) \<Rightarrow> (st, out @ out', s2)))"

definition package_thread_run ::
  "nat \<Rightarrow> (views \<times> string list) list \<Rightarrow> pm \<Rightarrow> thread_status \<times> string list \<times> pm" where
  "package_thread_run lim ms s =
     (case package_load_auto lim s of
        (Inl e, s1) \<Rightarrow> (Died e, [], s1)
      | (Inr _, s1) \<Rightarrow> run_loop lim ms s1)"

section \<open>The messenger\<close>

text \<open>\<^verbatim>\<open>fp.readlines()\<close>: the lines keep their line feeds.\<close>

fun readlines :: "string \<Rightarrow> string list" where
  "readlines [] = []"
| "readlines (x # xs) =
     (if x = LF then [LF] # readlines xs
      else (case readlines xs of [] \<Rightarrow> [[x]] | l # ls \<Rightarrow> (x # l) # ls))"

text \<open>The lines of one opening of the pipe; the result is \<^verbatim>\<open>flag_alive\<close> and the message queue.\<close>

primrec messenger_lines :: "string list \<Rightarrow> string list list \<Rightarrow> bool \<times> string list list" where
  "messenger_lines [] q = (True, q)"
| "messenger_lines (line # rest) q =
     (let msg = py_split (CHR '','') line in
      if 0 < length msg then
        (if length msg = 1 \<and> msg ! 0 = terminate_messenger then (False, q)
         else messenger_lines rest (q @ [msg]))
      else messenger_lines rest q)"

text \<open>Successive openings of the pipe, each with what it reads until the writers close it.\<close>

primrec messenger_run :: "string list \<Rightarrow> string list list \<Rightarrow> bool \<times> string list list" where
  "messenger_run [] q = (True, q)"
| "messenger_run (content # rest) q =
     (case messenger_lines (readlines content) q of
        (False, q') \<Rightarrow> (False, q')
      | (True, q') \<Rightarrow> messenger_run rest q')"

section \<open>Every command keeps the invariant\<close>

text \<open>
  A contract for the operations that the interpreter calls: on a well-formed state they return a
  well-formed state, whatever the result.
\<close>

definition pm_good :: "pm \<Rightarrow> bool" where
  "pm_good s \<longleftrightarrow> pm_inv s \<and> key_order_ok s"

lemma pm_good_load: "pm_good s \<Longrightarrow> pm_good (snd (package_load lim f c a ext [] s))"
proof -
  assume g: "pm_good s"
  obtain r s' where c: "package_load lim f c a ext [] s = (r, s')" by (metis prod.collapse)
  have "load_ext [] s s'" using package_load_contract [OF _ _ c] g by (simp add: pm_good_def)
  from load_extD(1,2)[OF this] g have "pm_inv s'" "key_order_ok s'"
    using key_order_ok_env unfolding pm_good_def by blast+
  with c show ?thesis by (simp add: pm_good_def)
qed

lemma unload_ext_good: "unload_ext F s s' \<Longrightarrow> pm_good s \<Longrightarrow> pm_good s'"
  using key_order_ok_env unload_extD(1,2) unfolding pm_good_def by blast

lemma pm_good_unload: "pm_good (fst st) \<Longrightarrow> pm_good (fst (snd (package_unload lim f st)))"
proof -
  obtain s tr r s' tr' where e: "st = (s, tr)" "package_unload lim f (s, tr) = (r, (s', tr'))"
    by (metis prod.collapse)
  assume "pm_good (fst st)"
  with e have g: "pm_good s" by simp
  then have "unload_ext {f} s s'" using package_unload_contract [OF _ _ e(2)] by (simp add: pm_good_def)
  from unload_ext_good [OF this g] e show ?thesis by simp
qed

lemma pm_good_upd [simp]:
  "pm_good (s\<lparr>autoload := a\<rparr>) = pm_good s" "pm_good (s\<lparr>messenger_pipe := p\<rparr>) = pm_good s"
  "pm_good (s\<lparr>handler_terminated := h\<rparr>) = pm_good s" "pm_good (s\<lparr>pm_flag_alive := b\<rparr>) = pm_good s"
  by (auto simp: pm_good_def pm_inv_def key_order_ok_def)

text \<open>The loops of the batch operations, once for all single-package operations.\<close>

locale package_op =
  fixes op1 :: "'a \<Rightarrow> 's \<Rightarrow> ('s, 'b) outcome" and good :: "'s \<Rightarrow> bool"
  assumes op1_good: "good s \<Longrightarrow> good (snd (op1 x s))"
begin

lemma op1_goodD: "op1 x s = (r, s') \<Longrightarrow> good s \<Longrightarrow> good s'"
  using op1_good [of s x] by simp

end

interpretation load_op: package_op "\<lambda>(f, c, a, ext). package_load lim f c a ext []" pm_good for lim
  by unfold_locales (auto simp: pm_good_load)

interpretation unload_op: package_op "package_unload lim" "\<lambda>st. pm_good (fst st)" for lim
  by unfold_locales (rule pm_good_unload)

lemma load_each_good: "pm_good s \<Longrightarrow> pm_good (snd (load_each lim a ps failed s))"
proof (induction ps arbitrary: failed s)
  case (Cons p ps)
  have "package_load lim (fst p) (Some (snd p)) a None [] s = (r, s1) \<Longrightarrow> pm_good s1" for r s1
    using load_op.op1_goodD [of lim "(fst p, Some (snd p), a, None)"] Cons.prems by simp
  with Cons show ?case by (auto split: prod.splits sum.splits option.splits)
qed simp

lemma package_load_list_good: "pm_good s \<Longrightarrow> pm_good (snd (package_load_list lim ps a s))"
  using load_each_good [of s lim a ps "[]"] by (auto simp: package_load_list_def split: prod.splits)

lemma unload_each_good: "pm_good (fst st) \<Longrightarrow> pm_good (fst (snd (unload_each lim fs failed st)))"
proof (induction fs arbitrary: failed st)
  case (Cons f fs)
  have "package_unload lim f st = (r, st1) \<Longrightarrow> pm_good (fst st1)" for r st1
    using unload_op.op1_goodD Cons.prems by blast
  with Cons show ?case by (auto split: prod.splits sum.splits)
qed simp

lemma package_unload_list_good: "pm_good (fst st) \<Longrightarrow> pm_good (fst (snd (package_unload_list lim fs st)))"
  using unload_each_good [of st lim fs "[]"] by (auto simp: package_unload_list_def split: prod.splits sum.splits)

interpretation unload_list_op: package_op "package_unload_list lim" "\<lambda>st. pm_good (fst st)" for lim
  by unfold_locales (rule package_unload_list_good)

interpretation load_list_op: package_op "\<lambda>(ps, a). package_load_list lim ps a" pm_good for lim
  by unfold_locales (auto simp: package_load_list_good)

lemma load_list_goodD: "package_load_list lim ps a s = (r, s') \<Longrightarrow> pm_good s \<Longrightarrow> pm_good s'"
  using load_list_op.op1_goodD [of lim "(ps, a)"] by simp

lemma reload_items_good: "pm_good s \<Longrightarrow> pm_good (snd (reload_items lim keep f c items pr s))"
proof (induction items arbitrary: pr s)
  case (Cons it items)
  obtain name ext sha1 where it: "it = (name, ext, sha1)" by (cases it) auto
  define call where "call = package_load lim name
    (if name = f \<and> c \<noteq> None \<and> c \<noteq> Some sha1 then c else Some sha1) False (if keep then ext else None) [] s"
  obtain r s1 where r: "call = (r, s1)" by (metis prod.collapse)
  have g1: "pm_good s1" using pm_good_load [OF Cons.prems] r unfolding call_def by (metis snd_conv)
  show ?case
    unfolding it reload_items.simps Let_def prod.case call_def [symmetric] r
    by (auto intro: Cons.IH Cons.prems g1 split: sum.split)
qed simp

lemma unload_and_reload_good: "pm_good s \<Longrightarrow> pm_good (snd (unload_and_reload lim keep f c a s))"
proof -
  assume g: "pm_good s"
  obtain r s1 tr where u: "package_unload lim f (s, Some []) = (r, (s1, tr))" by (metis prod.collapse)
  with g have g1: "pm_good s1" using unload_op.op1_goodD [OF u] by simp
  have "reload_items lim keep f c items pr s1 = (x, s2) \<Longrightarrow> pm_good s2" for items pr x s2
    using reload_items_good [OF g1, of lim keep f c items pr] by simp
  then show ?thesis using u g1
    by (auto simp: unload_and_reload_def Let_def split: prod.splits sum.splits bool.splits option.splits)
qed

lemma package_reload_good: "pm_good s \<Longrightarrow> pm_good (snd (package_reload lim f c a s))"
  by (simp add: package_reload_def unload_and_reload_good)

lemma package_update_good: "pm_good s \<Longrightarrow> pm_good (snd (package_update lim f c a s))"
  by (simp add: package_update_def unload_and_reload_good pm_good_load)

lemma package_update_list_good: "pm_good s \<Longrightarrow> pm_good (snd (package_update_list lim ps a s))"
  using unload_list_op.op1_goodD [of lim "map fst ps" "(s, Some [])"]
  by (auto simp: package_update_list_def Let_def split: prod.splits sum.splits dest!: load_list_goodD)

lemma package_load_auto_good: "pm_good s \<Longrightarrow> pm_good (snd (package_load_auto lim s))"
  by (auto simp: package_load_auto_def split: sum.splits prod.splits dest: load_list_goodD)

lemma stash_files_good: "pm_good s \<Longrightarrow> pm_good (snd (stash_files fs flag s))"
proof (induction fs arbitrary: flag s)
  case (Cons f fs)
  have ren: "os_rename s a b = Some fs' \<Longrightarrow> pm_good (s\<lparr>pm_files := fs'\<rparr>)" for a b fs'
    using Cons.prems
    by (auto simp: os_rename_def pm_good_def pm_inv_def key_order_ok_def files_wf_def
        split: option.splits if_splits)
  have rem: "os_remove s a = Some fs' \<Longrightarrow> pm_good (s\<lparr>pm_files := fs'\<rparr>)" for a fs'
    using Cons.prems
    by (auto simp: os_remove_def pm_good_def pm_inv_def key_order_ok_def files_wf_def split: if_splits)
  show ?case using Cons ren rem by (auto simp: Let_def split: option.splits)
qed simp

lemma package_unload1_good: "pm_good s \<Longrightarrow> pm_good (snd (package_unload1 lim f s))"
  using pm_good_unload [of "(s, None)" lim f] by (auto simp: package_unload1_def split: prod.splits)

lemma package_delete_good: "pm_good s \<Longrightarrow> pm_good (snd (package_delete lim f s))"
proof -
  assume g: "pm_good s"
  obtain r s1 where u: "(if loaded s f then package_unload1 lim f s else (Inr True, s)) = (r, s1)"
    by (metis prod.collapse)
  have g1: "pm_good s1" using u g package_unload1_good [OF g, of lim f] by (auto split: if_splits)
  obtain b s2 where t: "stash_files (files_found s1 f) False s1 = (b, s2)" by (metis prod.collapse)
  have g2: "pm_good s2" using stash_files_good [OF g1, of "files_found s1 f" False] t by simp
  show ?thesis unfolding package_delete_def u using g1 g2 t
    by (auto simp: Let_def split: sum.splits prod.splits bool.splits)
qed

interpretation delete_op: package_op "package_delete lim" pm_good for lim
  by unfold_locales (rule package_delete_good)

lemma package_delete_list_good: "pm_good s \<Longrightarrow> pm_good (snd (package_delete_list lim fs s))"
proof -
  have each: "pm_good s \<Longrightarrow> pm_good (snd (delete_each lim fs failed s))" for failed
    by (induction fs arbitrary: failed s) (auto split: prod.splits sum.splits dest: delete_op.op1_goodD)
  show "pm_good s \<Longrightarrow> ?thesis"
    using each [of "[]"] by (auto simp: package_delete_list_def split: prod.splits)
qed

lemma terminate_all_good: "pm_good s \<Longrightarrow> pm_good (snd (terminate_all lim s))"
proof -
  assume g: "pm_good s"
  define s1 where "s1 = (if messenger_alive s
    then s\<lparr>messenger_pipe := messenger_pipe s @ [terminate_messenger @ [LF]]\<rparr> else s)"
  have "pm_good s1" using g by (simp add: s1_def)
  then show ?thesis
    unfolding terminate_all_def Let_def s1_def [symmetric]
    by (auto split: prod.splits sum.splits bool.splits dest: unload_list_op.op1_goodD)
qed

lemma ran_snd [simp]: "snd (ran o1) = snd o1"
  by (auto simp: ran_def split: prod.splits sum.splits)

lemma untracked_snd [simp]: "snd (untracked o1) = fst (snd o1)"
  by (auto simp: untracked_def split: prod.splits)

lemmas op_goods = pm_good_load package_unload1_good package_load_list_good package_unload_list_good
  package_reload_good package_update_good package_update_list_good package_load_auto_good
  package_delete_good package_delete_list_good

lemma cmd_load_like_good: "pm_good s \<Longrightarrow> pm_good (snd (cmd_load_like lim c msg s))"
  unfolding cmd_load_like_def Let_def by (simp add: op_goods)

lemma cmd_unload_like_good: "pm_good s \<Longrightarrow> pm_good (snd (cmd_unload_like lim c msg s))"
  unfolding cmd_unload_like_def by (simp add: op_goods)

lemma dispatch_good: "pm_good s \<Longrightarrow> pm_good (snd (dispatch lim v msg s))"
proof -
  assume g: "pm_good s"
  obtain r s1 where t: "terminate_all lim s = (r, s1)" by (metis prod.collapse)
  have "pm_good s1" using terminate_all_good [OF g, of lim] t by simp
  then show ?thesis using g t
    unfolding dispatch_def
    by (cases msg) (auto simp: op_goods cmd_load_like_good cmd_unload_like_good split: sum.splits bool.splits)
qed

lemma run_loop_good: "pm_good s \<Longrightarrow> pm_good (snd (snd (run_loop lim ms s)))"
proof (induction ms arbitrary: s)
  case (Cons m ms)
  have "dispatch lim (fst m) (snd m) s = (r, s1) \<Longrightarrow> pm_good s1" for r s1
    using dispatch_good [OF Cons.prems, of lim "fst m" "snd m"] by simp
  then show ?case using Cons by (fastforce split: prod.splits sum.splits)
qed simp

section \<open>The thread as a state machine\<close>

text \<open>
  Between two messages the rest of the system may edit the package directory (\<open>p_files\<close>), the
  start-up list, and start or stop the messenger.
\<close>

inductive pm_step :: "nat \<Rightarrow> pm \<Rightarrow> pm \<Rightarrow> bool" for lim where
  p_auto: "pm_step lim s (snd (package_load_auto lim s))"
| p_message: "pm_flag_alive s \<Longrightarrow> pm_step lim s (snd (dispatch lim v msg s))"
| p_files: "files_wf fs \<Longrightarrow> pm_step lim s (s\<lparr>pm_files := fs\<rparr>)"
| p_list: "pm_step lim s (s\<lparr>autoload := a\<rparr>)"
| p_messenger: "pm_step lim s (s\<lparr>messenger_alive := b, messenger_pipe := p\<rparr>)"

definition pm_reachable :: "nat \<Rightarrow> pm \<Rightarrow> pm \<Rightarrow> bool" where
  "pm_reachable lim env s \<longleftrightarrow> (pm_step lim)\<^sup>*\<^sup>* (PackageThread_init env) s"

inductive_cases pm_stepE: "pm_step lim s s'"

lemma pm_step_good: "pm_step lim s s' \<Longrightarrow> pm_good s \<Longrightarrow> pm_good s'"
  by (induction rule: pm_step.induct)
     (auto simp: package_load_auto_good dispatch_good, auto simp: pm_good_def pm_inv_def key_order_ok_def)

lemma pm_good_reachable:
  assumes "pm_reachable lim env s" "files_wf (pm_files env)" "key_order_ok env"
  shows "pm_good s"
proof -
  have "pm_good (PackageThread_init env)"
    using pm_inv_init assms(2,3) by (auto simp: pm_good_def key_order_ok_def PackageThread_init_def)
  with assms(1)[unfolded pm_reachable_def] show ?thesis
    by (induction rule: rtranclp_induct) (auto intro: pm_step_good)
qed

section \<open>Unloading everything\<close>

lemma unload_ext_length:
  assumes "unload_ext F s s'"
  shows "length (packages_loaded s') \<le> length (packages_loaded s)"
proof -
  obtain P where "dict_keys (packages_loaded s') = filter P (dict_keys (packages_loaded s))"
    using unload_extD(3)[OF assms] by (auto simp: shrinks_def)
  from arg_cong [OF this, of length] show ?thesis by (metis length_filter_le length_map)
qed

lemma unload_each_succeeds:
  assumes "pm_good s" "clean s" "length (packages_loaded s) \<le> lim"
  shows "\<exists>s' tr'. unload_each lim fs failed (s, tr) = (Inr failed, (s', tr')) \<and> pm_good s' \<and> clean s' \<and>
           (\<forall>x. loaded s' x \<longrightarrow> loaded s x \<and> x \<notin> set fs)"
  using assms
proof (induction fs arbitrary: s tr)
  case (Cons f fs)
  show ?case
  proof (cases "loaded s f")
    case False
    with Cons.IH [OF Cons.prems, of tr] show ?thesis by auto
  next
    case True
    obtain r s1 tr1 where u: "package_unload lim f (s, tr) = (r, (s1, tr1))" by (metis prod.collapse)
    have inv: "pm_inv s" "key_order_ok s" using Cons.prems(1) by (auto simp: pm_good_def)
    have ok: "r = Inr True" "\<not> loaded s1 f"
      using package_unload_succeeds [OF inv Cons.prems(2) True, of lim tr] u Cons.prems(3)
        unload_depth_bound [of s f] by (auto simp: order_trans)
    have e: "unload_ext {f} s s1" using package_unload_contract [OF inv u] by blast
    obtain s' tr' where "unload_each lim fs failed (s1, tr1) = (Inr failed, (s', tr'))" "pm_good s'" "clean s'"
      "\<forall>x. loaded s' x \<longrightarrow> loaded s1 x \<and> x \<notin> set fs"
      using Cons.IH [OF unload_ext_good [OF e Cons.prems(1)] clean_unload [OF Cons.prems(2) e]
        le_trans [OF unload_ext_length [OF e] Cons.prems(3)], of tr1] by blast
    with True u ok show ?thesis using unload_extD(7)[OF e] by auto
  qed
qed auto

lemma unload_list_all:
  assumes "pm_good s" "clean s" "length (packages_loaded s) \<le> lim"
  shows "\<exists>s' tr'. package_unload_list lim (key_order s (dict_keys (packages_loaded s))) (s, tr) = (Inr True, (s', tr')) \<and>
           pm_good s' \<and> packages_loaded s' = []"
proof -
  have K: "set (key_order s (dict_keys (packages_loaded s))) = set (dict_keys (packages_loaded s))"
    using assms(1) unfolding pm_good_def key_order_ok_def by blast
  obtain s' tr' where u: "unload_each lim (key_order s (dict_keys (packages_loaded s))) [] (s, tr) = (Inr [], (s', tr'))"
    and g: "pm_good s'" and l: "\<And>x. loaded s' x \<Longrightarrow> loaded s x \<and> x \<notin> set (dict_keys (packages_loaded s))"
    using unload_each_succeeds [OF assms, of "key_order s (dict_keys (packages_loaded s))" "[]" tr] K by metis
  have "\<not> loaded s' x" for x using l [of x] by (auto simp: dict_has_def)
  then have "packages_loaded s' = []" by (cases "packages_loaded s'") (auto simp: dict_has_def)
  with u g show ?thesis by (simp add: package_unload_list_def)
qed

lemma clean_pipe [simp]: "clean (s\<lparr>messenger_pipe := p\<rparr>) = clean s"
  by (simp add: clean_def)

lemma terminate_all_succeeds:
  assumes "pm_good s" "clean s" "length (packages_loaded s) \<le> lim"
  shows "\<exists>s'. terminate_all lim s = (Inr True, s') \<and> pm_good s' \<and> packages_loaded s' = [] \<and> handler_terminated s'"
proof -
  define s1 where "s1 = (if messenger_alive s
    then s\<lparr>messenger_pipe := messenger_pipe s @ [terminate_messenger @ [LF]]\<rparr> else s)"
  have "pm_good s1" "clean s1" "length (packages_loaded s1) \<le> lim" using assms by (auto simp: s1_def)
  from unload_list_all [OF this, of None] obtain s2 tr2 where
    "package_unload_list lim (key_order s1 (dict_keys (packages_loaded s1))) (s1, None) = (Inr True, (s2, tr2))"
    "pm_good s2" "packages_loaded s2 = []" by blast
  then show ?thesis unfolding terminate_all_def s1_def [symmetric] Let_def by simp
qed

section \<open>Messages\<close>

lemma readlines_line: "LF \<notin> set l \<Longrightarrow> l \<noteq> [] \<Longrightarrow> readlines l = [l]"
proof (induction l)
  case (Cons x l)
  then show ?case by (cases l) auto
qed simp

lemma readlines_append_LF: "LF \<notin> set l \<Longrightarrow> readlines (l @ LF # t) = (l @ [LF]) # readlines t"
  by (induction l) auto

lemma readlines_concat: "concat (readlines s) = s"
proof (induction s)
  case (Cons x s)
  then show ?case by (cases "readlines s") auto
qed simp

lemma messenger_line:
  assumes "parts \<noteq> []" "\<forall>x\<in>set parts. CHR '','' \<notin> set x" "parts \<noteq> [terminate_messenger]"
  shows "messenger_lines (py_join '','' parts # rest) q = messenger_lines rest (q @ [parts])"
  using assms by (auto simp: py_split_join length_Suc_conv)

lemma join_LF: "LF \<notin> set (py_join '','' parts) \<longleftrightarrow> (\<forall>x\<in>set parts. LF \<notin> set x)"
  by (induction "'',''" parts rule: py_join.induct) auto

lemma messenger_command:
  assumes "parts \<noteq> []" "\<forall>x\<in>set parts. CHR '','' \<notin> set x \<and> LF \<notin> set x" "parts \<noteq> [terminate_messenger]"
    "parts \<noteq> [[]]"
  shows "messenger_run (py_join '','' parts # rest) q = messenger_run rest (q @ [parts])"
proof -
  have "py_join '','' parts \<noteq> []" using assms(1,4)
    by (cases parts; cases "tl parts") auto
  then have "readlines (py_join '','' parts) = [py_join '','' parts]"
    using assms(2) by (intro readlines_line) (auto simp: join_LF)
  then show ?thesis using assms messenger_line [of parts "[]" q] by simp
qed

lemma pairs_of_flat: "pairs_of (concat (map (\<lambda>p. [fst p, snd p]) ps)) = ps"
  by (induction ps) auto

lemma length_flat: "length (concat (map (\<lambda>p. [fst p, snd p]) ps)) = 2 * length ps"
  by (induction ps) auto

lemma dispatch_load_batch:
  assumes "2 \<le> length ps" "fst (hd ps) \<noteq> ''-r''"
  shows "dispatch lim v (''load'' # concat (map (\<lambda>p. [fst p, snd p]) ps)) s = ran (package_load_list lim ps False s)"
proof -
  obtain p ps' where ps: "ps = p # ps'" using assms(1) by (cases ps) auto
  let ?xs = "concat (map (\<lambda>p. [fst p, snd p]) ps)"
  have "length (''load'' # ?xs) = Suc (2 * length ps)" by (simp add: length_flat)
  moreover have "(''load'' # ?xs) ! 1 \<noteq> ''-r''" using assms(2) ps by simp
  moreover have "odd (length ?xs) = False" by (simp add: length_flat)
  ultimately show ?thesis using assms(1)
    by (auto simp: dispatch_def cmd_load_like_def Let_def pairs_of_flat simp del: concat.simps list.map)
qed

end
