(* ===== verification/Package_Example.thy ===== *)
theory Package_Example
  imports Package_Commands
begin

text \<open>
  A small installation on which the properties of the package manager are exercised: a package
  directory with a base package \<^verbatim>\<open>a\<close>, a package \<^verbatim>\<open>b\<close> that needs it, and two packages \<^verbatim>\<open>x\<close>
  and \<^verbatim>\<open>y\<close> that need each other.
\<close>

definition ex_class :: "string \<Rightarrow> klass" where
  "ex_class res = \<lparr>k_new_ok = True, k_is_package = True, k_run = Register res (RObj 1) (\<lambda>ok. if ok then Return else Raise KeyError),
     k_clean_up = Return\<rparr>"

definition ex_file :: "string \<Rightarrow> deps_attr \<Rightarrow> string \<Rightarrow> pkg_file" where
  "ex_file h ds res = \<lparr>f_sha1 = h, f_module = Some \<lparr>m_dependencies = ds, m_class = Some (ex_class res)\<rparr>\<rparr>"

definition ex_files :: files where
  "ex_files = [(''/p/a.py'', ex_file ''ha'' NoDeps ''ra''), (''/p/a.pyc'', ex_file ''hac'' NoDeps ''ra2''),
     (''/p/b.py'', ex_file ''hb'' (DepsList [''a'']) ''rb''),
     (''/p/x.py'', ex_file ''hx'' (DepsList [''y'']) ''rx''), (''/p/y.py'', ex_file ''hy'' (DepsList [''x'']) ''ry'')]"

definition ex_env :: pm where
  "ex_env = \<lparr>packages_loaded = [], resource_registry = registry_init, pm_flag_alive = False,
     autoload = Some (file_of []), pm_files = ex_files, pm_cwd = ''/'', package_path = ''/p'', messenger_alive = True,
     messenger_pipe = [], handler_terminated = False, key_order = (\<lambda>ks. ks),
     os_rename_ok = (\<lambda>a b. True), os_remove_ok = (\<lambda>a. True)\<rparr>"

definition ex_start :: pm where "ex_start = PackageThread_init ex_env"

definition ex_views :: views where
  "ex_views = \<lparr>v_threads = [], v_event_ds = None, v_send_queue = None, v_collect_queue = None, v_pool = None\<rparr>"

text \<open>The state after \<^verbatim>\<open>load,b,hb\<close>.\<close>

definition ex_loaded :: pm where
  "ex_loaded = snd (package_load 3 ''b'' (Some ''hb'') False None [] ex_start)"

lemma ex_loaded_keys: "dict_keys (packages_loaded ex_loaded) = [''a'', ''b'']"
  by code_simp

lemma ex_files_wf: "files_wf ex_files"
  unfolding files_wf_def
proof (intro allI impI)
  fix p fl m
  assume f: "dict_get ex_files p = Some fl" "f_module fl = Some m"
  have "(p, fl) \<in> set ex_files" by (rule dict_get_in_set [OF f(1)])
  with f(2) show "distinct (deps_list (m_dependencies m))"
    by (auto simp: ex_files_def ex_file_def deps_list_def)
qed

lemma ex_good: "pm_good ex_start" "pm_good ex_loaded"
proof -
  show s: "pm_good ex_start"
    using pm_inv_init [of ex_env] ex_files_wf
    by (simp add: pm_good_def ex_start_def ex_env_def key_order_ok_def PackageThread_init_def)
  show "pm_good ex_loaded" unfolding ex_loaded_def by (rule pm_good_load [OF s])
qed

lemma ex_clean: "clean ex_loaded"
proof -
  have "autoload ex_loaded = Some (file_of [])" by code_simp
  then have "autoload_ok (autoload ex_loaded)" by (metis autoload_okI entries_ok_simps(1))
  moreover have "k_is_package k" if "dict_get (packages_loaded ex_loaded) f = Some pr" "pr_instance pr = Some k" for f pr k
  proof -
    have "list_all (\<lambda>p. case pr_instance (snd p) of None \<Rightarrow> True | Some k \<Rightarrow> k_is_package k) (packages_loaded ex_loaded)"
      by code_simp
    with dict_get_in_set [OF that(1)] that(2) show ?thesis by (fastforce simp: list_all_iff)
  qed
  ultimately show ?thesis unfolding clean_def by blast
qed

lemma ex_dispatch: "snd (dispatch 3 v [''load'', ''b'', ''hb''] ex_start) = ex_loaded"
  by (simp add: dispatch_def cmd_load_like_def ex_loaded_def)

lemma ex_reachable: "pm_reachable 3 ex_env ex_loaded"
proof -
  have "pm_step 3 ex_start (snd (dispatch 3 ex_views [''load'', ''b'', ''hb''] ex_start))"
    by (rule p_message) (simp add: ex_start_def PackageThread_init_def)
  then show ?thesis unfolding pm_reachable_def ex_start_def [symmetric] ex_dispatch by blast
qed

end
