(* ===== verification/Event_Heap.thy ===== *)
theory Event_Heap
  imports Liota_Prelude "HOL-Library.Multiset" "HOL-Library.Product_Lexorder"
begin

text \<open>
  The priority queue under \<^verbatim>\<open>EventsPriorityQueue\<close> (\<^verbatim>\<open>src/liota/core/metric_handler.py\<close>):
  \<^verbatim>\<open>Queue.PriorityQueue\<close> keeps a Python list and calls \<^verbatim>\<open>heapq.heappush\<close> and
  \<^verbatim>\<open>heapq.heappop\<close> on it. The algorithms of the standard library are modelled on lists as they
  work (an element sifted towards the root, a hole sifted to a leaf first). What the metric handler relies
  on is the locale \<open>priority_queue\<close>, interpreted on them.
\<close>

section \<open>The interface\<close>

locale priority_queue =
  fixes push :: "'e \<Rightarrow> 'q \<Rightarrow> 'q" and pop :: "'q \<Rightarrow> 'e \<times> 'q" and first :: "'q \<Rightarrow> 'e"
    and elems :: "'q \<Rightarrow> 'e multiset" and invar :: "'q \<Rightarrow> bool" and key :: "'e \<Rightarrow> 'k::linorder"
  assumes invar_push: "invar q \<Longrightarrow> invar (push x q)"
    and elems_push: "elems (push x q) = add_mset x (elems q)"
    and invar_pop: "invar q \<Longrightarrow> elems q \<noteq> {#} \<Longrightarrow> invar (snd (pop q))"
    and elems_pop: "invar q \<Longrightarrow> elems q \<noteq> {#} \<Longrightarrow> elems q = add_mset (fst (pop q)) (elems (snd (pop q)))"
    and first_pop: "invar q \<Longrightarrow> elems q \<noteq> {#} \<Longrightarrow> first q = fst (pop q)"
    and first_min: "invar q \<Longrightarrow> x \<in># elems q \<Longrightarrow> key (first q) \<le> key x"
begin

lemma first_in: "invar q \<Longrightarrow> elems q \<noteq> {#} \<Longrightarrow> first q \<in># elems q"
  using elems_pop [of q] first_pop [of q] by (metis union_single_eq_member)

lemma pop_min: "invar q \<Longrightarrow> x \<in># elems q \<Longrightarrow> key (fst (pop q)) \<le> key x"
  using first_min first_pop by (metis empty_iff set_mset_empty)

lemma first_push:
  assumes "invar q" "elems q \<noteq> {#}"
  shows "key (first (push x q)) = min (key x) (key (first q))"
proof (rule antisym)
  have "x \<in># elems (push x q)" "first q \<in># elems (push x q)"
    using first_in [OF assms] by (simp_all add: elems_push)
  then show "key (first (push x q)) \<le> min (key x) (key (first q))"
    using first_min [OF invar_push [OF assms(1)]] by simp
  have "first (push x q) \<in># add_mset x (elems q)" using first_in [OF invar_push [OF assms(1)]] by (simp add: elems_push)
  then show "min (key x) (key (first q)) \<le> key (first (push x q))"
    using first_min [OF assms(1)] by (auto simp: min.coboundedI1 min.coboundedI2)
qed

end

section \<open>The algorithms of heapq\<close>

definition parent :: "nat \<Rightarrow> nat" where
  "parent pos = (pos - 1) div 2"

lemma parent_less [simp]: "0 < pos \<Longrightarrow> parent pos < pos"
  by (auto simp: parent_def)

lemma parent_neq: "0 < pos \<Longrightarrow> parent pos \<noteq> pos" "0 < pos \<Longrightarrow> parent (parent pos) \<noteq> pos"
  by (auto simp: parent_def)

text \<open>\<^verbatim>\<open>_siftdown(heap, 0, pos)\<close> with the new item taken out of \<^verbatim>\<open>heap[pos]\<close>.\<close>

function siftdown :: "('a \<Rightarrow> 'a \<Rightarrow> bool) \<Rightarrow> 'a \<Rightarrow> 'a list \<Rightarrow> nat \<Rightarrow> 'a list" where
  "siftdown lt newitem heap pos =
     (if 0 < pos \<and> lt newitem (heap ! parent pos)
      then siftdown lt newitem (heap[pos := heap ! parent pos]) (parent pos)
      else heap[pos := newitem])"
  by pat_completeness auto
termination
  by (relation "measure (\<lambda>(_, _, _, pos). pos)") auto

declare siftdown.simps [simp del]

text \<open>The loop of \<^verbatim>\<open>_siftup\<close>: the smaller child moves up until the hole is at a leaf.\<close>

definition smaller_child :: "('a \<Rightarrow> 'a \<Rightarrow> bool) \<Rightarrow> 'a list \<Rightarrow> nat \<Rightarrow> nat" where
  "smaller_child lt heap pos =
     (if 2 * pos + 2 < length heap \<and> \<not> lt (heap ! (2 * pos + 1)) (heap ! (2 * pos + 2))
      then 2 * pos + 2 else 2 * pos + 1)"

function sift_hole :: "('a \<Rightarrow> 'a \<Rightarrow> bool) \<Rightarrow> 'a list \<Rightarrow> nat \<Rightarrow> 'a list \<times> nat" where
  "sift_hole lt heap pos =
     (if 2 * pos + 1 < length heap
      then let c = smaller_child lt heap pos in sift_hole lt (heap[pos := heap ! c]) c
      else (heap, pos))"
  by pat_completeness auto
termination
  by (relation "measure (\<lambda>(_, heap, pos). length heap - pos)") (auto simp: smaller_child_def)

declare sift_hole.simps [simp del]

definition siftup :: "('a \<Rightarrow> 'a \<Rightarrow> bool) \<Rightarrow> 'a list \<Rightarrow> 'a list" where
  "siftup lt heap =
     (let newitem = heap ! 0 in case sift_hole lt heap 0 of (heap', pos) \<Rightarrow> siftdown lt newitem heap' pos)"

definition heappush :: "('a \<Rightarrow> 'a \<Rightarrow> bool) \<Rightarrow> 'a \<Rightarrow> 'a list \<Rightarrow> 'a list" where
  "heappush lt item heap = siftdown lt item (heap @ [item]) (length heap)"

text \<open>\<^verbatim>\<open>heap.pop()\<close> raises \<open>IndexError\<close> on an empty list; the callers test the size first.\<close>

definition heappop :: "('a \<Rightarrow> 'a \<Rightarrow> bool) \<Rightarrow> 'a list \<Rightarrow> 'a \<times> 'a list" where
  "heappop lt heap =
     (let lastelt = last heap; heap' = butlast heap
      in if heap' \<noteq> [] then (heap' ! 0, siftup lt (heap'[0 := lastelt])) else (lastelt, []))"

section \<open>Correctness\<close>

definition key_lt :: "('a \<Rightarrow> 'k::linorder) \<Rightarrow> 'a \<Rightarrow> 'a \<Rightarrow> bool" where
  "key_lt key x y \<longleftrightarrow> key x < key y"

definition is_heap :: "('a \<Rightarrow> 'k::linorder) \<Rightarrow> 'a list \<Rightarrow> bool" where
  "is_heap key h \<longleftrightarrow> (\<forall>i. 0 < i \<longrightarrow> i < length h \<longrightarrow> key (h ! parent i) \<le> key (h ! i))"

text \<open>A heap but for the item at one position, which its children and its parent bypass.\<close>

definition hole_heap :: "('a \<Rightarrow> 'k::linorder) \<Rightarrow> 'a list \<Rightarrow> nat \<Rightarrow> bool" where
  "hole_heap key h pos \<longleftrightarrow>
     (\<forall>i. 0 < i \<longrightarrow> i < length h \<longrightarrow> i \<noteq> pos \<longrightarrow>
        (if parent i = pos then 0 < pos \<longrightarrow> key (h ! parent pos) \<le> key (h ! i)
         else key (h ! parent i) \<le> key (h ! i)))"

lemma hole_heapD:
  assumes "hole_heap key h pos" "0 < i" "i < length h" "i \<noteq> pos"
  shows "parent i \<noteq> pos \<Longrightarrow> key (h ! parent i) \<le> key (h ! i)"
    "parent i = pos \<Longrightarrow> 0 < pos \<Longrightarrow> key (h ! parent pos) \<le> key (h ! i)"
  using assms by (auto simp: hole_heap_def)

lemma length_siftdown [simp]: "length (siftdown lt x h pos) = length h"
  by (induction lt x h pos rule: siftdown.induct) (subst siftdown.simps, auto)

lemma mset_move:
  assumes "i < length h" "j < length h" "i \<noteq> j"
  shows "mset (h[i := h ! j, j := x]) = mset (h[i := x])"
proof -
  have "h[i := h ! j, j := x] = h[i := x, j := x, i := h ! j]"
    by (rule nth_equalityI) (use assms in \<open>auto simp: nth_list_update\<close>)
  then show ?thesis using mset_swap [of i "h[i := x]" j] assms by simp
qed

lemma mset_siftdown: "pos < length h \<Longrightarrow> mset (siftdown lt x h pos) = mset (h[pos := x])"
proof (induction lt x h pos rule: siftdown.induct)
  case (1 lt x h pos)
  show ?case
  proof (cases "0 < pos \<and> lt x (h ! parent pos)")
    case True
    then have "parent pos < length h" using 1(2) parent_less [of pos] by linarith
    then have "mset (siftdown lt x h pos) = mset (h[pos := h ! parent pos, parent pos := x])"
      using True 1 by (subst siftdown.simps) simp
    also have "\<dots> = mset (h[pos := x])"
      using True 1(2) \<open>parent pos < length h\<close> parent_neq [of pos] by (intro mset_move) simp_all
    finally show ?thesis .
  next
    case False
    then show ?thesis by (subst siftdown.simps) auto
  qed
qed

lemma hole_heap_up:
  assumes "hole_heap key h pos" "0 < pos" "pos < length h"
  shows "hole_heap key (h[pos := h ! parent pos]) (parent pos)"
  unfolding hole_heap_def
proof (intro allI impI)
  fix i
  let ?h = "h[pos := h ! parent pos]"
  assume i: "0 < i" "i < length ?h" "i \<noteq> parent pos"
  have pp: "parent pos < pos" using assms(2) by simp
  have up: "0 < parent pos \<Longrightarrow> key (h ! parent (parent pos)) \<le> key (h ! parent pos)"
    using hole_heapD(1)[OF assms(1), of "parent pos"] pp assms(2,3) parent_neq [of pos] by simp
  show "if parent i = parent pos then 0 < parent pos \<longrightarrow> key (?h ! parent (parent pos)) \<le> key (?h ! i)
        else key (?h ! parent i) \<le> key (?h ! i)"
  proof (cases "i = pos")
    case True
    with up pp assms(3) show ?thesis using parent_less [of "parent pos"] by (auto simp: nth_list_update)
  next
    case False
    have "key (h ! parent i) \<le> key (h ! i) \<or> parent i = pos" using hole_heapD(1)[OF assms(1) i(1) _ False] i by auto
    moreover have "parent i = pos \<Longrightarrow> key (h ! parent pos) \<le> key (h ! i)"
      using hole_heapD(2)[OF assms(1) i(1) _ False] i assms(2) by auto
    ultimately show ?thesis using False up pp parent_less [of "parent pos"] assms(3)
      by (auto simp: nth_list_update)
  qed
qed

lemma is_heap_siftdown:
  assumes "hole_heap key h pos" "pos < length h"
    "\<And>i. 0 < i \<Longrightarrow> i < length h \<Longrightarrow> parent i = pos \<Longrightarrow> key x \<le> key (h ! i)"
  shows "is_heap key (siftdown (key_lt key) x h pos)"
  using assms
proof (induction "key_lt key" x h pos rule: siftdown.induct)
  case (1 x h pos)
  show ?case
  proof (cases "0 < pos \<and> key_lt key x (h ! parent pos)")
    case True
    let ?h = "h[pos := h ! parent pos]"
    have pp: "parent pos < pos" using True by simp
    have "key x \<le> key (?h ! i)" if "0 < i" "i < length ?h" "parent i = parent pos" for i
    proof (cases "i = pos")
      case False
      with hole_heapD(1)[OF 1(2) that(1)] that pp have "key (h ! parent pos) \<le> key (h ! i)" by auto
      with True False show ?thesis by (auto simp: key_lt_def)
    qed (use True 1(3) in \<open>auto simp: key_lt_def\<close>)
    with 1(1)[OF True hole_heap_up [OF 1(2)]] True 1(3) pp show ?thesis by (subst siftdown.simps) simp
  next
    case False
    have "key (h[pos := x] ! parent i) \<le> key (h[pos := x] ! i)" if i: "0 < i" "i < length h" for i
    proof (cases "i = pos")
      case True
      with False 1(3) i show ?thesis by (auto simp: key_lt_def nth_list_update not_less)
    next
      case F: False
      with hole_heapD(1)[OF 1(2) i F] 1(4)[OF i] 1(3) show ?thesis by (auto simp: nth_list_update)
    qed
    moreover have "siftdown (key_lt key) x h pos = h[pos := x]" using False by (subst siftdown.simps) auto
    ultimately show ?thesis by (simp add: is_heap_def)
  qed
qed

lemma smaller_child_bounds:
  assumes "2 * pos + 1 < length h"
  shows "smaller_child lt h pos < length h" "parent (smaller_child lt h pos) = pos"
    "pos < smaller_child lt h pos"
  using assms by (auto simp: smaller_child_def parent_def)

lemma smaller_child_least:
  assumes "0 < i" "i < length h" "parent i = pos"
  shows "key (h ! smaller_child (key_lt key) h pos) \<le> key (h ! i)"
proof -
  have "i = 2 * pos + 1 \<or> i = 2 * pos + 2" using assms by (auto simp: parent_def)
  with assms show ?thesis by (auto simp: smaller_child_def key_lt_def)
qed

lemma hole_heap_down:
  assumes "hole_heap key h pos" "2 * pos + 1 < length h"
  defines "c \<equiv> smaller_child (key_lt key) h pos"
  shows "hole_heap key (h[pos := h ! c]) c"
  unfolding hole_heap_def
proof (intro allI impI)
  fix i
  let ?h = "h[pos := h ! c]"
  have c: "c < length h" "parent c = pos" "pos < c" using smaller_child_bounds [OF assms(2)] by (auto simp: c_def)
  assume i: "0 < i" "i < length ?h" "i \<noteq> c"
  have len: "pos < length h" using assms(2) by simp
  show "if parent i = c then 0 < c \<longrightarrow> key (?h ! parent c) \<le> key (?h ! i) else key (?h ! parent i) \<le> key (?h ! i)"
  proof (cases "i = pos")
    case True
    have "key (h ! parent pos) \<le> key (h ! c)"
      using hole_heapD(2)[OF assms(1), of c] c i True by auto
    with True i c show ?thesis using parent_less [of i] by (auto simp: nth_list_update)
  next
    case False
    have "key (h ! c) \<le> key (h ! i)" if "parent i = pos"
      using smaller_child_least [of i h pos key] that i by (simp add: c_def)
    moreover have "key (h ! parent i) \<le> key (h ! i)" if "parent i \<noteq> pos"
      using hole_heapD(1)[OF assms(1) i(1) _ False] that i by simp
    ultimately show ?thesis using False i c len by (auto simp: nth_list_update)
  qed
qed

lemma sift_hole_props:
  assumes "pos < length h" "sift_hole (key_lt key) h pos = (h', pos')" "hole_heap key h pos"
  shows "length h' = length h \<and> pos' < length h \<and> length h \<le> 2 * pos' + 1 \<and>
     mset (h'[pos' := x]) = mset (h[pos := x]) \<and> hole_heap key h' pos'"
  using assms
proof (induction "key_lt key" h pos rule: sift_hole.induct)
  case (1 h pos)
  show ?case
  proof (cases "2 * pos + 1 < length h")
    case True
    define c where "c = smaller_child (key_lt key) h pos"
    have c: "c < length h" "pos < c" using smaller_child_bounds [OF True] by (auto simp: c_def)
    have "sift_hole (key_lt key) (h[pos := h ! c]) c = (h', pos')"
      using 1(3) True by (subst (asm) sift_hole.simps) (simp add: c_def Let_def)
    moreover have "hole_heap key (h[pos := h ! c]) c" using hole_heap_down [OF 1(4) True] by (simp add: c_def)
    moreover have "mset (h[pos := h ! c, c := x]) = mset (h[pos := x])" using c 1(2) by (intro mset_move) auto
    ultimately show ?thesis using 1(1)[OF True c_def] c by simp
  next
    case False
    then have "h' = h" "pos' = pos" using 1(3) by (subst (asm) sift_hole.simps; simp)+
    with 1 False show ?thesis by simp
  qed
qed

lemma hole_heap_root: "is_heap key h \<Longrightarrow> hole_heap key (h[0 := x]) 0"
  by (auto simp: hole_heap_def is_heap_def nth_list_update)

lemma siftup_props:
  assumes "hole_heap key h 0" "h \<noteq> []"
  shows "is_heap key (siftup (key_lt key) h)" "mset (siftup (key_lt key) h) = mset h"
proof -
  obtain h' pos' where s: "sift_hole (key_lt key) h 0 = (h', pos')" by (metis prod.collapse)
  have p: "length h' = length h" "pos' < length h" "length h \<le> 2 * pos' + 1"
    "mset (h'[pos' := h ! 0]) = mset h" "hole_heap key h' pos'"
    using sift_hole_props [OF _ s assms(1), of "h ! 0"] assms(2) by simp_all
  have leaf: "parent i \<noteq> pos'" if "0 < i" "i < length h'" for i
    using that p(1,3) by (auto simp: parent_def)
  show "is_heap key (siftup (key_lt key) h)"
    unfolding siftup_def Let_def s prod.case using p leaf by (intro is_heap_siftdown) auto
  show "mset (siftup (key_lt key) h) = mset h"
    using p mset_siftdown [of pos' h' "key_lt key" "h ! 0"] by (simp add: siftup_def s)
qed

lemma is_heap_heappush: "is_heap key h \<Longrightarrow> is_heap key (heappush (key_lt key) x h)"
  unfolding heappush_def
proof (rule is_heap_siftdown)
  assume h: "is_heap key h"
  show "hole_heap key (h @ [x]) (length h)"
    unfolding hole_heap_def
  proof (intro allI impI)
    fix i
    assume i: "0 < i" "i < length (h @ [x])" "i \<noteq> length h"
    then have "i < length h" by simp
    with less_trans [OF parent_less [OF i(1)] this] have l: "i < length h" "parent i < length h" by auto
    moreover have "key (h ! parent i) \<le> key (h ! i)" using h i(1) l(1) unfolding is_heap_def by blast
    ultimately show "if parent i = length h then 0 < length h \<longrightarrow> key ((h @ [x]) ! parent (length h)) \<le> key ((h @ [x]) ! i)
      else key ((h @ [x]) ! parent i) \<le> key ((h @ [x]) ! i)" by (simp add: nth_append)
  qed
  show "0 < i \<Longrightarrow> i < length (h @ [x]) \<Longrightarrow> parent i = length h \<Longrightarrow> key x \<le> key ((h @ [x]) ! i)" for i
    using parent_less [of i] by simp
qed simp

lemma mset_heappush: "mset (heappush lt x h) = add_mset x (mset h)"
  by (simp add: heappush_def mset_siftdown)

lemma is_heap_appendD:
  assumes "is_heap key (b @ [x])"
  shows "is_heap key b"
  unfolding is_heap_def
proof (intro allI impI)
  fix i
  assume i: "0 < i" "i < length b"
  then have "parent i < length b" using parent_less [of i] by linarith
  moreover have "key ((b @ [x]) ! parent i) \<le> key ((b @ [x]) ! i)"
    using assms i unfolding is_heap_def by (metis length_append_singleton less_SucI)
  ultimately show "key (b ! parent i) \<le> key (b ! i)" using i by (simp add: nth_append)
qed

lemma heappop_props:
  assumes "is_heap key h" "h \<noteq> []"
  shows "is_heap key (snd (heappop (key_lt key) h))"
    "mset h = add_mset (fst (heappop (key_lt key) h)) (mset (snd (heappop (key_lt key) h)))"
    "fst (heappop (key_lt key) h) = h ! 0"
proof -
  obtain b x where h: "h = b @ [x]" using assms(2) by (cases h rule: rev_cases) auto
  have b: "is_heap key b" using assms(1) unfolding h by (rule is_heap_appendD)
  show "is_heap key (snd (heappop (key_lt key) h))"
    "mset h = add_mset (fst (heappop (key_lt key) h)) (mset (snd (heappop (key_lt key) h)))"
    "fst (heappop (key_lt key) h) = h ! 0"
  proof (atomize (full), cases b)
    case Nil
    then show "is_heap key (snd (heappop (key_lt key) h)) \<and>
      mset h = add_mset (fst (heappop (key_lt key) h)) (mset (snd (heappop (key_lt key) h))) \<and>
      fst (heappop (key_lt key) h) = h ! 0" by (simp add: heappop_def h is_heap_def)
  next
    case (Cons y ys)
    then have pop: "heappop (key_lt key) h = (y, siftup (key_lt key) (x # ys))" by (simp add: heappop_def h Let_def)
    have "hole_heap key (x # ys) 0" using hole_heap_root [OF b, of x] Cons by simp
    from siftup_props [OF this] show "is_heap key (snd (heappop (key_lt key) h)) \<and>
      mset h = add_mset (fst (heappop (key_lt key) h)) (mset (snd (heappop (key_lt key) h))) \<and>
      fst (heappop (key_lt key) h) = h ! 0" unfolding pop by (simp add: h Cons add_mset_commute)
  qed
qed

lemma heap_root_min: "is_heap key h \<Longrightarrow> i < length h \<Longrightarrow> key (h ! 0) \<le> key (h ! i)"
proof (induction i rule: less_induct)
  case (less i)
  show ?case
  proof (cases "i = 0")
    case False
    then have "key (h ! 0) \<le> key (h ! parent i)" "key (h ! parent i) \<le> key (h ! i)"
      using less parent_less [of i] by (auto simp: is_heap_def)
    then show ?thesis by (rule order_trans)
  qed simp
qed

text \<open>The interpretation on \<^verbatim>\<open>heapq\<close>, for every key function.\<close>

interpretation hq: priority_queue "heappush (key_lt key)" "heappop (key_lt key)" "\<lambda>h. h ! 0" mset "is_heap key" key
  for key :: "'a \<Rightarrow> 'k::linorder"
proof unfold_locales
  fix h :: "'a list" and x
  show "is_heap key h \<Longrightarrow> is_heap key (heappush (key_lt key) x h)" by (rule is_heap_heappush)
  show "mset (heappush (key_lt key) x h) = add_mset x (mset h)" by (rule mset_heappush)
  show "is_heap key h \<Longrightarrow> mset h \<noteq> {#} \<Longrightarrow> is_heap key (snd (heappop (key_lt key) h))"
    using heappop_props(1) by auto
  show "is_heap key h \<Longrightarrow> mset h \<noteq> {#} \<Longrightarrow>
      mset h = add_mset (fst (heappop (key_lt key) h)) (mset (snd (heappop (key_lt key) h)))"
    using heappop_props(2) by auto
  show "is_heap key h \<Longrightarrow> mset h \<noteq> {#} \<Longrightarrow> h ! 0 = fst (heappop (key_lt key) h)"
    using heappop_props(3)[of key h] by simp
  show "is_heap key h \<Longrightarrow> x \<in># mset h \<Longrightarrow> key (h ! 0) \<le> key x"
    using heap_root_min by (auto simp: in_set_conv_nth)
qed

end
