(* ===== verification/Py_Values.thy ===== *)
theory Py_Values
  imports Liota_Prelude Complex_Main
begin

text \<open>
  Dynamic Python values, for the code that branches on types at run time (\<^verbatim>\<open>isinstance\<close>) or
  builds nested dictionaries. \<open>PFloat\<close> carries a rational: rounding, infinities and NaN are not
  modelled. \<open>PObj\<close> is any other object, known by what \<^verbatim>\<open>str\<close> gives for it.
\<close>

datatype pyval =
    PNone
  | PBool bool
  | PInt int
  | PFloat rat
  | PStr string
  | PObj string
  | PList "pyval list"
  | PTuple "pyval list"
  | PDict "(string \<times> pyval) list"

definition is_str :: "pyval \<Rightarrow> bool" where
  "is_str v = (case v of PStr _ \<Rightarrow> True | _ \<Rightarrow> False)"

text \<open>\<^verbatim>\<open>isinstance(v, int)\<close>: \<^verbatim>\<open>bool\<close> is a subclass of \<^verbatim>\<open>int\<close>.\<close>

definition is_int :: "pyval \<Rightarrow> bool" where
  "is_int v = (case v of PInt _ \<Rightarrow> True | PBool _ \<Rightarrow> True | _ \<Rightarrow> False)"

definition is_float :: "pyval \<Rightarrow> bool" where
  "is_float v = (case v of PFloat _ \<Rightarrow> True | _ \<Rightarrow> False)"

definition number_of :: "pyval \<Rightarrow> rat" where
  "number_of v = (case v of PInt i \<Rightarrow> of_int i | PFloat r \<Rightarrow> r | PBool b \<Rightarrow> (if b then 1 else 0) | _ \<Rightarrow> 0)"

text \<open>Truth value: \<^verbatim>\<open>if v:\<close>.\<close>

definition truthy :: "pyval \<Rightarrow> bool" where
  "truthy v = (case v of PNone \<Rightarrow> False | PBool b \<Rightarrow> b | PInt i \<Rightarrow> i \<noteq> 0 | PFloat r \<Rightarrow> r \<noteq> 0 | PStr s \<Rightarrow> s \<noteq> []
     | PObj _ \<Rightarrow> True | PList xs \<Rightarrow> xs \<noteq> [] | PTuple xs \<Rightarrow> xs \<noteq> [] | PDict d \<Rightarrow> d \<noteq> [])"

section \<open>Text\<close>

definition str_int :: "int \<Rightarrow> string" where
  "str_int i = (if i < 0 then CHR ''-'' # str_nat (nat (- i)) else str_nat (nat i))"

text \<open>\<^verbatim>\<open>str(v)\<close>. How floats and containers are printed is the argument \<open>fmt\<close>.\<close>

definition py_str :: "(pyval \<Rightarrow> string) \<Rightarrow> pyval \<Rightarrow> string" where
  "py_str fmt v =
     (case v of PNone \<Rightarrow> ''None'' | PBool b \<Rightarrow> str_bool b | PInt i \<Rightarrow> str_int i | PStr s \<Rightarrow> s | PObj s \<Rightarrow> s | _ \<Rightarrow> fmt v)"

text \<open>\<^verbatim>\<open>v[i]\<close> for a constant index.\<close>

definition py_index :: "pyval \<Rightarrow> nat \<Rightarrow> py_error + pyval" where
  "py_index v i =
     (case v of
        PList xs \<Rightarrow> if i < length xs then Inr (xs ! i) else Inl IndexError
      | PTuple xs \<Rightarrow> if i < length xs then Inr (xs ! i) else Inl IndexError
      | PStr s \<Rightarrow> if i < length s then Inr (PStr [s ! i]) else Inl IndexError
      | PDict d \<Rightarrow> Inl KeyError
      | _ \<Rightarrow> Inl TypeError)"

section \<open>JSON\<close>

text \<open>\<^verbatim>\<open>json.dumps\<close> with the default separators. Strings are ASCII. Keys are strings; an object of an
  unknown class is not serialisable. \<open>fmt\<close> prints floats.\<close>

definition json_char :: "char \<Rightarrow> string" where
  "json_char c =
     (if c = CHR 0x22 then [CHR 0x5C, CHR 0x22]
      else if c = CHR 0x5C then [CHR 0x5C, CHR 0x5C]
      else if c = LF then [CHR 0x5C, CHR ''n'']
      else if c = CR then [CHR 0x5C, CHR ''r'']
      else if c = TAB then [CHR 0x5C, CHR ''t'']
      else if c = CHR 0x08 then [CHR 0x5C, CHR ''b'']
      else if c = CHR 0x0C then [CHR 0x5C, CHR ''f'']
      else if of_char c < (32::nat) then CHR 0x5C # CHR ''u'' # zero_pad 4 (digits_of 16 (of_char c))
      else [c])"

definition json_string :: "string \<Rightarrow> string" where
  "json_string s = [CHR 0x22] @ concat (map json_char s) @ [CHR 0x22]"

definition all_ok :: "(py_error + string) list \<Rightarrow> py_error + string list" where
  "all_ok xs = foldr (\<lambda>x acc. case x of Inl e \<Rightarrow> Inl e | Inr s \<Rightarrow> (case acc of Inl e \<Rightarrow> Inl e | Inr ss \<Rightarrow> Inr (s # ss))) xs (Inr [])"

fun json_dumps :: "(rat \<Rightarrow> string) \<Rightarrow> pyval \<Rightarrow> py_error + string" where
  "json_dumps fmt PNone = Inr ''null''"
| "json_dumps fmt (PBool b) = Inr (if b then ''true'' else ''false'')"
| "json_dumps fmt (PInt i) = Inr (str_int i)"
| "json_dumps fmt (PFloat r) = Inr (fmt r)"
| "json_dumps fmt (PStr s) = Inr (json_string s)"
| "json_dumps fmt (PObj s) = Inl TypeError"
| "json_dumps fmt (PList xs) =
     (case all_ok (map (json_dumps fmt) xs) of Inl e \<Rightarrow> Inl e | Inr ss \<Rightarrow> Inr (''['' @ py_join '', '' ss @ '']''))"
| "json_dumps fmt (PTuple xs) =
     (case all_ok (map (json_dumps fmt) xs) of Inl e \<Rightarrow> Inl e | Inr ss \<Rightarrow> Inr (''['' @ py_join '', '' ss @ '']''))"
| "json_dumps fmt (PDict d) =
     (case all_ok (map (\<lambda>p. case json_dumps fmt (snd p) of Inl e \<Rightarrow> Inl e | Inr s \<Rightarrow> Inr (json_string (fst p) @ '': '' @ s)) d) of
        Inl e \<Rightarrow> Inl e | Inr ss \<Rightarrow> Inr (CHR 0x7B # py_join '', '' ss @ [CHR 0x7D]))"

text \<open>Values that can be serialised: no objects of unknown classes inside.\<close>

fun json_value :: "pyval \<Rightarrow> bool" where
  "json_value (PObj s) = False"
| "json_value (PList xs) = (\<forall>x\<in>set xs. json_value x)"
| "json_value (PTuple xs) = (\<forall>x\<in>set xs. json_value x)"
| "json_value (PDict d) = (\<forall>p\<in>set d. json_value (snd p))"
| "json_value _ = True"

lemma all_ok_map:
  assumes "\<And>x. x \<in> set xs \<Longrightarrow> \<exists>s. f x = Inr s"
  shows "\<exists>ss. all_ok (map f xs) = Inr ss"
  using assms
proof (induction xs)
  case (Cons x xs)
  obtain s where "f x = Inr s" using Cons.prems [of x] by auto
  moreover obtain ss where "all_ok (map f xs) = Inr ss" using Cons.IH Cons.prems by auto
  ultimately show ?case by (simp add: all_ok_def)
qed (simp add: all_ok_def)

lemma json_dumps_ok: "json_value v \<Longrightarrow> \<exists>s. json_dumps fmt v = Inr s"
proof (induction v)
  case (PList xs)
  then have "\<exists>ss. all_ok (map (json_dumps fmt) xs) = Inr ss" by (intro all_ok_map) auto
  then show ?case by auto
next
  case (PTuple xs)
  then have "\<exists>ss. all_ok (map (json_dumps fmt) xs) = Inr ss" by (intro all_ok_map) auto
  then show ?case by auto
next
  case (PDict d)
  have "\<exists>s. json_dumps fmt (snd p) = Inr s" if "p \<in> set d" for p
    using PDict.IH [of p "snd p"] PDict.prems that by (cases p) auto
  then have "\<exists>ss. all_ok (map (\<lambda>p. case json_dumps fmt (snd p) of Inl e \<Rightarrow> Inl e
      | Inr s \<Rightarrow> Inr (json_string (fst p) @ '': '' @ s)) d) = Inr ss"
    by (intro all_ok_map) fastforce
  then show ?case by auto
qed simp_all

text \<open>What \<^verbatim>\<open>json.loads\<close> gives for a dumped value: tuples come back as lists.\<close>

fun json_norm :: "pyval \<Rightarrow> pyval" where
  "json_norm (PTuple xs) = PList (map json_norm xs)"
| "json_norm (PList xs) = PList (map json_norm xs)"
| "json_norm (PDict d) = PDict (map (\<lambda>p. (fst p, json_norm (snd p))) d)"
| "json_norm v = v"

section \<open>Equality, items, membership\<close>

text \<open>\<^verbatim>\<open>v == w\<close>: numbers are compared by value.\<close>

definition py_eq :: "pyval \<Rightarrow> pyval \<Rightarrow> bool" where
  "py_eq v w =
     (if (is_int v \<or> is_float v) \<and> (is_int w \<or> is_float w) then number_of v = number_of w else v = w)"

text \<open>\<^verbatim>\<open>v['k']\<close>.\<close>

definition py_item :: "pyval \<Rightarrow> string \<Rightarrow> py_error + pyval" where
  "py_item v k =
     (case v of
        PDict d \<Rightarrow> (case dict_get d k of None \<Rightarrow> Inl KeyError | Some x \<Rightarrow> Inr x)
      | _ \<Rightarrow> Inl TypeError)"

primrec py_path :: "pyval \<Rightarrow> string list \<Rightarrow> py_error + pyval" where
  "py_path v [] = Inr v"
| "py_path v (k # ks) = (case py_item v k of Inl e \<Rightarrow> Inl e | Inr x \<Rightarrow> py_path x ks)"

text \<open>\<^verbatim>\<open>v[k1]...[kn] = x\<close> and \<^verbatim>\<open>del v[k1]...[kn]\<close>: only the last key may be missing in the first, none in the second.\<close>

fun py_set_path :: "string list \<Rightarrow> pyval \<Rightarrow> pyval \<Rightarrow> py_error + pyval" where
  "py_set_path [] x v = Inr x"
| "py_set_path [k] x (PDict d) = Inr (PDict (dict_set k x d))"
| "py_set_path (k # ks) x (PDict d) =
     (case dict_get d k of
        None \<Rightarrow> Inl KeyError
      | Some v \<Rightarrow> bind_r (py_set_path ks x v) (\<lambda>v'. Inr (PDict (dict_set k v' d))))"
| "py_set_path (k # ks) x v = Inl TypeError"

fun py_del_path :: "string list \<Rightarrow> pyval \<Rightarrow> py_error + pyval" where
  "py_del_path [] v = Inr v"
| "py_del_path (k # ks) (PDict d) =
     (case dict_get d k of
        None \<Rightarrow> Inl KeyError
      | Some v \<Rightarrow>
          if ks = [] then Inr (PDict (dict_del k d))
          else bind_r (py_del_path ks v) (\<lambda>v'. Inr (PDict (dict_set k v' d))))"
| "py_del_path (k # ks) v = Inl TypeError"

text \<open>\<^verbatim>\<open>'k' in v\<close>: keys, elements, or substrings.\<close>

definition py_in :: "string \<Rightarrow> pyval \<Rightarrow> py_error + bool" where
  "py_in k v =
     (case v of
        PDict d \<Rightarrow> Inr (dict_has d k)
      | PList xs \<Rightarrow> Inr (PStr k \<in> set xs)
      | PTuple xs \<Rightarrow> Inr (PStr k \<in> set xs)
      | PStr s \<Rightarrow> Inr (sublist k s)
      | _ \<Rightarrow> Inl TypeError)"

end
