(* ===== verification/Registered_Metric.thy ===== *)
theory Registered_Metric
  imports Py_Values
begin

text \<open>
  Metrics and registered metrics (\<^verbatim>\<open>src/liota/entities/metrics/metric.py\<close>,
  \<^verbatim>\<open>registered_metric.py\<close>, \<^verbatim>\<open>src/liota/entities/entity.py\<close>): the checks of the
  constructors, and the operations the collection threads call. Times are milliseconds; the
  clock \<^verbatim>\<open>getUTCmillis()\<close> and the value of the sampling function are arguments.
\<close>

section \<open>Metrics\<close>

record metric =
  m_name :: string
  m_entity_id :: string
  m_entity_type :: string
  m_unit :: "string option"
  interval :: rat
  aggregation_size :: int
  sampling_args :: nat          \<comment> \<open>the number of arguments of \<^verbatim>\<open>sampling_function\<close>\<close>

text \<open>\<^verbatim>\<open>Entity.__init__\<close>.\<close>

definition Entity_init :: "pyval \<Rightarrow> string \<Rightarrow> pyval \<Rightarrow> py_error + (string \<times> string \<times> string)" where
  "Entity_init name entity_id entity_type =
     (case (name, entity_type) of
        (PStr n, PStr t) \<Rightarrow> Inr (n, entity_id, t)
      | _ \<Rightarrow> Inl TypeError)"

text \<open>\<^verbatim>\<open>Metric.__init__\<close>. A unit is \<open>PNone\<close> or the name of a \<^verbatim>\<open>pint\<close> unit object;
  \<open>get_uuid\<close> is the persistent identifier of a name, for which a name that is no string has no \<^verbatim>\<open>encode\<close>.\<close>

definition Metric_init ::
  "(string \<Rightarrow> string) \<Rightarrow> pyval \<Rightarrow> pyval \<Rightarrow> pyval \<Rightarrow> pyval \<Rightarrow> pyval \<Rightarrow> nat \<Rightarrow> py_error + metric" where
  "Metric_init get_uuid name entity_type munit minterval aggregation nargs =
     (if \<not> (case munit of PNone \<Rightarrow> True | PObj _ \<Rightarrow> True | _ \<Rightarrow> False)
         \<or> \<not> (is_int minterval \<or> is_float minterval) \<or> \<not> is_int aggregation
      then Inl TypeError
      else case name of
        PStr nm \<Rightarrow>
          (case Entity_init name (get_uuid nm) entity_type of
             Inl e \<Rightarrow> Inl e
           | Inr (n, i, t) \<Rightarrow>
               Inr \<lparr>m_name = n, m_entity_id = i, m_entity_type = t,
                    m_unit = (case munit of PObj u \<Rightarrow> Some u | _ \<Rightarrow> None), interval = number_of minterval,
                    aggregation_size = floor (number_of aggregation), sampling_args = nargs\<rparr>)
      | _ \<Rightarrow> Inl AttributeError)"

section \<open>Registered metrics\<close>

record reg_metric =
  ref_entity :: metric
  reg_entity_id :: string
  flag_alive :: bool
  next_run_time :: "rat option"
  current_aggregation_size :: int
  vals :: "pyval list"          \<comment> \<open>the queue \<^verbatim>\<open>values\<close>\<close>

definition RegisteredMetric :: "metric \<Rightarrow> string \<Rightarrow> reg_metric" where
  "RegisteredMetric m rid =
     \<lparr>ref_entity = m, reg_entity_id = rid, flag_alive = False, next_run_time = None,
      current_aggregation_size = 0, vals = []\<rparr>"

text \<open>The part of \<^verbatim>\<open>start_collecting\<close> that changes the metric; the call of the metric handler
  follows in \<open>Metric_Handler\<close>.\<close>

definition mark_started :: "int \<Rightarrow> reg_metric \<Rightarrow> reg_metric" where
  "mark_started now r =
     r\<lparr>flag_alive := True, next_run_time := Some (of_int now + interval (ref_entity r) * 1000)\<rparr>"

definition stop_collecting :: "reg_metric \<Rightarrow> reg_metric" where
  "stop_collecting r = r\<lparr>flag_alive := False\<rparr>"

definition add_collected_data :: "int \<Rightarrow> pyval \<Rightarrow> reg_metric \<Rightarrow> int \<times> reg_metric" where
  "add_collected_data now data r =
     (case data of
        PList xs \<Rightarrow> (int (length xs), r\<lparr>vals := vals r @ xs\<rparr>)
      | PTuple xs \<Rightarrow> (1, r\<lparr>vals := vals r @ [PTuple xs]\<rparr>)
      | v \<Rightarrow> (1, r\<lparr>vals := vals r @ [PTuple [PInt now, v]]\<rparr>))"

definition get_next_run_time :: "reg_metric \<Rightarrow> rat option" where
  "get_next_run_time r = next_run_time r"

definition set_next_run_time :: "reg_metric \<Rightarrow> py_error + reg_metric" where
  "set_next_run_time r =
     (case next_run_time r of
        None \<Rightarrow> Inl TypeError
      | Some t \<Rightarrow> Inr (r\<lparr>next_run_time := Some (t + interval (ref_entity r) * 1000)\<rparr>))"

definition is_ready_to_send :: "reg_metric \<Rightarrow> bool" where
  "is_ready_to_send r = (aggregation_size (ref_entity r) \<le> current_aggregation_size r)"

text \<open>\<^verbatim>\<open>collect\<close>: the sampling function is called with the argument 1 if it takes arguments. It is
  the only part that can raise.\<close>

definition collect :: "(int option \<Rightarrow> py_error + pyval) \<Rightarrow> int \<Rightarrow> reg_metric \<Rightarrow> (reg_metric, unit) outcome" where
  "collect sampling_function now r =
     (case sampling_function (if sampling_args (ref_entity r) \<noteq> 0 then Some 1 else None) of
        Inl e \<Rightarrow> (Inl e, r)
      | Inr PNone \<Rightarrow> (Inr (), r)
      | Inr data \<Rightarrow>
          (case add_collected_data now data r of
             (n, r') \<Rightarrow> (Inr (), r'\<lparr>current_aggregation_size := current_aggregation_size r' + n\<rparr>)))"

definition reset_aggregation_size :: "reg_metric \<Rightarrow> reg_metric" where
  "reset_aggregation_size r = r\<lparr>current_aggregation_size := 0\<rparr>"

text \<open>\<^verbatim>\<open>send_data\<close>: nothing to do without values, and an exception of \<^verbatim>\<open>publish\<close> is logged.\<close>

definition send_data :: "(reg_metric \<Rightarrow> (reg_metric, unit) outcome) \<Rightarrow> reg_metric \<Rightarrow> reg_metric" where
  "send_data publish r = (if length (vals r) = 0 then r else snd (publish r))"

text \<open>\<^verbatim>\<open>__cmp__\<close> against another registered metric, against \<^verbatim>\<open>None\<close> or anything else.\<close>

definition metric_cmp :: "reg_metric \<Rightarrow> reg_metric option \<Rightarrow> int" where
  "metric_cmp r other =
     (case other of
        None \<Rightarrow> -1
      | Some o1 \<Rightarrow>
          (case (next_run_time r, next_run_time o1) of
             (None, None) \<Rightarrow> 0 | (None, Some _) \<Rightarrow> -1 | (Some _, None) \<Rightarrow> 1
           | (Some a, Some b) \<Rightarrow> if a < b then -1 else if b < a then 1 else 0))"

section \<open>Properties\<close>

text \<open>What one collection stores: the samples are appended and counted.\<close>

definition samples_of :: "int \<Rightarrow> pyval \<Rightarrow> pyval list" where
  "samples_of now data =
     (case data of PNone \<Rightarrow> [] | PList xs \<Rightarrow> xs | PTuple xs \<Rightarrow> [PTuple xs] | v \<Rightarrow> [PTuple [PInt now, v]])"

lemma collect_ok:
  assumes "sf (if sampling_args (ref_entity r) \<noteq> 0 then Some 1 else None) = Inr data"
  shows "collect sf now r = (Inr (), r\<lparr>vals := vals r @ samples_of now data,
     current_aggregation_size := current_aggregation_size r + int (length (samples_of now data))\<rparr>)"
  using assms by (cases data) (simp_all add: collect_def add_collected_data_def samples_of_def)

lemma collect_frame:
  assumes "collect sf now r = (x, r')"
  shows "ref_entity r' = ref_entity r" "flag_alive r' = flag_alive r" "next_run_time r' = next_run_time r"
proof -
  have "ref_entity r' = ref_entity r \<and> flag_alive r' = flag_alive r \<and> next_run_time r' = next_run_time r"
  proof (cases "sf (if sampling_args (ref_entity r) \<noteq> 0 then Some 1 else None)")
    case (Inl e)
    then show ?thesis using assms by (auto simp: collect_def)
  next
    case (Inr data)
    from collect_ok [of sf, OF Inr, of now] assms show ?thesis by auto
  qed
  then show "ref_entity r' = ref_entity r" "flag_alive r' = flag_alive r" "next_run_time r' = next_run_time r"
    by simp_all
qed

text \<open>Repeated rounds of a collection thread on one metric keep the sampling grid: no drift.\<close>

primrec reschedule :: "nat \<Rightarrow> reg_metric \<Rightarrow> py_error + reg_metric" where
  "reschedule 0 r = Inr r"
| "reschedule (Suc n) r = (case set_next_run_time r of Inl e \<Rightarrow> Inl e | Inr r' \<Rightarrow> reschedule n r')"

lemma reschedule_grid:
  "next_run_time r = Some t \<Longrightarrow>
     reschedule n r = Inr (r\<lparr>next_run_time := Some (t + of_nat n * (interval (ref_entity r) * 1000))\<rparr>)"
proof (induction n arbitrary: r t)
  case (Suc n)
  from Suc.prems have s: "set_next_run_time r = Inr (r\<lparr>next_run_time := Some (t + interval (ref_entity r) * 1000)\<rparr>)"
    by (simp add: set_next_run_time_def)
  with Suc.IH [of "r\<lparr>next_run_time := Some (t + interval (ref_entity r) * 1000)\<rparr>"] show ?case
    by (simp add: algebra_simps)
qed simp

lemma metric_cmp_antisym: "metric_cmp a (Some b) = - metric_cmp b (Some a)"
  by (auto simp: metric_cmp_def split: option.splits)

end
