(* ===== verification/Metric_Handler.thy ===== *)
theory Metric_Handler
  imports Event_Heap Registered_Metric
begin

text \<open>
  The metric handler (\<^verbatim>\<open>src/liota/core/metric_handler.py\<close>): the queue of events, the thread that
  waits for the next event, the pool of collection threads, the sending thread. Every thread has a
  program counter; an action is what one thread does between two points where another thread can
  see the difference, and \<open>mh_do\<close> performs it. Metrics are objects in a store, because the queues
  share them and their keys change.
\<close>

section \<open>State\<close>

text \<open>An entry of the event queue or of the send queue: a metric, or a \<^verbatim>\<open>SystemExit\<close> object (by
  address, which is what Python 2 compares two of them by).\<close>

datatype event = Met nat | SysExit nat

datatype checker_pc =
    CLoop                       \<comment> \<open>at \<^verbatim>\<open>while self.flag_alive\<close>\<close>
  | CEnter                      \<comment> \<open>at \<^verbatim>\<open>while isNotReady\<close>\<close>
  | CWait nat                   \<comment> \<open>in \<^verbatim>\<open>wait(timeout)\<close>, \<^verbatim>\<open>first_element\<close> remembered\<close>
  | CWaitEmpty                  \<comment> \<open>in \<^verbatim>\<open>wait()\<close>: the queue was empty\<close>
  | CGot event                  \<comment> \<open>\<^verbatim>\<open>get_next_element_when_ready\<close> returned\<close>
  | CExit
  | CDied

datatype worker_pc =
    WIdle
  | WGot nat                    \<comment> \<open>taken from the collect queue\<close>
  | WCollecting nat
  | WCollected nat
  | WScheduled nat              \<comment> \<open>next run time set, not yet in the event queue\<close>
  | WPut nat                    \<comment> \<open>back in the event queue\<close>
  | WSend nat                   \<comment> \<open>found ready to send\<close>
  | WReset nat                  \<comment> \<open>in the send queue\<close>
  | WDied nat                   \<comment> \<open>ended by an exception while working on the metric\<close>

record worker =
  w_pc :: worker_pc
  working_obj :: "nat option"

datatype sender_pc = SLoop | SGet | SSending nat | SExit

record mh =
  mh_clock :: int
  metrics :: "(nat, reg_metric) dict"
  is_initialization_done :: bool
  event_ds :: "event list"
  event_maxsize :: nat
  unfinished_tasks :: nat
  first_element_changed :: bool     \<comment> \<open>the waiting thread has been notified\<close>
  collect_queue :: "nat list"
  send_queue :: "event list"
  checker :: checker_pc
  checker_flag_alive :: bool
  sender :: sender_pc
  sender_flag_alive :: bool
  pool :: "worker list"
  num_threads :: nat

definition mh_start :: "(nat, reg_metric) dict \<Rightarrow> int \<Rightarrow> mh" where
  "mh_start ms now =
     \<lparr>mh_clock = now, metrics = ms, is_initialization_done = False, event_ds = [], event_maxsize = 0,
      unfinished_tasks = 0, first_element_changed = False, collect_queue = [], send_queue = [],
      checker = CLoop, checker_flag_alive = False, sender = SLoop, sender_flag_alive = False,
      pool = [], num_threads = 0\<rparr>"

abbreviation metric_at :: "mh \<Rightarrow> nat \<Rightarrow> reg_metric option" where
  "metric_at s m \<equiv> dict_get (metrics s) m"

definition upd_metric :: "nat \<Rightarrow> (reg_metric \<Rightarrow> reg_metric) \<Rightarrow> mh \<Rightarrow> mh" where
  "upd_metric m f s =
     (case metric_at s m of None \<Rightarrow> s | Some r \<Rightarrow> s\<lparr>metrics := dict_set m (f r) (metrics s)\<rparr>)"

definition alive :: "mh \<Rightarrow> nat \<Rightarrow> bool" where
  "alive s m = (case metric_at s m of None \<Rightarrow> False | Some r \<Rightarrow> flag_alive r)"

section \<open>The event queue\<close>

text \<open>
  The order of \<^verbatim>\<open>RegisteredMetric.__cmp__\<close> as a key: metrics by next run time (\<^verbatim>\<open>None\<close> is below
  every number), and anything that is not a registered metric after all of them.
\<close>

definition event_key :: "(nat, reg_metric) dict \<Rightarrow> event \<Rightarrow> nat \<times> rat" where
  "event_key ms e =
     (case e of
        Met m \<Rightarrow> (case dict_get ms m of None \<Rightarrow> (0, 0) | Some r \<Rightarrow>
                   (case next_run_time r of None \<Rightarrow> (0, 0) | Some t \<Rightarrow> (1, t)))
      | SysExit a \<Rightarrow> (2, of_nat a))"

definition event_lt :: "(nat, reg_metric) dict \<Rightarrow> event \<Rightarrow> event \<Rightarrow> bool" where
  "event_lt ms = key_lt (event_key ms)"

datatype put_result = PutDone | PutRaises py_error | PutWaits

text \<open>
  \<^verbatim>\<open>put_and_notify\<close>. On a full queue it raises, waits, or waits up to the timeout (\<open>PutWaits\<close>);
  the handler's queue has no bound (\<open>event_maxsize = 0\<close>). The two heads are compared by
  \<^verbatim>\<open>!=\<close>, that is by their keys. A notification reaches the checker only while it waits.
\<close>

definition notify_changed :: "mh \<Rightarrow> mh" where
  "notify_changed s =
     (case checker s of
        CWait _ \<Rightarrow> s\<lparr>first_element_changed := True\<rparr>
      | CWaitEmpty \<Rightarrow> s\<lparr>first_element_changed := True\<rparr>
      | _ \<Rightarrow> s)"

definition put_and_notify :: "event \<Rightarrow> bool \<Rightarrow> rat option \<Rightarrow> mh \<Rightarrow> put_result \<times> mh" where
  "put_and_notify item block timeout s =
     (let full = (0 < event_maxsize s \<and> length (event_ds s) = event_maxsize s) in
      if 0 < event_maxsize s \<and> block \<and> (case timeout of None \<Rightarrow> False | Some t \<Rightarrow> t < 0) then (PutRaises ValueError, s)
      else if full \<and> \<not> block then (PutRaises QueueFull, s)
      else if full \<and> timeout = Some 0 then (PutRaises QueueFull, s)
      else if full then (PutWaits, s)
      else
        let q = heappush (event_lt (metrics s)) item (event_ds s);
            s' = s\<lparr>event_ds := q, unfinished_tasks := unfinished_tasks s + 1\<rparr>;
            changed = (case event_ds s of [] \<Rightarrow> True
                       | e # _ \<Rightarrow> event_key (metrics s) e \<noteq> event_key (metrics s) (q ! 0))
        in (PutDone, if changed then notify_changed s' else s'))"

text \<open>\<^verbatim>\<open>first_element = self._get()\<close>: the checker has its result.\<close>

definition take_first :: "mh \<Rightarrow> mh" where
  "take_first s =
     (case heappop (event_lt (metrics s)) (event_ds s) of
        (e, q) \<Rightarrow> s\<lparr>event_ds := q, checker := CGot e\<rparr>)"

definition due :: "mh \<Rightarrow> nat \<Rightarrow> bool" where
  "due s m =
     (case metric_at s m of None \<Rightarrow> True | Some r \<Rightarrow>
       (case get_next_run_time r of None \<Rightarrow> True | Some t \<Rightarrow> t - of_int (mh_clock s) \<le> 0))"

text \<open>The loop of \<^verbatim>\<open>get_next_element_when_ready\<close> up to a wait or a result.\<close>

definition get_enter :: "mh \<Rightarrow> mh" where
  "get_enter s =
     (case event_ds s of
        [] \<Rightarrow> s\<lparr>checker := CWaitEmpty, first_element_changed := False\<rparr>
      | SysExit _ # _ \<Rightarrow> take_first s
      | Met m # _ \<Rightarrow>
          if \<not> alive s m then take_first s
          else s\<lparr>checker := CWait m, first_element_changed := False\<rparr>)"

text \<open>After a wait. With a timeout the element read before the wait is examined, although the head
  may be another one by now; without one the head is read again.\<close>

definition get_wake :: "mh \<Rightarrow> mh option" where
  "get_wake s =
     (case checker s of
        CWait m \<Rightarrow> Some (if due s m \<or> \<not> alive s m then take_first s else s\<lparr>checker := CEnter\<rparr>)
      | CWaitEmpty \<Rightarrow>
          if \<not> first_element_changed s then None
          else (case event_ds s of
                  [] \<Rightarrow> Some (s\<lparr>checker := CDied\<rparr>)
                | SysExit _ # _ \<Rightarrow> Some (take_first s)
                | Met m # _ \<Rightarrow>
                    Some (if due s m \<or> \<not> alive s m then take_first s else s\<lparr>checker := CEnter\<rparr>))
      | _ \<Rightarrow> None)"

section \<open>The threads\<close>

text \<open>\<^verbatim>\<open>EventCheckerThread.run\<close>.\<close>

definition checker_step :: "mh \<Rightarrow> mh option" where
  "checker_step s =
     (if \<not> is_initialization_done s then None
      else case checker s of
        CLoop \<Rightarrow> Some (s\<lparr>checker := (if checker_flag_alive s then CEnter else CExit)\<rparr>)
      | CEnter \<Rightarrow> Some (get_enter s)
      | CGot (SysExit _) \<Rightarrow> Some (s\<lparr>checker := CExit\<rparr>)
      | CGot (Met m) \<Rightarrow>
          Some (if \<not> alive s m then s\<lparr>checker := CLoop\<rparr>
                else s\<lparr>collect_queue := collect_queue s @ [m], checker := CLoop\<rparr>)
      | CExit \<Rightarrow> None
      | CDied \<Rightarrow> None
      | _ \<Rightarrow> get_wake s)"

definition set_pc :: "nat \<Rightarrow> worker_pc \<Rightarrow> mh \<Rightarrow> mh" where
  "set_pc i pc s = s\<lparr>pool := (pool s)[i := (pool s ! i)\<lparr>w_pc := pc\<rparr>]\<rparr>"

definition set_working :: "nat \<Rightarrow> nat option \<Rightarrow> mh \<Rightarrow> mh" where
  "set_working i w s = s\<lparr>pool := (pool s)[i := (pool s ! i)\<lparr>working_obj := w\<rparr>]\<rparr>"

text \<open>\<^verbatim>\<open>CollectionThread.run\<close>; \<open>sampling\<close> is the sampling function of the metric it works on. An
  exception ends the thread, with \<^verbatim>\<open>working_obj\<close> still set.\<close>

definition worker_step :: "(int option \<Rightarrow> py_error + pyval) \<Rightarrow> nat \<Rightarrow> mh \<Rightarrow> mh option" where
  "worker_step sampling i s =
     (if length (pool s) \<le> i then None
      else case w_pc (pool s ! i) of
        WIdle \<Rightarrow>
          (case collect_queue s of
             [] \<Rightarrow> None
           | m # rest \<Rightarrow> Some (set_pc i (WGot m) (s\<lparr>collect_queue := rest\<rparr>)))
      | WGot m \<Rightarrow>
          if \<not> alive s m then Some (set_pc i WIdle s)
          else Some (set_pc i (WCollecting m) (set_working i (Some m) s))
      | WCollecting m \<Rightarrow>
          (case metric_at s m of
             None \<Rightarrow> None
           | Some r \<Rightarrow>
               (case collect sampling (mh_clock s) r of
                  (Inl e, r') \<Rightarrow> Some (set_pc i (WDied m) (s\<lparr>metrics := dict_set m r' (metrics s)\<rparr>))
                | (Inr _, r') \<Rightarrow>
                    Some (set_pc i (WCollected m) (set_working i None
                            (s\<lparr>metrics := dict_set m r' (metrics s)\<rparr>)))))
      | WCollected m \<Rightarrow>
          if \<not> alive s m then Some (set_pc i WIdle s)
          else (case metric_at s m of
             None \<Rightarrow> None
           | Some r \<Rightarrow>
               (case set_next_run_time r of
                  Inl e \<Rightarrow> Some (set_pc i (WDied m) s)
                | Inr r' \<Rightarrow> Some (set_pc i (WScheduled m) (s\<lparr>metrics := dict_set m r' (metrics s)\<rparr>))))
      | WScheduled m \<Rightarrow>
          (case put_and_notify (Met m) True None s of
             (PutDone, s') \<Rightarrow> Some (set_pc i (WPut m) s')
           | (PutRaises e, s') \<Rightarrow> Some (set_pc i (WDied m) s')
           | (PutWaits, s') \<Rightarrow> None)
      | WPut m \<Rightarrow>
          (case metric_at s m of
             None \<Rightarrow> None
           | Some r \<Rightarrow> Some (set_pc i (if is_ready_to_send r then WSend m else WIdle) s))
      | WSend m \<Rightarrow> Some (set_pc i (WReset m) (s\<lparr>send_queue := send_queue s @ [Met m]\<rparr>))
      | WReset m \<Rightarrow> Some (set_pc i WIdle (upd_metric m reset_aggregation_size s))
      | WDied m \<Rightarrow> None)"

text \<open>\<^verbatim>\<open>SendThread.run\<close>; \<open>publish\<close> is what the data center component does with the metric.\<close>

definition sender_step :: "(reg_metric \<Rightarrow> (reg_metric, unit) outcome) \<Rightarrow> mh \<Rightarrow> mh option" where
  "sender_step publish s =
     (if \<not> is_initialization_done s then None
      else case sender s of
        SLoop \<Rightarrow> Some (s\<lparr>sender := (if sender_flag_alive s then SGet else SExit)\<rparr>)
      | SGet \<Rightarrow>
          (case send_queue s of
             [] \<Rightarrow> None
           | SysExit _ # rest \<Rightarrow> Some (s\<lparr>send_queue := rest, sender := SExit\<rparr>)
           | Met m # rest \<Rightarrow>
               Some (s\<lparr>send_queue := rest, sender := (if alive s m then SSending m else SLoop)\<rparr>))
      | SSending m \<Rightarrow> Some (upd_metric m (send_data publish) (s\<lparr>sender := SLoop\<rparr>))
      | SExit \<Rightarrow> None)"

section \<open>Calls from outside\<close>

text \<open>\<^verbatim>\<open>initialize\<close>; \<open>pool_size\<close> is the configured number of collection threads.\<close>

definition initialize :: "nat \<Rightarrow> mh \<Rightarrow> mh" where
  "initialize pool_size s =
     (if is_initialization_done s then s
      else s\<lparr>is_initialization_done := True, event_ds := [], event_maxsize := 0, collect_queue := [],
             send_queue := [], checker := CLoop, checker_flag_alive := True, sender := SLoop,
             sender_flag_alive := True, num_threads := pool_size,
             pool := replicate pool_size \<lparr>w_pc = WIdle, working_obj = None\<rparr>\<rparr>)"

definition start_collecting :: "nat \<Rightarrow> nat \<Rightarrow> mh \<Rightarrow> mh" where
  "start_collecting pool_size m s =
     (let s1 = initialize pool_size s;
          s2 = upd_metric m (mark_started (mh_clock s1)) s1
      in snd (put_and_notify (Met m) True None s2))"

definition stop :: "nat \<Rightarrow> mh \<Rightarrow> mh" where
  "stop m s = upd_metric m stop_collecting s"

text \<open>\<^verbatim>\<open>terminate\<close>, with the addresses of the two \<^verbatim>\<open>SystemExit\<close> objects it creates. Before
  \<^verbatim>\<open>initialize\<close> all the globals are \<^verbatim>\<open>None\<close>.\<close>

definition terminate :: "nat \<Rightarrow> nat \<Rightarrow> mh \<Rightarrow> mh" where
  "terminate a b s =
     (if \<not> is_initialization_done s then s
      else
        let s1 = s\<lparr>checker_flag_alive := False, sender_flag_alive := False\<rparr>;
            s2 = snd (put_and_notify (SysExit a) True (Some 0) s1)
        in s2\<lparr>send_queue := send_queue s2 @ [SysExit b]\<rparr>)"

text \<open>\<^verbatim>\<open>get_stats_working\<close>: working, alive, all, capacity.\<close>

definition worker_alive :: "worker \<Rightarrow> bool" where
  "worker_alive w = (case w_pc w of WDied _ \<Rightarrow> False | _ \<Rightarrow> True)"

definition get_stats_working :: "mh \<Rightarrow> nat \<times> nat \<times> nat \<times> nat" where
  "get_stats_working s =
     (length (filter (\<lambda>w. working_obj w \<noteq> None) (pool s)), length (filter worker_alive (pool s)),
      length (pool s), num_threads s)"

section \<open>Actions\<close>

datatype action =
    ATick int
  | ANew nat metric string
  | AStart nat nat
  | AStop nat
  | AChecker
  | AWorker nat "int option \<Rightarrow> py_error + pyval"
  | ASender "reg_metric \<Rightarrow> (reg_metric, unit) outcome"
  | ATerminate nat nat

text \<open>
  Time passes (\<open>ATick\<close>), a metric is registered (\<open>ANew\<close>), client code starts or stops a metric. A
  metric is started at most once, as the comment in \<^verbatim>\<open>start_collecting\<close> asks of its callers.
\<close>

definition mh_do :: "action \<Rightarrow> mh \<Rightarrow> mh option" where
  "mh_do a s =
     (case a of
        ATick n \<Rightarrow> if n < 0 then None else Some (s\<lparr>mh_clock := mh_clock s + n\<rparr>)
      | ANew m me rid \<Rightarrow>
          if dict_has (metrics s) m then None
          else Some (s\<lparr>metrics := dict_set m (RegisteredMetric me rid) (metrics s)\<rparr>)
      | AStart n m \<Rightarrow>
          (case metric_at s m of
             None \<Rightarrow> None
           | Some r \<Rightarrow> if next_run_time r \<noteq> None then None else Some (start_collecting n m s))
      | AStop m \<Rightarrow> Some (stop m s)
      | AChecker \<Rightarrow> checker_step s
      | AWorker i sampling \<Rightarrow> worker_step sampling i s
      | ASender publish \<Rightarrow> sender_step publish s
      | ATerminate x y \<Rightarrow> Some (terminate x y s))"

primrec mh_run :: "action list \<Rightarrow> mh \<Rightarrow> mh option" where
  "mh_run [] s = Some s"
| "mh_run (a # as) s = (case mh_do a s of None \<Rightarrow> None | Some s' \<Rightarrow> mh_run as s')"

end
