(* ===== verification/Metric_Invariant.thy ===== *)
theory Metric_Invariant
  imports Metric_Handler
begin

text \<open>
  Invariants of the metric handler under every interleaving of its threads: the event queue is a
  heap, no metric is scheduled twice, no started metric gets lost (but for one whose sampling
  raised), and the checker never misses a wake-up.
\<close>

section \<open>Views of the state\<close>

definition nrt :: "mh \<Rightarrow> nat \<Rightarrow> rat option" where
  "nrt s m = (case metric_at s m of None \<Rightarrow> None | Some r \<Rightarrow> next_run_time r)"

definition met_tok :: "event \<Rightarrow> nat multiset" where
  "met_tok e = (case e of Met m \<Rightarrow> {#m#} | SysExit _ \<Rightarrow> {#})"

definition checker_tok :: "checker_pc \<Rightarrow> nat multiset" where
  "checker_tok c = (case c of CGot e \<Rightarrow> met_tok e | _ \<Rightarrow> {#})"

definition worker_tok :: "worker_pc \<Rightarrow> nat multiset" where
  "worker_tok p =
     (case p of WGot m \<Rightarrow> {#m#} | WCollecting m \<Rightarrow> {#m#} | WCollected m \<Rightarrow> {#m#} | WScheduled m \<Rightarrow> {#m#} | _ \<Rightarrow> {#})"

definition event_toks :: "event list \<Rightarrow> nat multiset" where
  "event_toks q = sum_mset (image_mset met_tok (mset q))"

definition pool_toks :: "worker list \<Rightarrow> nat multiset" where
  "pool_toks ws = sum_list (map (\<lambda>w. worker_tok (w_pc w)) ws)"

text \<open>Where the metrics in circulation are: in the event queue, the collect queue, or in the hands of a thread.\<close>

definition tokens :: "mh \<Rightarrow> nat multiset" where
  "tokens s = event_toks (event_ds s) + mset (collect_queue s) + checker_tok (checker s) + pool_toks (pool s)"

definition lost :: "mh \<Rightarrow> nat \<Rightarrow> bool" where
  "lost s m \<longleftrightarrow> (\<exists>w\<in>set (pool s). w_pc w = WDied m)"

section \<open>The invariant\<close>

definition heap_part :: "mh \<Rightarrow> bool" where
  "heap_part s \<longleftrightarrow> is_heap (event_key (metrics s)) (event_ds s) \<and> event_maxsize s = 0"

definition token_part :: "mh \<Rightarrow> bool" where
  "token_part s \<longleftrightarrow>
     (\<forall>m. count (tokens s) m \<le> 1) \<and> (\<forall>m\<in>#tokens s. nrt s m \<noteq> None) \<and>
     (\<forall>m. nrt s m \<noteq> None \<longrightarrow> alive s m \<longrightarrow> m \<in># tokens s \<or> lost s m)"

definition wait_part :: "mh \<Rightarrow> bool" where
  "wait_part s \<longleftrightarrow>
     (case checker s of
        CWait m \<Rightarrow> Met m \<in> set (event_ds s) \<and>
          (event_key (metrics s) (event_ds s ! 0) = event_key (metrics s) (Met m) \<or> first_element_changed s)
      | CWaitEmpty \<Rightarrow> event_ds s \<noteq> [] \<longleftrightarrow> first_element_changed s
      | CDied \<Rightarrow> False
      | _ \<Rightarrow> True)"

definition init_part :: "mh \<Rightarrow> bool" where
  "init_part s \<longleftrightarrow> (\<not> is_initialization_done s \<longrightarrow>
     event_ds s = [] \<and> collect_queue s = [] \<and> send_queue s = [] \<and> checker s = CLoop \<and> pool s = [])"

definition mh_inv :: "mh \<Rightarrow> bool" where
  "mh_inv s \<longleftrightarrow> heap_part s \<and> token_part s \<and> wait_part s \<and> init_part s"

lemma mh_invD:
  assumes "mh_inv s"
  shows "heap_part s" "token_part s" "wait_part s" "init_part s" "event_maxsize s = 0"
  using assms by (auto simp: mh_inv_def heap_part_def)

section \<open>Auxiliary facts\<close>

lemma event_key_nrt:
  "event_key (metrics s) e =
     (case e of Met m \<Rightarrow> (case nrt s m of None \<Rightarrow> (0, 0) | Some t \<Rightarrow> (1, t)) | SysExit a \<Rightarrow> (2, of_nat a))"
  by (auto simp: event_key_def nrt_def split: event.splits option.splits)

lemma event_key_cong: "(\<And>m. e = Met m \<Longrightarrow> nrt s' m = nrt s m) \<Longrightarrow> event_key (metrics s') e = event_key (metrics s) e"
  by (cases e) (auto simp: event_key_nrt)

lemma is_heap_cong:
  assumes "\<And>e. e \<in> set q \<Longrightarrow> k' e = k e"
  shows "is_heap k' q = is_heap k q"
proof -
  have "k' (q ! i) = k (q ! i)" "0 < i \<Longrightarrow> k' (q ! parent i) = k (q ! parent i)" if "i < length q" for i
    using assms that less_trans [OF parent_less that] by auto
  then show ?thesis unfolding is_heap_def by metis
qed

lemma event_toks_simps [simp]:
  "event_toks [] = {#}" "event_toks (e # q) = met_tok e + event_toks q"
  "event_toks (heappush lt e q) = met_tok e + event_toks q"
  by (simp_all add: event_toks_def mset_heappush)

lemma in_event_toks: "m \<in># event_toks q \<longleftrightarrow> Met m \<in> set q"
  by (induction q) (auto simp: met_tok_def split: event.splits)

lemma sum_list_map_update:
  "i < length xs \<Longrightarrow> sum_list (map f (xs[i := x])) + f (xs ! i) = sum_list (map f xs) + (f x :: 'b::comm_monoid_add)"
proof (induction xs arbitrary: i)
  case (Cons y xs)
  then show ?case by (cases i) (auto simp: ac_simps)
qed simp

lemma pool_toks_update:
  "i < length ws \<Longrightarrow> pool_toks (ws[i := w]) + worker_tok (w_pc (ws ! i)) = pool_toks ws + worker_tok (w_pc w)"
  unfolding pool_toks_def by (rule sum_list_map_update [where f = "\<lambda>w. worker_tok (w_pc w)"])

lemma worker_tok_in_pool:
  "i < length ws \<Longrightarrow> m \<in># worker_tok (w_pc (ws ! i)) \<Longrightarrow> m \<in># pool_toks ws"
  by (induction ws arbitrary: i) (auto simp: pool_toks_def nth_Cons split: nat.splits)

lemma set_pc_sel [simp]:
  "event_ds (set_pc i p s) = event_ds s" "metrics (set_pc i p s) = metrics s"
  "collect_queue (set_pc i p s) = collect_queue s" "checker (set_pc i p s) = checker s"
  "first_element_changed (set_pc i p s) = first_element_changed s"
  "event_maxsize (set_pc i p s) = event_maxsize s"
  "is_initialization_done (set_pc i p s) = is_initialization_done s"
  "send_queue (set_pc i p s) = send_queue s" "length (pool (set_pc i p s)) = length (pool s)"
  by (simp_all add: set_pc_def)

lemma set_working_sel [simp]:
  "event_ds (set_working i p s) = event_ds s" "metrics (set_working i p s) = metrics s"
  "collect_queue (set_working i p s) = collect_queue s" "checker (set_working i p s) = checker s"
  "first_element_changed (set_working i p s) = first_element_changed s"
  "event_maxsize (set_working i p s) = event_maxsize s"
  "is_initialization_done (set_working i p s) = is_initialization_done s"
  "send_queue (set_working i p s) = send_queue s" "length (pool (set_working i p s)) = length (pool s)"
  by (simp_all add: set_working_def)

text \<open>Two states with the same metrics in the sense of the scheduler.\<close>

definition same_sched :: "mh \<Rightarrow> mh \<Rightarrow> bool" where
  "same_sched s s' \<longleftrightarrow> nrt s' = nrt s \<and> (\<forall>m. alive s' m \<longrightarrow> alive s m)"

lemma same_schedI: "metrics s' = metrics s \<Longrightarrow> same_sched s s'"
  by (auto simp: same_sched_def nrt_def alive_def)

lemma same_sched_upd:
  assumes "\<And>r. metric_at s m = Some r \<Longrightarrow> next_run_time (f r) = next_run_time r \<and> (flag_alive (f r) \<longrightarrow> flag_alive r)"
  shows "same_sched s (upd_metric m f s)"
  using assms by (auto simp: same_sched_def upd_metric_def nrt_def alive_def fun_eq_iff split: option.splits)

lemma upd_metric_sel [simp]:
  "event_ds (upd_metric m f s) = event_ds s" "collect_queue (upd_metric m f s) = collect_queue s"
  "checker (upd_metric m f s) = checker s" "first_element_changed (upd_metric m f s) = first_element_changed s"
  "event_maxsize (upd_metric m f s) = event_maxsize s"
  "is_initialization_done (upd_metric m f s) = is_initialization_done s"
  "send_queue (upd_metric m f s) = send_queue s" "pool (upd_metric m f s) = pool s"
  "mh_clock (upd_metric m f s) = mh_clock s"
  by (simp_all add: upd_metric_def split: option.splits)

section \<open>Preservation, part by part\<close>

lemma heap_part_same:
  assumes "heap_part s" "\<And>m. Met m \<in> set (event_ds s) \<Longrightarrow> nrt s' m = nrt s m"
    "event_ds s' = event_ds s" "event_maxsize s' = event_maxsize s"
  shows "heap_part s'"
proof -
  have "is_heap (event_key (metrics s')) (event_ds s) = is_heap (event_key (metrics s)) (event_ds s)"
    by (rule is_heap_cong) (auto intro: event_key_cong assms(2))
  with assms show ?thesis by (simp add: heap_part_def)
qed

lemma heap_part_sched: "heap_part s \<Longrightarrow> same_sched s s' \<Longrightarrow> event_ds s' = event_ds s \<Longrightarrow>
    event_maxsize s' = event_maxsize s \<Longrightarrow> heap_part s'"
  by (rule heap_part_same) (auto simp: same_sched_def)

lemma wait_part_same:
  assumes "wait_part s" "checker s' = checker s" "event_ds s' = event_ds s"
    "first_element_changed s' = first_element_changed s"
    "\<And>m. Met m \<in> set (event_ds s) \<Longrightarrow> nrt s' m = nrt s m"
  shows "wait_part s'"
proof -
  have "event_key (metrics s') e = event_key (metrics s) e" if "e \<in> set (event_ds s)" for e
    using that by (auto intro: event_key_cong assms(5))
  moreover from this have "event_key (metrics s') (event_ds s ! 0) = event_key (metrics s) (event_ds s ! 0)"
    if "Met m \<in> set (event_ds s)" for m
    using that by (metis length_pos_if_in_set nth_mem)
  ultimately show ?thesis using assms(1-4) by (auto simp: wait_part_def split: checker_pc.splits)
qed

text \<open>A metric leaves circulation only when it is dead or its thread died.\<close>

lemma token_part_step:
  assumes "token_part s" "same_sched s s'" "tokens s' \<subseteq># tokens s" "\<And>m. lost s m \<Longrightarrow> lost s' m"
    "\<And>m. m \<in># tokens s \<Longrightarrow> m \<notin># tokens s' \<Longrightarrow> alive s' m \<Longrightarrow> lost s' m"
  shows "token_part s'"
proof -
  have "count (tokens s') m \<le> 1" for m
    using assms(1) mset_subset_eq_count [OF assms(3)] unfolding token_part_def by (meson le_trans)
  moreover have "nrt s' m \<noteq> None" if "m \<in># tokens s'" for m
    using that assms(1,2) mset_subset_eqD [OF assms(3)] unfolding token_part_def same_sched_def by auto
  moreover have "m \<in># tokens s' \<or> lost s' m" if "nrt s' m \<noteq> None" "alive s' m" for m
    using that assms unfolding token_part_def same_sched_def by metis
  ultimately show ?thesis by (simp add: token_part_def)
qed

lemma token_part_eq:
  assumes "token_part s" "tokens s' = tokens s" "metrics s' = metrics s" "pool s' = pool s"
  shows "token_part s'"
  using assms by (simp add: token_part_def nrt_def alive_def lost_def)

lemma token_part_drop:
  assumes "token_part s" "tokens s = add_mset m (tokens s')" "same_sched s s'" "\<And>x. lost s x \<Longrightarrow> lost s' x"
    "\<not> alive s' m \<or> lost s' m"
  shows "token_part s'"
proof (rule token_part_step [OF assms(1,3)])
  show "tokens s' \<subseteq># tokens s" by (simp add: assms(2))
  show "lost s x \<Longrightarrow> lost s' x" for x by (rule assms(4))
  show "x \<in># tokens s \<Longrightarrow> x \<notin># tokens s' \<Longrightarrow> alive s' x \<Longrightarrow> lost s' x" for x
    using assms(2,5) by auto
qed

lemma token_part_keep:
  assumes "token_part s" "tokens s' = tokens s" "same_sched s s'" "\<And>x. lost s x \<Longrightarrow> lost s' x"
  shows "token_part s'"
proof (rule token_part_step [OF assms(1,3)])
  show "lost s x \<Longrightarrow> lost s' x" for x by (rule assms(4))
qed (simp_all add: assms(2))

section \<open>The queue operations\<close>

lemma put_fields:
  assumes "event_maxsize s = 0" "put_and_notify e b t s = (r, s')"
  shows "r = PutDone" "event_ds s' = heappush (event_lt (metrics s)) e (event_ds s)" "metrics s' = metrics s"
    "collect_queue s' = collect_queue s" "checker s' = checker s" "pool s' = pool s"
    "event_maxsize s' = 0" "is_initialization_done s' = is_initialization_done s" "send_queue s' = send_queue s"
    "mh_clock s' = mh_clock s"
  using assms by (auto simp: put_and_notify_def notify_changed_def Let_def split: checker_pc.splits if_splits)

lemma put_heap_part:
  assumes "heap_part s" "put_and_notify e b t s = (r, s')"
  shows "heap_part s'"
  using assms put_fields [OF _ assms(2)] by (auto simp: heap_part_def event_lt_def hq.invar_push)

lemma heappush_not_Nil [simp]: "heappush lt e q \<noteq> []"
  by (metis add_mset_not_empty mset_heappush mset_zero_iff)

lemma set_heappush [simp]: "set (heappush lt e q) = insert e (set q)"
  by (metis mset_heappush set_mset_add_mset_insert set_mset_mset)

lemma put_wait_part:
  assumes "heap_part s" "wait_part s" "put_and_notify e b t s = (r, s')"
  shows "wait_part s'"
proof -
  have m0: "event_maxsize s = 0" using assms(1) by (simp add: heap_part_def)
  note f = put_fields [OF m0 assms(3)]
  let ?q = "heappush (event_lt (metrics s)) e (event_ds s)" and ?k = "event_key (metrics s)"
  have waiting: "first_element_changed s'" if "checker s = CWaitEmpty \<or> (\<exists>m. checker s = CWait m)"
    "event_ds s = [] \<or> first_element_changed s \<or> ?k (event_ds s ! 0) \<noteq> ?k (?q ! 0)"
    using that assms(3) m0
    by (cases "event_ds s") (auto simp: put_and_notify_def notify_changed_def Let_def split: checker_pc.splits if_splits)
  show ?thesis
  proof (cases "checker s")
    case (CWait m)
    have "?k (?q ! 0) = ?k (Met m) \<or> first_element_changed s'"
      using assms(2) CWait waiting unfolding wait_part_def by fastforce
    with CWait assms(2) f(2,3,5) show ?thesis by (simp add: wait_part_def)
  next
    case CWaitEmpty
    then have "first_element_changed s'" using assms(2) waiting unfolding wait_part_def by auto
    with CWaitEmpty f(2,5) show ?thesis by (simp add: wait_part_def)
  qed (use assms(2) f in \<open>auto simp: wait_part_def\<close>)
qed

lemma put_tokens:
  assumes "event_maxsize s = 0" "put_and_notify e b t s = (r, s')"
  shows "tokens s' = met_tok e + tokens s"
  using put_fields [OF assms] by (simp add: tokens_def)

lemma take_first_props:
  assumes "heap_part s" "event_ds s \<noteq> []"
  shows "heap_part (take_first s)" "checker (take_first s) = CGot (event_ds s ! 0)"
    "event_toks (event_ds s) = met_tok (event_ds s ! 0) + event_toks (event_ds (take_first s))"
    "metrics (take_first s) = metrics s" "collect_queue (take_first s) = collect_queue s"
    "pool (take_first s) = pool s" "is_initialization_done (take_first s) = is_initialization_done s"
    "send_queue (take_first s) = send_queue s"
proof -
  obtain e q where p: "heappop (event_lt (metrics s)) (event_ds s) = (e, q)" by (metis prod.collapse)
  note h = heappop_props [of "event_key (metrics s)" "event_ds s", folded event_lt_def, unfolded p fst_conv snd_conv]
  have i: "is_heap (event_key (metrics s)) (event_ds s)" using assms(1) by (simp add: heap_part_def)
  show "heap_part (take_first s)" using h(1)[OF i assms(2)] assms(1) by (simp add: take_first_def p heap_part_def)
  show "checker (take_first s) = CGot (event_ds s ! 0)" using h(3)[OF i assms(2)] by (simp add: take_first_def p)
  show "event_toks (event_ds s) = met_tok (event_ds s ! 0) + event_toks (event_ds (take_first s))"
    using h(2,3)[OF i assms(2)] by (simp add: take_first_def p event_toks_def)
qed (simp_all add: take_first_def split: prod.splits)

lemma take_first_inv:
  assumes "mh_inv s" "event_ds s \<noteq> []" "checker_tok (checker s) = {#}" "is_initialization_done s"
  shows "mh_inv (take_first s)"
proof -
  have h: "heap_part s" using assms(1) by (simp add: mh_inv_def)
  note t = take_first_props [OF h assms(2)]
  have tok: "tokens (take_first s) = tokens s" using t assms(3) by (simp add: tokens_def checker_tok_def)
  have "token_part (take_first s)" using token_part_eq [OF _ tok t(4,6)] assms(1) by (simp add: mh_inv_def)
  with t assms(4) show ?thesis by (simp add: mh_inv_def wait_part_def init_part_def)
qed

section \<open>The checker\<close>

text \<open>A change of the checker's program counter alone.\<close>

lemma checker_pc_inv:
  assumes "mh_inv s" "metrics s' = metrics s" "event_ds s' = event_ds s" "event_maxsize s' = event_maxsize s"
    "collect_queue s' = collect_queue s" "pool s' = pool s" "is_initialization_done s'"
    "checker_tok (checker s') = checker_tok (checker s)" "wait_part s'"
  shows "mh_inv s'"
proof -
  have "tokens s' = tokens s" using assms by (simp add: tokens_def)
  then have "token_part s'" using token_part_eq [OF _ _ assms(2,6)] assms(1) by (simp add: mh_inv_def)
  moreover have "heap_part s'" using assms by (simp add: mh_inv_def heap_part_def)
  ultimately show ?thesis using assms by (simp add: mh_inv_def init_part_def)
qed

lemma get_enter_inv:
  assumes "mh_inv s" "checker s = CEnter" "is_initialization_done s"
  shows "mh_inv (get_enter s)"
proof (cases "event_ds s")
  case Nil
  then show ?thesis using assms
    by (auto simp: get_enter_def checker_tok_def wait_part_def intro!: checker_pc_inv [of s])
next
  case (Cons e q)
  have t: "mh_inv (take_first s)" using take_first_inv [OF assms(1)] Cons assms(2,3) by (simp add: checker_tok_def)
  show ?thesis
  proof (cases e)
    case (Met m)
    then show ?thesis using assms Cons t
      by (auto simp: get_enter_def checker_tok_def wait_part_def intro!: checker_pc_inv [of s])
  qed (use Cons t in \<open>simp add: get_enter_def\<close>)
qed

lemma get_wake_inv:
  assumes "mh_inv s" "get_wake s = Some s'" "is_initialization_done s"
  shows "mh_inv s'"
proof -
  have w: "wait_part s" using assms(1) by (simp add: mh_inv_def)
  have pc: "mh_inv (s\<lparr>checker := CEnter\<rparr>)" if "checker_tok (checker s) = {#}"
    using assms(1,3) that by (auto simp: checker_tok_def wait_part_def intro!: checker_pc_inv [of s])
  have tf: "mh_inv (take_first s)" if "checker_tok (checker s) = {#}" "event_ds s \<noteq> []"
    using take_first_inv [OF assms(1) that(2,1) assms(3)] .
  show ?thesis
  proof (cases "checker s")
    case (CWait m)
    then have "event_ds s \<noteq> []" using w by (auto simp: wait_part_def)
    with CWait assms(2) pc tf show ?thesis by (auto simp: get_wake_def checker_tok_def split: if_splits)
  next
    case CWaitEmpty
    then have "first_element_changed s" "event_ds s \<noteq> []"
      using w assms(2) by (auto simp: wait_part_def get_wake_def split: if_splits)
    with CWaitEmpty assms(2) pc tf show ?thesis
      by (auto simp: get_wake_def checker_tok_def split: list.splits event.splits if_splits)
  qed (use assms(2) in \<open>auto simp: get_wake_def\<close>)
qed

lemma checker_step_inv:
  assumes "mh_inv s" "checker_step s = Some s'"
  shows "mh_inv s'"
proof (cases "checker s")
  case (CGot e)
  show ?thesis
  proof (cases e)
    case (Met m)
    have i: "is_initialization_done s" using assms(2) by (auto simp: checker_step_def split: if_splits)
    have s': "s' = (if \<not> alive s m then s\<lparr>checker := CLoop\<rparr>
                else s\<lparr>collect_queue := collect_queue s @ [m], checker := CLoop\<rparr>)"
      using assms(2) CGot Met i by (simp add: checker_step_def)
    then have same: "metrics s' = metrics s" "event_ds s' = event_ds s" "pool s' = pool s"
      "event_maxsize s' = event_maxsize s" "is_initialization_done s'" "checker s' = CLoop" using i by auto
    have tok: "tokens s = tokens s' \<or> (tokens s = add_mset m (tokens s') \<and> \<not> alive s m)"
      using s' CGot Met by (auto simp: tokens_def checker_tok_def met_tok_def)
    have al: "alive s' m = alive s m" using same(1) by (simp add: alive_def)
    have "token_part s" using assms(1) by (simp add: mh_inv_def)
    then have "token_part s'"
      using tok token_part_eq [OF _ _ same(1,3)] token_part_drop [OF _ _ same_schedI [OF same(1)]] same(3) al
      by (metis lost_def)
    with same assms(1) show ?thesis by (simp add: mh_inv_def heap_part_def wait_part_def init_part_def)
  next
    case (SysExit a)
    with CGot assms show ?thesis
      by (auto simp: checker_step_def checker_tok_def met_tok_def wait_part_def split: if_splits
          intro!: checker_pc_inv [of s])
  qed
next
  case CLoop
  with assms show ?thesis
    by (auto simp: checker_step_def checker_tok_def wait_part_def split: if_splits intro!: checker_pc_inv [of s])
next
  case CEnter
  with assms get_enter_inv [OF assms(1)] show ?thesis by (auto simp: checker_step_def split: if_splits)
next
  case (CWait m)
  with assms get_wake_inv [OF assms(1), of s'] show ?thesis by (simp add: checker_step_def split: if_splits)
next
  case CWaitEmpty
  with assms get_wake_inv [OF assms(1), of s'] show ?thesis by (simp add: checker_step_def split: if_splits)
qed (use assms(2) in \<open>auto simp: checker_step_def split: if_splits\<close>)

section \<open>The collection threads\<close>

lemma tokens_pool:
  assumes "i < length (pool s)" "pool s' = (pool s)[i := w]" "event_ds s' = event_ds s"
    "collect_queue s' = collect_queue s" "checker s' = checker s"
  shows "tokens s' + worker_tok (w_pc (pool s ! i)) = tokens s + worker_tok (w_pc w)"
  using pool_toks_update [OF assms(1), of w] assms(2-) by (simp add: tokens_def union_assoc)

lemma lost_pool:
  assumes "i < length (pool s)" "pool s' = (pool s)[i := w]" "\<And>m. w_pc (pool s ! i) \<noteq> WDied m"
  shows "lost s m \<Longrightarrow> lost s' m" "w_pc w = WDied m \<Longrightarrow> lost s' m"
proof -
  show "lost s' m" if l: "lost s m"
  proof -
    from l obtain j where j: "j < length (pool s)" "w_pc (pool s ! j) = WDied m"
      by (auto simp: lost_def in_set_conv_nth)
    with assms(3) have "j \<noteq> i" by auto
    with j assms(2) have "pool s' ! j = pool s ! j" "j < length (pool s')" by auto
    with j(2) show ?thesis unfolding lost_def by (metis nth_mem)
  qed
  show "w_pc w = WDied m \<Longrightarrow> lost s' m" using assms(1,2) set_update_memI by (fastforce simp: lost_def)
qed

text \<open>
  A step of one collection thread that leaves the queues alone: the metric it holds stays in its
  hands, or is dropped because it is dead or the thread dies.
\<close>

lemma worker_hold_inv:
  assumes inv: "mh_inv s" and i: "i < length (pool s)" "\<And>m. w_pc (pool s ! i) \<noteq> WDied m"
    and pool: "pool s' = (pool s)[i := w]"
    and frame: "event_ds s' = event_ds s" "collect_queue s' = collect_queue s" "checker s' = checker s"
      "first_element_changed s' = first_element_changed s" "event_maxsize s' = event_maxsize s"
      "is_initialization_done s' = is_initialization_done s"
    and sched: "same_sched s s'"
    and tok: "worker_tok (w_pc w) = worker_tok (w_pc (pool s ! i)) \<or>
      (\<exists>m. worker_tok (w_pc (pool s ! i)) = {#m#} \<and> worker_tok (w_pc w) = {#} \<and> (\<not> alive s m \<or> w_pc w = WDied m))"
  shows "mh_inv s'"
proof -
  note T = tokens_pool [OF i(1) pool frame(1-3)] and L = lost_pool [OF i(1) pool i(2)]
  have t: "token_part s" using inv by (simp add: mh_inv_def)
  have "token_part s'"
  proof (cases "worker_tok (w_pc w) = worker_tok (w_pc (pool s ! i))")
    case True
    with T have "tokens s' = tokens s" by simp
    from token_part_keep [OF t this sched L(1)] show ?thesis .
  next
    case False
    with tok obtain m where m: "worker_tok (w_pc (pool s ! i)) = {#m#}" "worker_tok (w_pc w) = {#}"
      "\<not> alive s m \<or> w_pc w = WDied m" by blast
    have e: "tokens s = add_mset m (tokens s')" using T m(1,2) by simp
    have d: "\<not> alive s' m \<or> lost s' m" using m(3) sched L(2)[of m] by (auto simp: same_sched_def)
    show ?thesis using L(1) by (rule token_part_drop [OF t e sched _ d])
  qed
  moreover have "heap_part s'" by (rule heap_part_sched [OF mh_invD(1)[OF inv] sched frame(1,5)])
  moreover have "wait_part s'"
    by (rule wait_part_same [OF mh_invD(3)[OF inv] frame(3,1,4)]) (use sched in \<open>simp add: same_sched_def\<close>)
  moreover have "is_initialization_done s" using inv i(1) by (auto simp: mh_inv_def init_part_def)
  ultimately show ?thesis using frame by (simp add: mh_inv_def init_part_def)
qed

lemma held_not_queued:
  assumes "token_part s" "i < length (pool s)" "m \<in># worker_tok (w_pc (pool s ! i))"
  shows "Met m \<notin> set (event_ds s)" "nrt s m \<noteq> None"
proof -
  have p: "m \<in># pool_toks (pool s)" by (rule worker_tok_in_pool [OF assms(2,3)])
  have "m \<notin># event_toks (event_ds s)"
  proof
    assume "m \<in># event_toks (event_ds s)"
    with p have "2 \<le> count (tokens s) m"
      by (simp add: tokens_def count_greater_zero_iff [symmetric] del: count_greater_zero_iff)
    with assms(1) show False by (metis token_part_def not_less_eq_eq numeral_2_eq_2 One_nat_def)
  qed
  then show "Met m \<notin> set (event_ds s)" by (simp add: in_event_toks)
  have "m \<in># tokens s" using p by (simp add: tokens_def)
  with assms(1) show "nrt s m \<noteq> None" by (simp add: token_part_def)
qed

text \<open>A new run time for a metric in a thread's hands.\<close>

lemma worker_schedule_inv:
  assumes inv: "mh_inv s" and i: "i < length (pool s)" "w_pc (pool s ! i) = WCollected m"
    and r: "metric_at s m = Some r" "set_next_run_time r = Inr r'"
  shows "mh_inv (set_pc i (WScheduled m) (s\<lparr>metrics := dict_set m r' (metrics s)\<rparr>))" (is "mh_inv ?s'")
proof -
  have t: "token_part s" using inv by (simp add: mh_inv_def)
  have nq: "Met m \<notin> set (event_ds s)" using held_not_queued(1)[OF t i(1)] i(2) by (simp add: worker_tok_def)
  obtain tt where r': "r' = r\<lparr>next_run_time := Some tt\<rparr>" using r(2) by (auto simp: set_next_run_time_def split: option.splits)
  have nrt: "nrt ?s' x = (if x = m then Some tt else nrt s x)" for x by (simp add: nrt_def r')
  have al: "alive ?s' x = alive s x" for x using r(1) by (simp add: alive_def r')
  have pool: "pool ?s' = (pool s)[i := (pool s ! i)\<lparr>w_pc := WScheduled m\<rparr>]" by (simp add: set_pc_def)
  have tok: "tokens ?s' = tokens s"
    using tokens_pool [OF i(1) pool] i(2) by (simp add: worker_tok_def)
  have lost: "lost s x \<Longrightarrow> lost ?s' x" for x using lost_pool(1)[OF i(1) pool] i(2) by simp
  have "m \<in># tokens s" using worker_tok_in_pool [OF i(1), of m] i(2) by (simp add: worker_tok_def tokens_def)
  then have m: "m \<in># tokens ?s'" by (simp add: tok)
  have "token_part ?s'" unfolding token_part_def
  proof (intro conjI allI ballI impI)
    show "count (tokens ?s') x \<le> 1" for x using t by (simp add: tok token_part_def)
    show "x \<in># tokens ?s' \<Longrightarrow> nrt ?s' x \<noteq> None" for x using t by (simp add: tok nrt token_part_def)
    show "nrt ?s' x \<noteq> None \<Longrightarrow> alive ?s' x \<Longrightarrow> x \<in># tokens ?s' \<or> lost ?s' x" for x
      using t lost [of x] m by (cases "x = m") (auto simp: tok nrt al token_part_def)
  qed
  moreover have "heap_part ?s'" by (rule heap_part_same [OF mh_invD(1)[OF inv]]) (use nq nrt in auto)
  moreover have "wait_part ?s'" by (rule wait_part_same [OF mh_invD(3)[OF inv]]) (use nq nrt in auto)
  moreover have "is_initialization_done s" using inv i(1) by (auto simp: mh_inv_def init_part_def)
  ultimately show ?thesis by (simp add: mh_inv_def init_part_def)
qed

lemma worker_put_inv:
  assumes inv: "mh_inv s" and i: "i < length (pool s)" "w_pc (pool s ! i) = WScheduled m"
    and put: "put_and_notify (Met m) True None s = (res, s1)"
  shows "res = PutDone \<and> mh_inv (set_pc i (WPut m) s1)"
proof -
  have h: "heap_part s" "wait_part s" "token_part s" "event_maxsize s = 0" using inv by (auto simp: mh_inv_def heap_part_def)
  note f = put_fields [OF h(4) put]
  let ?s' = "set_pc i (WPut m) s1"
  have "tokens ?s' + {#m#} = tokens s1" using tokens_pool [of i s1 ?s'] i f(6)
    by (simp add: set_pc_def worker_tok_def)
  then have tok: "tokens ?s' = tokens s" using put_tokens [OF h(4) put] by (simp add: met_tok_def)
  have lost: "lost s x \<Longrightarrow> lost ?s' x" for x
    using lost_pool(1)[of i s ?s'] i f(6) by (simp add: set_pc_def)
  have "same_sched s ?s'" using f(3) by (intro same_schedI) simp
  from token_part_keep [OF h(3) tok this lost] have "token_part ?s'" .
  moreover have "heap_part ?s'" using put_heap_part [OF h(1) put] by (simp add: heap_part_def)
  moreover have "wait_part ?s'"
    by (rule wait_part_same [OF put_wait_part [OF h(1,2) put]]) (simp_all add: nrt_def)
  moreover have "is_initialization_done s" using inv i(1) by (auto simp: mh_inv_def init_part_def)
  ultimately show ?thesis using f(1,8) by (simp add: mh_inv_def init_part_def)
qed

lemma same_sched_collect:
  assumes "metric_at s m = Some r" "collect sampling now r = (x, r')"
  shows "same_sched s (s\<lparr>metrics := dict_set m r' (metrics s)\<rparr>)"
  using assms(1) collect_frame [OF assms(2)] by (auto simp: same_sched_def nrt_def alive_def fun_eq_iff)

lemma same_sched_metrics: "metrics s2 = metrics s1 \<Longrightarrow> same_sched s s1 \<Longrightarrow> same_sched s s2"
  by (simp add: same_sched_def nrt_def [abs_def] alive_def)

text \<open>The form in which the steps use it: the thread moves to \<open>p\<close>, after \<^verbatim>\<open>working_obj\<close> was set or not.\<close>

lemma worker_move_inv:
  assumes inv: "mh_inv s" and i: "i < length (pool s)" "\<And>m. w_pc (pool s ! i) \<noteq> WDied m"
    and s': "s' = set_pc i p s1 \<or> s' = set_pc i p (set_working i wo s1)"
    and frame: "pool s1 = pool s" "event_ds s1 = event_ds s" "collect_queue s1 = collect_queue s"
      "checker s1 = checker s" "first_element_changed s1 = first_element_changed s"
      "event_maxsize s1 = event_maxsize s" "is_initialization_done s1 = is_initialization_done s"
    and sched: "same_sched s s1"
    and tok: "worker_tok p = worker_tok (w_pc (pool s ! i)) \<or>
      (\<exists>m. worker_tok (w_pc (pool s ! i)) = {#m#} \<and> worker_tok p = {#} \<and> (\<not> alive s m \<or> p = WDied m))"
  shows "mh_inv s'"
proof -
  have m: "metrics s' = metrics s1" using s' by auto
  from s' obtain w where w: "pool s' = (pool s)[i := w]" and p: "w_pc w = p"
    using i(1) frame(1) by (auto simp: set_pc_def set_working_def)
  have f: "event_ds s' = event_ds s" "collect_queue s' = collect_queue s" "checker s' = checker s"
      "first_element_changed s' = first_element_changed s" "event_maxsize s' = event_maxsize s"
      "is_initialization_done s' = is_initialization_done s" using s' frame by auto
  show ?thesis by (rule worker_hold_inv [OF inv i w f same_sched_metrics [OF m sched] tok [folded p]])
qed

lemma worker_step_inv:
  assumes inv: "mh_inv s" and step: "worker_step sampling i s = Some s'"
  shows "mh_inv s'"
proof -
  have i: "i < length (pool s)" using step by (auto simp: worker_step_def split: if_splits)
  note move = worker_move_inv [OF inv i]
  show ?thesis
  proof (cases "w_pc (pool s ! i)")
    case WIdle
    then obtain m rest where q: "collect_queue s = m # rest" "s' = set_pc i (WGot m) (s\<lparr>collect_queue := rest\<rparr>)"
      using step i by (auto simp: worker_step_def split: list.splits)
    have "pool_toks (pool s') = add_mset m (pool_toks (pool s))"
      using pool_toks_update [OF i, of "(pool s ! i)\<lparr>w_pc := WGot m\<rparr>"] WIdle q(2)
      by (simp add: set_pc_def worker_tok_def)
    then have tok: "tokens s' = tokens s" using q by (simp add: tokens_def)
    have lost: "lost s x \<Longrightarrow> lost s' x" for x
      using lost_pool(1)[of i s s' "(pool s ! i)\<lparr>w_pc := WGot m\<rparr>"] i WIdle q(2) by (simp add: set_pc_def)
    have m: "metrics s' = metrics s" using q(2) by simp
    have "token_part s'" by (rule token_part_keep [OF mh_invD(2)[OF inv] tok same_schedI [OF m] lost])
    moreover have "heap_part s'" using mh_invD(1)[OF inv] q(2) by (simp add: heap_part_def)
    moreover have "wait_part s'"
      by (rule wait_part_same [OF mh_invD(3)[OF inv]]) (simp_all add: q(2) nrt_def)
    moreover have "is_initialization_done s" using inv i by (auto simp: mh_inv_def init_part_def)
    ultimately show ?thesis using q(2) by (simp add: mh_inv_def init_part_def)
  next
    case (WGot m)
    then have "s' = set_pc i WIdle s \<and> \<not> alive s m \<or> s' = set_pc i (WCollecting m) (set_working i (Some m) s)"
      using step i by (auto simp: worker_step_def split: if_splits)
    then show ?thesis
    proof
      assume "s' = set_pc i WIdle s \<and> \<not> alive s m"
      then show ?thesis using WGot by (intro move [where ?s1.0 = s and p = WIdle]) (auto simp: worker_tok_def same_schedI)
    next
      assume "s' = set_pc i (WCollecting m) (set_working i (Some m) s)"
      then show ?thesis using WGot
        by (intro move [where ?s1.0 = s and p = "WCollecting m" and wo = "Some m"]) (auto simp: worker_tok_def same_schedI)
    qed
  next
    case (WCollecting m)
    obtain r where r: "metric_at s m = Some r"
      using step i WCollecting by (auto simp: worker_step_def split: option.splits)
    obtain x r' where c: "collect sampling (mh_clock s) r = (x, r')" by (metis prod.collapse)
    let ?s1 = "s\<lparr>metrics := dict_set m r' (metrics s)\<rparr>"
    have "s' = (case x of Inl e \<Rightarrow> set_pc i (WDied m) ?s1 | Inr _ \<Rightarrow> set_pc i (WCollected m) (set_working i None ?s1))"
      using step i WCollecting r c by (auto simp: worker_step_def split: sum.splits)
    then show ?thesis using WCollecting same_sched_collect [OF r c]
      by (intro move [where ?s1.0 = ?s1 and p = "case x of Inl e \<Rightarrow> WDied m | Inr _ \<Rightarrow> WCollected m" and wo = None])
         (auto simp: worker_tok_def split: sum.splits)
  next
    case (WCollected m)
    show ?thesis
    proof (cases "alive s m")
      case True
      then obtain r where r: "metric_at s m = Some r" by (auto simp: alive_def split: option.splits)
      show ?thesis
      proof (cases "set_next_run_time r")
        case (Inl e)
        with step i WCollected True r show ?thesis
          by (intro move [where ?s1.0 = s and p = "WDied m"]) (auto simp: worker_step_def worker_tok_def same_schedI)
      next
        case (Inr r')
        with step i WCollected True r worker_schedule_inv [OF inv i WCollected r Inr] show ?thesis
          by (simp add: worker_step_def)
      qed
    next
      case False
      with step i WCollected show ?thesis
        by (intro move [where ?s1.0 = s and p = WIdle]) (auto simp: worker_step_def worker_tok_def same_schedI)
    qed
  next
    case (WScheduled m)
    obtain res s1 where put: "put_and_notify (Met m) True None s = (res, s1)" by (metis prod.collapse)
    from worker_put_inv [OF inv i WScheduled put] step i WScheduled put show ?thesis
      by (auto simp: worker_step_def)
  next
    case (WPut m)
    then obtain r where "s' = set_pc i (if is_ready_to_send r then WSend m else WIdle) s"
      using step i by (auto simp: worker_step_def split: option.splits)
    then show ?thesis using WPut
      by (intro move [where ?s1.0 = s and p = "if is_ready_to_send r then WSend m else WIdle"])
         (auto simp: worker_tok_def same_schedI)
  next
    case (WSend m)
    let ?s1 = "s\<lparr>send_queue := send_queue s @ [Met m]\<rparr>"
    have "s' = set_pc i (WReset m) ?s1" using step i WSend by (simp add: worker_step_def)
    then show ?thesis using WSend
      by (intro move [where ?s1.0 = ?s1 and p = "WReset m"]) (auto simp: worker_tok_def same_schedI)
  next
    case (WReset m)
    let ?s1 = "upd_metric m reset_aggregation_size s"
    have "same_sched s ?s1" by (rule same_sched_upd) (simp add: reset_aggregation_size_def)
    moreover have "s' = set_pc i WIdle ?s1" using step i WReset by (simp add: worker_step_def)
    ultimately show ?thesis using WReset
      by (intro move [where ?s1.0 = ?s1 and p = WIdle]) (auto simp: worker_tok_def)
  qed (use step i in \<open>auto simp: worker_step_def\<close>)
qed

section \<open>The sender and the calls from outside\<close>

text \<open>The data center component takes values out of the metric's queue and leaves its schedule alone.\<close>

definition publish_ok :: "(reg_metric \<Rightarrow> (reg_metric, unit) outcome) \<Rightarrow> bool" where
  "publish_ok publish \<longleftrightarrow>
     (\<forall>r. next_run_time (snd (publish r)) = next_run_time r \<and> flag_alive (snd (publish r)) = flag_alive r)"

lemma outside_inv:
  assumes "mh_inv s" "same_sched s s'" "event_ds s' = event_ds s" "collect_queue s' = collect_queue s"
    "checker s' = checker s" "first_element_changed s' = first_element_changed s"
    "event_maxsize s' = event_maxsize s" "pool s' = pool s"
    "is_initialization_done s' = is_initialization_done s" "\<not> is_initialization_done s \<Longrightarrow> send_queue s' = send_queue s"
  shows "mh_inv s'"
proof -
  have tok: "tokens s' = tokens s" using assms by (simp add: tokens_def)
  have "token_part s'"
    by (rule token_part_keep [OF mh_invD(2)[OF assms(1)] tok assms(2)]) (simp add: lost_def assms(8))
  moreover have "heap_part s'" by (rule heap_part_sched [OF mh_invD(1)[OF assms(1)] assms(2,3,7)])
  moreover have "wait_part s'"
    by (rule wait_part_same [OF mh_invD(3)[OF assms(1)] assms(5,3,6)]) (use assms(2) in \<open>simp add: same_sched_def\<close>)
  moreover have "init_part s'" using mh_invD(4)[OF assms(1)] assms by (simp add: init_part_def)
  ultimately show ?thesis by (simp add: mh_inv_def)
qed

lemma sender_step_inv:
  assumes "mh_inv s" "sender_step publish s = Some s'" "publish_ok publish"
  shows "mh_inv s'"
proof -
  have i: "is_initialization_done s" using assms(2) by (auto simp: sender_step_def split: if_splits)
  have u: "same_sched s (upd_metric m (send_data publish) s)" for m
    using assms(3) by (intro same_sched_upd) (simp add: send_data_def publish_ok_def)
  show ?thesis
  proof (cases "sender s")
    case (SSending m)
    then have s': "s' = upd_metric m (send_data publish) (s\<lparr>sender := SLoop\<rparr>)"
      using assms(2) i by (simp add: sender_step_def)
    have "same_sched s s'"
      by (rule same_sched_metrics [OF _ u [of m]]) (simp add: s' upd_metric_def split: option.splits)
    then show ?thesis using s' i by (intro outside_inv [OF assms(1)]) simp_all
  qed (use assms(2) i in \<open>auto simp: sender_step_def intro!: outside_inv [OF assms(1)] same_schedI
         split: list.splits event.splits if_splits\<close>)
qed

lemma stop_inv: "mh_inv s \<Longrightarrow> mh_inv (stop m s)"
  unfolding stop_def
  by (rule outside_inv, assumption, rule same_sched_upd) (simp_all add: stop_collecting_def)

lemma clock_inv: "mh_inv s \<Longrightarrow> mh_inv (s\<lparr>mh_clock := t\<rparr>)"
  by (rule outside_inv) (simp_all add: same_schedI)

lemma new_metric_inv:
  assumes "mh_inv s" "\<not> dict_has (metrics s) m"
  shows "mh_inv (s\<lparr>metrics := dict_set m (RegisteredMetric me rid) (metrics s)\<rparr>)"
  by (rule outside_inv [OF assms(1)])
     (use assms(2) in \<open>auto simp: same_sched_def nrt_def alive_def fun_eq_iff RegisteredMetric_def dict_has_iff\<close>)

lemma sum_list_empties [simp]: "sum_list (replicate n {#}) = {#}"
  by (induction n) auto

lemma initialize_inv: "mh_inv s \<Longrightarrow> mh_inv (initialize n s)"
proof (cases "is_initialization_done s")
  case False
  assume inv: "mh_inv s"
  let ?s = "initialize n s"
  have e: "event_ds s = []" "collect_queue s = []" "checker s = CLoop" "pool s = []"
    using mh_invD(4)[OF inv] False by (auto simp: init_part_def)
  have "pool_toks (pool ?s) = {#}" using False by (simp add: initialize_def pool_toks_def worker_tok_def)
  then have tok: "tokens ?s = tokens s"
    using False e by (simp add: tokens_def initialize_def checker_tok_def pool_toks_def)
  have m: "metrics ?s = metrics s" using False by (simp add: initialize_def)
  have "token_part ?s"
    by (rule token_part_keep [OF mh_invD(2)[OF inv] tok same_schedI [OF m]]) (simp add: lost_def e)
  moreover have "heap_part ?s" "wait_part ?s" "init_part ?s"
    using False by (simp_all add: initialize_def heap_part_def is_heap_def wait_part_def init_part_def)
  ultimately show ?thesis by (simp add: mh_inv_def)
qed (simp add: initialize_def)

text \<open>A put by a caller who has just made the metric his own, or of a \<^verbatim>\<open>SystemExit\<close>.\<close>

lemma start_collecting_inv:
  assumes inv: "mh_inv s" and r: "metric_at s m = Some r" "next_run_time r = None"
  shows "mh_inv (start_collecting n m s)"
proof -
  let ?s1 = "initialize n s"
  have inv1: "mh_inv ?s1" by (rule initialize_inv [OF inv])
  have r1: "metric_at ?s1 m = Some r" using r(1) by (simp add: initialize_def)
  define s2 where "s2 = upd_metric m (mark_started (mh_clock ?s1)) ?s1"
  obtain res s3 where put: "put_and_notify (Met m) True None s2 = (res, s3)" by (metis prod.collapse)
  have s3: "start_collecting n m s = s3" by (simp add: start_collecting_def Let_def s2_def [symmetric] put)
  have t1: "token_part ?s1" using mh_invD(2)[OF inv1] .
  have "nrt ?s1 m = None" using r1 r(2) by (simp add: nrt_def)
  then have free: "m \<notin># tokens ?s1" using t1 by (auto simp: token_part_def)
  then have nq: "Met m \<notin> set (event_ds ?s1)" by (simp add: tokens_def in_event_toks)
  have n2: "nrt s2 x = nrt ?s1 x" "alive s2 x = alive ?s1 x" if "x \<noteq> m" for x
    using that r1 by (simp_all add: s2_def upd_metric_def nrt_def alive_def)
  have n2m: "nrt s2 m \<noteq> None" using r1 by (simp add: s2_def upd_metric_def nrt_def mark_started_def)
  have nx: "Met x \<in> set (event_ds ?s1) \<Longrightarrow> nrt s2 x = nrt ?s1 x" for x using n2(1)[of x] nq by blast
  have h2: "heap_part s2" by (rule heap_part_same [OF mh_invD(1)[OF inv1] nx]) (simp_all add: s2_def)
  have w2: "wait_part s2" by (rule wait_part_same [OF mh_invD(3)[OF inv1] _ _ _ nx]) (simp_all add: s2_def)
  have m0: "event_maxsize s2 = 0" using h2 by (simp add: heap_part_def)
  note f = put_fields [OF m0 put]
  have tok: "tokens s3 = add_mset m (tokens ?s1)"
    using put_tokens [OF m0 put] by (simp add: met_tok_def s2_def tokens_def)
  have al3: "nrt s3 = nrt s2" "alive s3 = alive s2" using f(3) by (simp_all add: nrt_def alive_def fun_eq_iff)
  have "token_part s3" unfolding token_part_def
  proof (intro conjI allI ballI impI)
    show "count (tokens s3) x \<le> 1" for x
      using t1 free by (cases "x = m") (auto simp: tok token_part_def not_in_iff)
    show "x \<in># tokens s3 \<Longrightarrow> nrt s3 x \<noteq> None" for x
      using t1 n2m n2 by (cases "x = m") (auto simp: tok al3 token_part_def)
    show "nrt s3 x \<noteq> None \<Longrightarrow> alive s3 x \<Longrightarrow> x \<in># tokens s3 \<or> lost s3 x" for x
      using t1 n2 f(6) by (cases "x = m") (auto simp: tok al3 token_part_def lost_def s2_def)
  qed
  moreover have "is_initialization_done s3" using f(8) by (simp add: s2_def initialize_def)
  ultimately show ?thesis
    using put_heap_part [OF h2 put] put_wait_part [OF h2 w2 put] by (simp add: s3 mh_inv_def init_part_def)
qed

lemma terminate_inv: "mh_inv s \<Longrightarrow> mh_inv (terminate a b s)"
proof (cases "is_initialization_done s")
  case True
  assume inv: "mh_inv s"
  define s1 where "s1 = s\<lparr>checker_flag_alive := False, sender_flag_alive := False\<rparr>"
  have inv1: "mh_inv s1" unfolding s1_def by (rule outside_inv [OF inv]) (simp_all add: same_schedI)
  obtain res s2 where put: "put_and_notify (SysExit a) True (Some 0) s1 = (res, s2)" by (metis prod.collapse)
  note f = put_fields [OF mh_invD(5)[OF inv1] put]
  have tok: "tokens s2 = tokens s1" using put_tokens [OF mh_invD(5)[OF inv1] put] by (simp add: met_tok_def)
  have "token_part s2" by (rule token_part_eq [OF mh_invD(2)[OF inv1] tok f(3,6)])
  then have "mh_inv s2"
    using put_heap_part [OF mh_invD(1)[OF inv1] put] put_wait_part [OF mh_invD(1,3)[OF inv1] put] f(8) True
    by (simp add: mh_inv_def init_part_def s1_def)
  moreover have "terminate a b s = s2\<lparr>send_queue := send_queue s2 @ [SysExit b]\<rparr>"
    using True put by (simp add: terminate_def Let_def s1_def [symmetric])
  moreover have "is_initialization_done s2" using f(8) True by (simp add: s1_def)
  ultimately show ?thesis by (auto intro: outside_inv simp: same_schedI)
qed (simp add: terminate_def)

section \<open>Reachable states\<close>

inductive mh_step :: "mh \<Rightarrow> mh \<Rightarrow> bool" where
  step: "mh_do a s = Some s' \<Longrightarrow> (\<And>publish. a = ASender publish \<Longrightarrow> publish_ok publish) \<Longrightarrow> mh_step s s'"

inductive_cases mh_stepE: "mh_step s s'"

lemma mh_step_inv: "mh_step s s' \<Longrightarrow> mh_inv s \<Longrightarrow> mh_inv s'"
proof (elim mh_stepE)
  fix a
  assume inv: "mh_inv s" and d: "mh_do a s = Some s'" and p: "\<And>publish. a = ASender publish \<Longrightarrow> publish_ok publish"
  show "mh_inv s'"
  proof (cases a)
    case (ASender publish)
    with d p sender_step_inv [OF inv, of publish s'] show ?thesis by (simp add: mh_do_def)
  qed (use inv d in \<open>auto simp: mh_do_def clock_inv new_metric_inv start_collecting_inv stop_inv terminate_inv
        split: if_splits option.splits intro: checker_step_inv worker_step_inv\<close>)
qed

lemma mh_inv_start:
  assumes "\<forall>m r. dict_get ms m = Some r \<longrightarrow> next_run_time r = None"
  shows "mh_inv (mh_start ms now)"
proof -
  have n: "nrt (mh_start ms now) m = None" for m
    using assms by (auto simp: nrt_def mh_start_def split: option.splits)
  have "tokens (mh_start ms now) = {#}" by (simp add: tokens_def mh_start_def checker_tok_def pool_toks_def)
  with n show ?thesis
    by (simp add: mh_inv_def heap_part_def token_part_def wait_part_def init_part_def)
       (simp add: mh_start_def is_heap_def)
qed

definition mh_reachable :: "(nat, reg_metric) dict \<Rightarrow> int \<Rightarrow> mh \<Rightarrow> bool" where
  "mh_reachable ms now s \<longleftrightarrow> mh_step\<^sup>*\<^sup>* (mh_start ms now) s"

lemma mh_inv_reachable:
  assumes "mh_reachable ms now s" "\<forall>m r. dict_get ms m = Some r \<longrightarrow> next_run_time r = None"
  shows "mh_inv s"
  using assms(1)[unfolded mh_reachable_def] mh_inv_start [OF assms(2)]
  by (induction rule: rtranclp_induct) (auto intro: mh_step_inv)

section \<open>What the checker hands out\<close>

lemma due_nrt: "due s m \<longleftrightarrow> (case nrt s m of None \<Rightarrow> True | Some t \<Rightarrow> t \<le> of_int (mh_clock s))"
  by (auto simp: due_def nrt_def get_next_run_time_def split: option.splits)

lemma head_min:
  assumes "mh_inv s" "e \<in> set (event_ds s)"
  shows "event_key (metrics s) (event_ds s ! 0) \<le> event_key (metrics s) e"
  using hq.first_min [of "event_key (metrics s)" "event_ds s" e] assms by (auto simp: mh_inv_def heap_part_def)

text \<open>The head of the queue is due as soon as any queued metric is.\<close>

lemma head_due:
  assumes "mh_inv s" "Met m \<in> set (event_ds s)" "due s m"
  shows "\<exists>x. event_ds s ! 0 = Met x \<and> due s x \<and> (\<forall>y. Met y \<in> set (event_ds s) \<longrightarrow> the (nrt s x) \<le> the (nrt s y))"
proof -
  let ?k = "event_key (metrics s)"
  have n: "\<exists>t. nrt s y = Some t" if "Met y \<in> set (event_ds s)" for y
  proof -
    have "y \<in># tokens s" using that by (simp add: tokens_def in_event_toks)
    then show ?thesis using mh_invD(2)[OF assms(1)] by (auto simp: token_part_def)
  qed
  have le: "?k (event_ds s ! 0) \<le> ?k (Met m)" by (rule head_min [OF assms(1,2)])
  obtain t where t: "nrt s m = Some t" using n [OF assms(2)] by blast
  have ne: "event_ds s \<noteq> []" using assms(2) by auto
  obtain x where x: "event_ds s ! 0 = Met x"
    using le t by (cases "event_ds s ! 0") (auto simp: event_key_nrt)
  then have "Met x \<in> set (event_ds s)" using ne by (metis length_greater_0_conv nth_mem)
  then obtain u where u: "nrt s x = Some u" using n by blast
  have "u \<le> t" using le t u x by (simp add: event_key_nrt)
  then have "due s x" using assms(3) t u by (simp add: due_nrt)
  moreover have "the (nrt s x) \<le> the (nrt s y)" if y: "Met y \<in> set (event_ds s)" for y
    using head_min [OF assms(1) y] n [OF y] x u by (auto simp: event_key_nrt)
  ultimately show ?thesis using x by blast
qed

lemma wake_hands_out_due:
  assumes "mh_inv s" "checker s = CWait m" "alive s m" "get_wake s = Some s'" "checker s' = CGot e"
  shows "\<exists>x. e = Met x \<and> due s x \<and> (\<forall>y. Met y \<in> set (event_ds s) \<longrightarrow> the (nrt s x) \<le> the (nrt s y))"
proof -
  have q: "Met m \<in> set (event_ds s)" using mh_invD(3)[OF assms(1)] assms(2) by (simp add: wait_part_def)
  then have ne: "event_ds s \<noteq> []" by auto
  have d: "due s m" and s': "s' = take_first s"
    using assms(2-5) by (auto simp: get_wake_def split: if_splits)
  then have "e = event_ds s ! 0" using take_first_props(2)[OF mh_invD(1)[OF assms(1)] ne] assms(5) by simp
  with head_due [OF assms(1) q d] show ?thesis by auto
qed

lemma enter_hands_out:
  assumes "mh_inv s" "checker s = CEnter" "checker (get_enter s) = CGot e"
  shows "e = event_ds s ! 0 \<and> ((\<exists>a. e = SysExit a) \<or> (\<exists>m. e = Met m \<and> \<not> alive s m))"
proof -
  obtain e' q where q: "event_ds s = e' # q" using assms(3) by (cases "event_ds s") (auto simp: get_enter_def)
  have t: "checker (take_first s) = CGot e'" using take_first_props(2)[OF mh_invD(1)[OF assms(1)]] q by simp
  show ?thesis using assms(2,3) q t by (cases e') (auto simp: get_enter_def split: if_splits)
qed

text \<open>\<^verbatim>\<open>terminate\<close> does not wake a checker that waits for a metric: the \<^verbatim>\<open>SystemExit\<close> sorts last.\<close>

lemma terminate_no_wake:
  assumes "mh_inv s" "checker s = CWait m" "is_initialization_done s"
  shows "first_element_changed (terminate a b s) = first_element_changed s \<and> checker (terminate a b s) = CWait m \<and>
    \<not> checker_flag_alive (terminate a b s)"
proof -
  define s1 where "s1 = s\<lparr>checker_flag_alive := False, sender_flag_alive := False\<rparr>"
  let ?k = "event_key (metrics s)" and ?q = "heappush (event_lt (metrics s)) (SysExit a) (event_ds s)"
  have q: "Met m \<in> set (event_ds s)" using mh_invD(3)[OF assms(1)] assms(2) by (simp add: wait_part_def)
  obtain e q' where e: "event_ds s = e # q'" using q by (cases "event_ds s") auto
  have h: "is_heap ?k (event_ds s)" using mh_invD(1)[OF assms(1)] by (simp add: heap_part_def)
  have "?k e \<le> ?k (Met m)" using head_min [OF assms(1) q] e by simp
  also have "\<dots> \<le> ?k (SysExit a)" by (auto simp: event_key_nrt split: option.splits)
  finally have "?k (?q ! 0) = ?k e"
    using hq.first_push [OF h, of "SysExit a"] e by (simp add: event_lt_def min_def)
  then have "put_and_notify (SysExit a) True (Some 0) s1 =
      (PutDone, s1\<lparr>event_ds := ?q, unfinished_tasks := unfinished_tasks s1 + 1\<rparr>)"
    using mh_invD(5)[OF assms(1)] e by (simp add: put_and_notify_def s1_def Let_def)
  then show ?thesis using assms(2,3) by (simp add: terminate_def s1_def Let_def)
qed

lemma pool_size_fixed: "worker_step sampling i s = Some s' \<Longrightarrow> length (pool s') = length (pool s) \<and> num_threads s' = num_threads s"
  by (auto simp: worker_step_def set_pc_def set_working_def upd_metric_def put_and_notify_def notify_changed_def Let_def
      split: if_splits worker_pc.splits list.splits option.splits prod.splits sum.splits put_result.splits checker_pc.splits)

end
