(* ===== verification/Metric_Example.thy ===== *)
theory Metric_Example
  imports Metric_Invariant
begin

text \<open>Two metrics, sampled every 100 and every 50 seconds, and short runs of the metric handler.\<close>

definition ex_metric :: metric where
  "ex_metric = \<lparr>m_name = ''temp'', m_entity_id = ''u1'', m_entity_type = ''Metric'', m_unit = None, interval = 100,
     aggregation_size = 1, sampling_args = 0\<rparr>"

definition ex_metrics :: "(nat, reg_metric) dict" where
  "ex_metrics = [(0, RegisteredMetric ex_metric ''m0''), (1, RegisteredMetric (ex_metric\<lparr>interval := 50\<rparr>) ''m1'')]"

text \<open>The checker waits for the first metric; the same after its time has come.\<close>

definition ex_waiting :: mh where
  "ex_waiting = the (mh_run [AStart 1 0, AChecker, AChecker] (mh_start ex_metrics 0))"

definition ex_ready :: mh where
  "ex_ready = the (mh_run [ATick 100000] ex_waiting)"

lemma ex_metrics_fresh: "\<forall>m r. dict_get ex_metrics m = Some r \<longrightarrow> next_run_time r = None"
  by (auto simp: ex_metrics_def RegisteredMetric_def split: if_splits)

lemma mh_run_reachable:
  assumes "mh_run as s = Some s'" "\<forall>a\<in>set as. \<forall>p. a \<noteq> ASender p"
  shows "mh_step\<^sup>*\<^sup>* s s'"
  using assms
proof (induction as arbitrary: s)
  case (Cons a as)
  then obtain s1 where "mh_do a s = Some s1" "mh_run as s1 = Some s'" by (auto split: option.splits)
  then have "mh_step s s1" "mh_step\<^sup>*\<^sup>* s1 s'" using Cons by (auto intro: mh_step.step)
  then show ?case by (rule converse_rtranclp_into_rtranclp)
qed simp

lemma ex_runs:
  "Option.is_none (mh_run [AStart 1 0, AChecker, AChecker] (mh_start ex_metrics 0)) = False"
  "Option.is_none (mh_run [ATick 100000] ex_waiting) = False"
  by code_simp+

lemma ex_waiting_run: "mh_run [AStart 1 0, AChecker, AChecker] (mh_start ex_metrics 0) = Some ex_waiting"
  unfolding ex_waiting_def using ex_runs(1)
  by (cases "mh_run [AStart 1 0, AChecker, AChecker] (mh_start ex_metrics 0)") simp_all

lemma ex_waiting_reachable: "mh_reachable ex_metrics 0 ex_waiting"
  unfolding mh_reachable_def by (rule mh_run_reachable [OF ex_waiting_run]) simp

lemma ex_ready_reachable: "mh_reachable ex_metrics 0 ex_ready"
proof -
  have "mh_run [ATick 100000] ex_waiting = Some ex_ready"
    unfolding ex_ready_def using ex_runs(2) by (cases "mh_run [ATick 100000] ex_waiting") simp_all
  then have "mh_step\<^sup>*\<^sup>* ex_waiting ex_ready" by (rule mh_run_reachable) simp
  with ex_waiting_reachable show ?thesis unfolding mh_reachable_def by (rule rtranclp_trans)
qed

lemma ex_waiting_facts:
  "nrt ex_waiting 0 \<noteq> None" "alive ex_waiting 0" "\<not> lost ex_waiting 0" "checker ex_waiting = CWait 0"
  "is_initialization_done ex_waiting" "\<not> first_element_changed ex_waiting"
proof -
  have "map w_pc (pool ex_waiting) = [WIdle]" by code_simp
  then show "\<not> lost ex_waiting 0" by (auto simp: lost_def)
qed (code_simp+)

lemma ex_ready_facts: "checker ex_ready = CWait 0" "alive ex_ready 0"
  by code_simp+

lemma ex_ready_wake: "\<exists>s'. get_wake ex_ready = Some s' \<and> checker s' = CGot (Met 0)"
proof -
  have "map_option checker (get_wake ex_ready) = Some (CGot (Met 0))" by code_simp
  then show ?thesis by auto
qed

end
