(* ===== verification/Dccs.thy ===== *)
theory Dccs
  imports Registered_Metric Metric_Invariant
begin

text \<open>
  Data center components (\<^verbatim>\<open>src/liota/dccs\<close>): the publish operation of the abstract base class
  \<^verbatim>\<open>DataCenterComponent\<close>, and the components for Graphite and AWS IoT. What the base class relies on in
  its subclasses is the locale \<open>dcc\<close>: formatting empties the queue of values and touches nothing else
  of the metric. From it follows what the sending thread of the metric handler relies on.
\<close>

section \<open>Registered entities\<close>

text \<open>The objects that \<^verbatim>\<open>register\<close> returns refer to each other by \<^verbatim>\<open>parent\<close>.\<close>

datatype entity_kind = KEdgeSystem | KDevice | KMetric | KOther

record reg_entity =
  re_kind :: entity_kind
  re_name :: string
  re_parent :: "nat option"

type_synonym entities = "(nat, reg_entity) dict"

text \<open>\<^verbatim>\<open>RegisteredEntity.__init__\<close>, as \<^verbatim>\<open>Graphite.register\<close> and \<^verbatim>\<open>AWSIoT.register\<close> call it.\<close>

definition RegisteredEntity :: "entity_kind \<Rightarrow> string \<Rightarrow> reg_entity" where
  "RegisteredEntity kind name = \<lparr>re_kind = kind, re_name = name, re_parent = None\<rparr>"

definition graphite_register :: "nat \<Rightarrow> entity_kind \<Rightarrow> string \<Rightarrow> entities \<Rightarrow> entities" where
  "graphite_register i kind name es = dict_set i (RegisteredEntity kind name) es"

text \<open>\<^verbatim>\<open>AWSIoT.register\<close>: the base class checks that the object is an entity.\<close>

definition aws_register :: "nat \<Rightarrow> entity_kind option \<Rightarrow> string \<Rightarrow> entities \<Rightarrow> (entities, nat) outcome" where
  "aws_register i kind name es =
     (case kind of
        None \<Rightarrow> (Inl TypeError, es)
      | Some k \<Rightarrow> (Inr i, dict_set i (RegisteredEntity k name) es))"

definition set_parent :: "nat \<Rightarrow> nat \<Rightarrow> entities \<Rightarrow> entities" where
  "set_parent par child es =
     (case dict_get es child of None \<Rightarrow> es | Some c \<Rightarrow> dict_set child (c\<lparr>re_parent := Some par\<rparr>) es)"

text \<open>\<^verbatim>\<open>create_relationship\<close> of the two components.\<close>

definition graphite_create_relationship :: "nat \<Rightarrow> nat \<Rightarrow> entities \<Rightarrow> entities" where
  "graphite_create_relationship par child es = set_parent par child es"

definition aws_create_relationship :: "nat \<Rightarrow> nat \<Rightarrow> entities \<Rightarrow> (entities, unit) outcome" where
  "aws_create_relationship par child es =
     (case (dict_get es par, dict_get es child) of
        (Some p, Some c) \<Rightarrow>
          if re_kind p \<noteq> KEdgeSystem \<and> re_kind p \<noteq> KDevice then (Inl TypeError, es)
          else if re_kind c \<noteq> KDevice \<and> re_kind c \<noteq> KMetric then (Inl TypeError, es)
          else (Inr (), set_parent par child es)
      | _ \<Rightarrow> (Inl AttributeError, es))"

text \<open>\<^verbatim>\<open>extract_hierarchy\<close>, with the recursion limit of the interpreter.\<close>

primrec extract_hierarchy :: "nat \<Rightarrow> entities \<Rightarrow> nat option \<Rightarrow> py_error + string list" where
  "extract_hierarchy 0 es e = Inl RuntimeError"
| "extract_hierarchy (Suc n) es e =
     (case e of
        None \<Rightarrow> Inr []
      | Some i \<Rightarrow>
          (case dict_get es i of
             None \<Rightarrow> Inl AttributeError
           | Some r \<Rightarrow>
               (case extract_hierarchy n es (re_parent r) of
                  Inl err \<Rightarrow> Inl err
                | Inr names \<Rightarrow> Inr (names @ [re_name r]))))"

definition get_entity_hierarchy :: "nat \<Rightarrow> entities \<Rightarrow> nat \<Rightarrow> py_error + string list" where
  "get_entity_hierarchy n es i =
     (case dict_get es i of None \<Rightarrow> Inl TypeError | Some _ \<Rightarrow> extract_hierarchy n es (Some i))"

section \<open>Publishing\<close>

text \<open>The message that goes to \<^verbatim>\<open>comms.send\<close> with the messaging attributes of the metric, if any.\<close>

type_synonym send_fun = "string \<Rightarrow> string option \<Rightarrow> py_error + unit"

definition publish ::
  "(reg_metric \<Rightarrow> (reg_metric, string option) outcome) \<Rightarrow> send_fun \<Rightarrow> string option \<Rightarrow> reg_metric \<Rightarrow> (reg_metric, unit) outcome" where
  "publish format_data send msg_attr r =
     (case format_data r of
        (Inl e, r') \<Rightarrow> (Inl e, r')
      | (Inr None, r') \<Rightarrow> (Inr (), r')
      | (Inr (Some message), r') \<Rightarrow> if message = [] then (Inr (), r') else (send message msg_attr, r'))"

section \<open>Graphite\<close>

text \<open>The loop over the queued values: a line per value, the time in seconds. Python 2 rounds the quotient of
  two integers down, and \<^verbatim>\<open>%d\<close> truncates a float. An exception leaves the values behind it in the queue.\<close>

definition graphite_seconds :: "pyval \<Rightarrow> py_error + int" where
  "graphite_seconds t =
     (case t of
        PInt i \<Rightarrow> Inr (i div 1000)
      | PBool b \<Rightarrow> Inr 0
      | PFloat r \<Rightarrow> Inr (if r < 0 then - floor (- r / 1000) else floor (r / 1000))
      | _ \<Rightarrow> Inl TypeError)"

definition graphite_line :: "(pyval \<Rightarrow> string) \<Rightarrow> string \<Rightarrow> pyval \<Rightarrow> py_error + string" where
  "graphite_line fmt name v =
     (case py_index v 1 of
        Inl e \<Rightarrow> Inl e
      | Inr x \<Rightarrow>
     (case py_index v 0 of
        Inl e \<Rightarrow> Inl e
      | Inr t \<Rightarrow>
     (case graphite_seconds t of
        Inl e \<Rightarrow> Inl e
      | Inr sec \<Rightarrow> Inr (name @ '' '' @ py_str fmt x @ '' '' @ str_int sec @ [LF]))))"

primrec graphite_lines :: "(pyval \<Rightarrow> string) \<Rightarrow> string \<Rightarrow> pyval list \<Rightarrow> string \<Rightarrow> (py_error + string) \<times> pyval list" where
  "graphite_lines fmt name [] message = (Inr message, [])"
| "graphite_lines fmt name (v # vs) message =
     (if v = PNone then graphite_lines fmt name vs message
      else case graphite_line fmt name v of
             Inl e \<Rightarrow> (Inl e, vs)
           | Inr l \<Rightarrow> graphite_lines fmt name vs (message @ l))"

definition graphite_format_data :: "(pyval \<Rightarrow> string) \<Rightarrow> reg_metric \<Rightarrow> (reg_metric, string option) outcome" where
  "graphite_format_data fmt r =
     (if length (vals r) = 0 then (Inr None, r)
      else case graphite_lines fmt (m_name (ref_entity r)) (vals r) [] of
             (Inl e, vs) \<Rightarrow> (Inl e, r\<lparr>vals := vs\<rparr>)
           | (Inr message, vs) \<Rightarrow> (Inr (if message = [] then None else Some message), r\<lparr>vals := vs\<rparr>))"

section \<open>AWS IoT\<close>

primrec aws_samples :: "pyval list \<Rightarrow> pyval list \<Rightarrow> (py_error + pyval list) \<times> pyval list" where
  "aws_samples [] acc = (Inr acc, [])"
| "aws_samples (v # vs) acc =
     (if v = PNone then aws_samples vs acc
      else case py_index v 1 of
             Inl e \<Rightarrow> (Inl e, vs)
           | Inr x \<Rightarrow>
               (case py_index v 0 of
                  Inl e \<Rightarrow> (Inl e, vs)
                | Inr t \<Rightarrow> aws_samples vs (acc @ [PDict [(''value'', x), (''timestamp'', t)]])))"

text \<open>Names that go into the payload with \<^verbatim>\<open>enclose_metadata\<close>.\<close>

definition aws_metadata :: "string list \<Rightarrow> (string \<times> pyval) list" where
  "aws_metadata h =
     (if length h = 3 then [(''edge_system_name'', PStr (h ! 0)), (''device_name'', PStr (h ! 1))]
      else if length h = 2 then [(''edge_system_name'', PStr (h ! 0))]
      else [])"

text \<open>The unit: \<open>parse_unit\<close> is the function of \<^verbatim>\<open>si_unit.py\<close>, prefix and unit name where known; the exception
  \<^verbatim>\<open>UnsupportedUnitError\<close> is a \<open>ValueError\<close>.\<close>

type_synonym parse_unit_fun = "string \<Rightarrow> py_error + (string option \<times> string option)"

definition aws_unit :: "parse_unit_fun \<Rightarrow> string option \<Rightarrow> py_error + pyval" where
  "aws_unit parse_unit u =
     (case u of
        None \<Rightarrow> Inr (PStr ''null'')
      | Some x \<Rightarrow>
          (case parse_unit x of
             Inl e \<Rightarrow> if e = ValueError then Inr (PStr ''null'') else Inl e
           | Inr (None, n) \<Rightarrow> Inr (case n of None \<Rightarrow> PNone | Some t \<Rightarrow> PStr t)
           | Inr (Some p, Some n) \<Rightarrow> Inr (PStr (p @ n))
           | Inr (Some p, None) \<Rightarrow> Inl TypeError))"

definition aws_format_data ::
  "(rat \<Rightarrow> string) \<Rightarrow> parse_unit_fun \<Rightarrow> nat \<Rightarrow> entities \<Rightarrow> nat \<Rightarrow> bool \<Rightarrow>
   reg_metric \<Rightarrow> (reg_metric, string option) outcome" where
  "aws_format_data fmt parse_unit n es i enclose_metadata r =
     (if length (vals r) = 0 then (Inr None, r)
      else case aws_samples (vals r) [] of
             (Inl e, vs) \<Rightarrow> (Inl e, r\<lparr>vals := vs\<rparr>)
           | (Inr samples, vs) \<Rightarrow>
               (bind_r (if enclose_metadata then get_entity_hierarchy n es i else Inr []) (\<lambda>h.
                bind_r (aws_unit parse_unit (m_unit (ref_entity r))) (\<lambda>u.
                bind_r (json_dumps fmt (PDict ((if enclose_metadata then aws_metadata h else []) @
                    [(''metric_name'', PStr (m_name (ref_entity r))), (''metric_data'', PList samples), (''unit'', u)])))
                  (\<lambda>t. Inr (Some t)))),
                r\<lparr>vals := vs\<rparr>))"

section \<open>The contract of data center components\<close>

locale dcc =
  fixes format_data :: "reg_metric \<Rightarrow> (reg_metric, string option) outcome"
  assumes format_frame: "\<exists>vs. snd (format_data r) = r\<lparr>vals := vs\<rparr>"
    and format_drains: "fst (format_data r) = Inr x \<Longrightarrow> vals (snd (format_data r)) = []"
begin

lemma publish_snd: "snd (publish format_data send a r) = snd (format_data r)"
  by (auto simp: publish_def split: prod.splits sum.splits option.splits)

lemma publish_schedule: "publish_ok (publish format_data send a)"
  unfolding publish_ok_def publish_snd
proof
  fix r
  obtain vs where "snd (format_data r) = r\<lparr>vals := vs\<rparr>" using format_frame by blast
  then show "next_run_time (snd (format_data r)) = next_run_time r \<and> flag_alive (snd (format_data r)) = flag_alive r"
    by simp
qed

lemma publish_drains: "fst (publish format_data send a r) = Inr () \<Longrightarrow> vals (snd (publish format_data send a r)) = []"
  unfolding publish_snd
  by (rule format_drains [where x = "case fst (format_data r) of Inr x \<Rightarrow> x | Inl _ \<Rightarrow> None"])
     (auto simp: publish_def split: prod.splits sum.splits option.splits)

end

lemma graphite_lines_drain: "graphite_lines fmt name vs msg = (Inr m, vs') \<Longrightarrow> vs' = []"
  by (induction vs arbitrary: msg) (auto split: if_splits sum.splits)

lemma aws_samples_drain: "aws_samples vs acc = (Inr ss, vs') \<Longrightarrow> vs' = []"
  by (induction vs arbitrary: acc) (auto split: if_splits sum.splits)

lemma no_vals: "vals r = [] \<Longrightarrow> \<exists>vs. r = r\<lparr>vals := vs\<rparr>"
  by (rule exI [of _ "[]"]) simp

interpretation graphite: dcc "graphite_format_data fmt" for fmt
proof unfold_locales
  show "\<exists>vs. snd (graphite_format_data fmt r) = r\<lparr>vals := vs\<rparr>" for r
    by (auto simp: graphite_format_data_def no_vals split: prod.splits sum.splits)
  show "fst (graphite_format_data fmt r) = Inr x \<Longrightarrow> vals (snd (graphite_format_data fmt r)) = []" for r x
    by (auto simp: graphite_format_data_def split: prod.splits sum.splits if_splits dest: graphite_lines_drain)
qed

interpretation aws: dcc "aws_format_data fmt parse_unit n es i enclose" for fmt parse_unit n es i enclose
proof unfold_locales
  let ?f = "aws_format_data fmt parse_unit n es i enclose"
  show "\<exists>vs. snd (?f r) = r\<lparr>vals := vs\<rparr>" for r
    by (auto simp: aws_format_data_def no_vals split: prod.splits sum.splits)
  show "fst (?f r) = Inr x \<Longrightarrow> vals (snd (?f r)) = []" for r x
    by (auto simp: aws_format_data_def split: prod.splits sum.splits if_splits dest: aws_samples_drain)
qed

section \<open>What is published\<close>

text \<open>Samples as \<^verbatim>\<open>add_collected_data\<close> stores single values: a time in milliseconds and the value.\<close>

definition sample :: "int \<times> pyval \<Rightarrow> pyval" where
  "sample tv = PTuple [PInt (fst tv), snd tv]"

definition graphite_text :: "(pyval \<Rightarrow> string) \<Rightarrow> string \<Rightarrow> int \<times> pyval \<Rightarrow> string" where
  "graphite_text fmt name tv = name @ '' '' @ py_str fmt (snd tv) @ '' '' @ str_int (fst tv div 1000) @ [LF]"

lemma graphite_lines_samples:
  "graphite_lines fmt name (map sample tvs) msg = (Inr (msg @ concat (map (graphite_text fmt name) tvs)), [])"
  by (induction tvs arbitrary: msg)
     (auto simp: graphite_line_def sample_def graphite_text_def py_index_def graphite_seconds_def)

lemma graphite_format_samples:
  assumes "vals r = map sample tvs" "tvs \<noteq> []"
  shows "graphite_format_data fmt r =
    (Inr (Some (concat (map (graphite_text fmt (m_name (ref_entity r))) tvs))), r\<lparr>vals := []\<rparr>)"
proof -
  have "concat (map (graphite_text fmt (m_name (ref_entity r))) tvs) \<noteq> []"
    using assms(2) by (cases tvs) (simp_all add: graphite_text_def)
  then show ?thesis using assms
    by (simp add: graphite_format_data_def graphite_lines_samples del: concat_eq_Nil_conv)
qed

lemma aws_samples_map:
  "aws_samples (map sample tvs) acc =
     (Inr (acc @ map (\<lambda>tv. PDict [(''value'', snd tv), (''timestamp'', PInt (fst tv))]) tvs), [])"
  by (induction tvs arbitrary: acc) (auto simp: sample_def py_index_def)

lemma aws_unit_json: "aws_unit parse_unit x = Inr u \<Longrightarrow> json_value u"
  by (auto simp: aws_unit_def split: option.splits sum.splits prod.splits if_splits)

lemma aws_format_samples:
  assumes "vals r = map sample tvs" "tvs \<noteq> []" "\<forall>tv\<in>set tvs. json_value (snd tv)"
    and "enclose \<longrightarrow> get_entity_hierarchy n es i = Inr h" "aws_unit parse_unit (m_unit (ref_entity r)) = Inr u"
  shows "\<exists>s. aws_format_data fmt parse_unit n es i enclose r = (Inr (Some s), r\<lparr>vals := []\<rparr>) \<and>
    json_dumps fmt (PDict ((if enclose then aws_metadata h else []) @
      [(''metric_name'', PStr (m_name (ref_entity r))),
       (''metric_data'', PList (map (\<lambda>tv. PDict [(''value'', snd tv), (''timestamp'', PInt (fst tv))]) tvs)),
       (''unit'', u)])) = Inr s"
proof -
  let ?p = "PDict ((if enclose then aws_metadata h else []) @
      [(''metric_name'', PStr (m_name (ref_entity r))),
       (''metric_data'', PList (map (\<lambda>tv. PDict [(''value'', snd tv), (''timestamp'', PInt (fst tv))]) tvs)),
       (''unit'', u)])"
  have "json_value ?p" using assms(3) aws_unit_json [OF assms(5)] by (auto simp: aws_metadata_def)
  then obtain s where s: "json_dumps fmt ?p = Inr s" using json_dumps_ok by blast
  then show ?thesis using assms
    by (cases enclose) (simp_all add: aws_format_data_def aws_samples_map del: json_dumps.simps)
qed

section \<open>Hierarchies\<close>

text \<open>The names from the root to an entity.\<close>

inductive chain :: "entities \<Rightarrow> nat \<Rightarrow> string list \<Rightarrow> bool" for es where
  root: "dict_get es i = Some r \<Longrightarrow> re_parent r = None \<Longrightarrow> chain es i [re_name r]"
| child: "dict_get es i = Some r \<Longrightarrow> re_parent r = Some j \<Longrightarrow> chain es j names \<Longrightarrow> chain es i (names @ [re_name r])"

lemma extract_None [simp]: "extract_hierarchy (Suc n) es None = Inr []"
  by simp

lemma extract_chain: "chain es i names \<Longrightarrow> length names < n \<Longrightarrow> extract_hierarchy n es (Some i) = Inr names"
proof (induction arbitrary: n rule: chain.induct)
  case (root i r)
  then obtain m where "n = Suc (Suc m)" by (cases n; cases "n - 1") auto
  with root show ?case by simp
next
  case (child i r j names)
  then obtain m where "n = Suc m" "length names < m" by (cases n) auto
  with child show ?case by simp
qed

text \<open>Two devices that are each other's parent: no recursion limit is enough.\<close>

lemma extract_cycle:
  assumes "dict_get es i = Some a" "re_parent a = Some j" "dict_get es j = Some b" "re_parent b = Some i"
  shows "extract_hierarchy n es (Some i) = Inl RuntimeError \<and> extract_hierarchy n es (Some j) = Inl RuntimeError"
  using assms by (induction n) auto

end
