(* ===== verification/Iotcc.thy ===== *)
theory Iotcc
  imports Dccs
begin

unbundle bit_operations_syntax

text \<open>
  The data center component for VMware's IoT control center (\<^verbatim>\<open>src/liota/dccs/iotcc.py\<close>, class
  \<^verbatim>\<open>IotControlCenter\<close>): requests with transaction identifiers and the thread that hands responses to the
  waiting requesters, registration, relationships, properties, and the files it keeps
  (\<^verbatim>\<open>iotcc.json\<close>, one file of properties per entity, one discovery file per entity).

  Messages are JSON values, \<open>None\<close> a text that is not JSON. \<open>ic_recv\<close> holds the messages that will arrive
  within the time a requester waits; when they are used up, waiting ends with \<open>QueueEmpty\<close>. Since a
  requester blocks, the dispatching thread is run when a requester waits.
\<close>

section \<open>State\<close>

datatype content = FJson pyval | FBad     \<comment> \<open>a file with a JSON text, or with something else\<close>

record ic_entity =
  ie_name :: string
  ie_type :: string
  ie_id :: string

record iotcc =
  ic_counter :: int
  ic_req_dict :: "(int, nat) dict"                    \<comment> \<open>transaction to the queue of its requester\<close>
  ic_queues :: "(nat, pyval option list) dict"
  ic_next_queue :: nat
  ic_recv :: "pyval option list"
  ic_sent :: "pyval list"
  ic_reg_entity_id :: pyval
  ic_prop_list :: pyval
  ic_json :: string                                   \<comment> \<open>the path of \<^verbatim>\<open>iotcc.json\<close>\<close>
  ic_files :: "(string, content) dict"
  ic_json_load_retry :: nat
  ic_enable_reboot_getprop :: string
  ic_sys_properties :: "(py_error + pyval) option"    \<comment> \<open>\<^verbatim>\<open>ast.literal_eval\<close> of the setting\<close>
  ic_dcc_load_time :: int
  ic_dev_file_path :: "string option"
  ic_entity_file_path :: "string option"
  ic_utc_ms :: int
  ic_utc_text :: string
  ic_local_text :: string
  ic_strptime :: "pyval \<Rightarrow> py_error + int"
  ic_writable :: "string \<Rightarrow> bool"
  ic_send :: "pyval \<Rightarrow> py_error + unit"

definition ic_version :: int where "ic_version = 20171118"

section \<open>Requests and responses\<close>

definition next_id :: "iotcc \<Rightarrow> (iotcc, int) outcome" where
  "next_id s = (let c = (ic_counter s + 1) AND 0xffffff in (Inr (c * 2), s\<lparr>ic_counter := c\<rparr>))"

text \<open>\<^verbatim>\<open>Queue.Queue()\<close> and \<^verbatim>\<open>self._req_dict.update({transaction_id: req})\<close>.\<close>

definition new_request :: "iotcc \<Rightarrow> (iotcc, int \<times> nat) outcome" where
  "new_request =
     bind_e next_id (\<lambda>tid s.
       let q = ic_next_queue s in
       (Inr (tid, q), s\<lparr>ic_next_queue := q + 1, ic_queues := dict_set q [] (ic_queues s),
                        ic_req_dict := dict_set tid q (ic_req_dict s)\<rparr>))"

text \<open>\<^verbatim>\<open>self.comms.send(json.dumps(m))\<close>.\<close>

definition send_json :: "pyval \<Rightarrow> iotcc \<Rightarrow> (iotcc, unit) outcome" where
  "send_json m s =
     (if \<not> json_value m then (Inl TypeError, s)
      else case ic_send s m of
             Inl e \<Rightarrow> (Inl e, s)
           | Inr _ \<Rightarrow> (Inr (), s\<lparr>ic_sent := ic_sent s @ [m]\<rparr>))"

text \<open>\<^verbatim>\<open>_req_dict.get(id)\<close>: a number finds the equal key.\<close>

definition req_key :: "pyval \<Rightarrow> (int, nat) dict \<Rightarrow> int option" where
  "req_key v d = List.find (\<lambda>k. py_eq v (PInt k)) (dict_keys d)"

text \<open>One turn of \<^verbatim>\<open>_dispatch_recvd_msg\<close>; every exception is logged and dropped.\<close>

definition dispatch_recvd_msg :: "pyval option \<Rightarrow> iotcc \<Rightarrow> iotcc" where
  "dispatch_recvd_msg msg s =
     (case msg of
        None \<Rightarrow> s
      | Some j \<Rightarrow>
          (case (py_item j ''type'', py_item j ''transactionID'') of
             (Inr _, Inr tid) \<Rightarrow>
               (case req_key tid (ic_req_dict s) of
                  None \<Rightarrow> s
                | Some k \<Rightarrow>
                    (case dict_get (ic_req_dict s) k of
                       None \<Rightarrow> s
                     | Some q \<Rightarrow>
                         s\<lparr>ic_req_dict := dict_del k (ic_req_dict s),
                           ic_queues := dict_set q
                             ((case dict_get (ic_queues s) q of None \<Rightarrow> [] | Some ms \<Rightarrow> ms) @ [msg]) (ic_queues s)\<rparr>))
           | _ \<Rightarrow> s))"

lemma dispatch_recv [simp]: "ic_recv (dispatch_recvd_msg m s) = ic_recv s"
  by (auto simp: dispatch_recvd_msg_def split: option.splits sum.splits)

text \<open>\<^verbatim>\<open>user_queue.get(True, timeout)\<close>.\<close>

function queue_get :: "nat \<Rightarrow> iotcc \<Rightarrow> (iotcc, pyval option) outcome" where
  "queue_get q s =
     (case dict_get (ic_queues s) q of
        Some (m # rest) \<Rightarrow> (Inr m, s\<lparr>ic_queues := dict_set q rest (ic_queues s)\<rparr>)
      | _ \<Rightarrow>
          (case ic_recv s of
             [] \<Rightarrow> (Inl QueueEmpty, s)
           | m # ms \<Rightarrow> queue_get q (dispatch_recvd_msg m (s\<lparr>ic_recv := ms\<rparr>))))"
  by pat_completeness auto
termination
  by (relation "measure (\<lambda>(q, s). length (ic_recv s))") auto

declare queue_get.simps [simp del]

definition json_loads :: "pyval option \<Rightarrow> py_error + pyval" where
  "json_loads m = (case m of None \<Rightarrow> Inl ValueError | Some j \<Rightarrow> Inr j)"

definition check_version :: "pyval \<Rightarrow> py_error + unit" where
  "check_version j =
     bind_r (py_item j ''version'') (\<lambda>v. if py_eq v (PInt ic_version) then Inr () else Inl GenericException)"

definition handle_response :: "pyval option \<Rightarrow> py_error + bool" where
  "handle_response msg =
     bind_r (json_loads msg) (\<lambda>j.
     bind_r (py_item j ''type'') (\<lambda>_.
     bind_r (check_version j) (\<lambda>_.
     bind_r (py_path j [''body'', ''result'']) (\<lambda>r. Inr (r = PStr ''succeeded'')))))"

section \<open>Messages\<close>

definition entity_body :: "ic_entity \<Rightarrow> (string \<times> pyval) list" where
  "entity_body e = [(''kind'', PStr (ie_type e)), (''id'', PStr (ie_id e)), (''name'', PStr (ie_name e))]"

definition request_msg :: "int \<Rightarrow> string \<Rightarrow> (string \<times> pyval) list \<Rightarrow> pyval" where
  "request_msg msg_id ty body =
     PDict [(''transactionID'', PInt msg_id), (''version'', PInt ic_version), (''type'', PStr ty), (''body'', PDict body)]"

definition registration :: "int \<Rightarrow> ic_entity \<Rightarrow> pyval" where
  "registration msg_id e = request_msg msg_id ''create_or_find_resource_request'' (entity_body e)"

definition relationship :: "int \<Rightarrow> ic_entity \<Rightarrow> ic_entity \<Rightarrow> pyval" where
  "relationship msg_id p c =
     request_msg msg_id ''create_relationship_request''
       [(''parent'', PDict (entity_body p)), (''child'', PDict (entity_body c))]"

definition get_properties_msg :: "int \<Rightarrow> ic_entity \<Rightarrow> pyval" where
  "get_properties_msg msg_id e = request_msg msg_id ''get_properties_request'' (entity_body e)"

definition unregistration :: "int \<Rightarrow> ic_entity \<Rightarrow> pyval" where
  "unregistration msg_id e = request_msg msg_id ''remove_resource_request'' (entity_body e)"

text \<open>\<^verbatim>\<open>_assert_input\<close>: \<^verbatim>\<open>re.match\<close> raises \<open>TypeError\<close> on anything but a string.\<close>

definition input_char :: "char \<Rightarrow> bool" where
  "input_char c = (is_alnum c \<or> is_space c \<or> c \<in> set ''._-'')"

definition assert_input :: "pyval \<Rightarrow> nat \<Rightarrow> py_error + unit" where
  "assert_input v max_length =
     (case v of
        PStr s \<Rightarrow> if \<not> class_match input_char s then Inl ValueError
                  else if \<not> length s \<le> max_length then Inl ValueError else Inr ()
      | _ \<Rightarrow> Inl TypeError)"

primrec property_data :: "(string \<times> pyval) list \<Rightarrow> py_error + pyval list" where
  "property_data [] = Inr []"
| "property_data (p # ps) =
     bind_r (assert_input (PStr (fst p)) 100) (\<lambda>_.
     bind_r (assert_input (snd p) 255) (\<lambda>_.
     bind_r (property_data ps) (\<lambda>rest.
       Inr (PDict [(''propertyKey'', PStr (fst p)), (''propertyValue'', snd p)] # rest))))"

definition properties_msg :: "int \<Rightarrow> ic_entity \<Rightarrow> int \<Rightarrow> (string \<times> pyval) list \<Rightarrow> py_error + pyval" where
  "properties_msg msg_id e timestamp properties =
     bind_r (property_data properties) (\<lambda>ps.
       Inr (request_msg msg_id ''add_properties_request''
              (entity_body e @ [(''timestamp'', PInt timestamp), (''property_data'', PList ps)])))"

section \<open>Files\<close>

text \<open>Writing a JSON text: the file is truncated before \<^verbatim>\<open>json.dump\<close> can fail.\<close>

definition write_json :: "string \<Rightarrow> pyval \<Rightarrow> iotcc \<Rightarrow> (iotcc, unit) outcome" where
  "write_json path v s =
     (if \<not> ic_writable s path then (Inl IOError, s)
      else if json_value v then (Inr (), s\<lparr>ic_files := dict_set path (FJson (json_norm v)) (ic_files s)\<rparr>)
      else (Inl TypeError, s\<lparr>ic_files := dict_set path FBad (ic_files s)\<rparr>))"

definition read_json :: "string \<Rightarrow> iotcc \<Rightarrow> py_error + pyval" where
  "read_json path s =
     (case dict_get (ic_files s) path of
        None \<Rightarrow> Inl IOError | Some FBad \<Rightarrow> Inl ValueError | Some (FJson v) \<Rightarrow> Inr v)"

definition initial_json :: pyval where
  "initial_json =
     PDict [(''iotcc'', PDict
       [(''EdgeSystem'', PDict [(''SystemName'', PStr []), (''EntityType'', PStr []), (''uuid'', PStr []), (''LocalUuid'', PStr [])]),
        (''OGProperties'', PDict [(''OrganizationGroup'', PStr [])]),
        (''Devices'', PList [])])]"

text \<open>\<^verbatim>\<open>_create_iotcc_json\<close>: the handler of the \<open>IOError\<close> adds the exception to a string, which is a
  \<open>TypeError\<close>.\<close>

definition create_iotcc_json :: "string \<Rightarrow> iotcc \<Rightarrow> (iotcc, string) outcome" where
  "create_iotcc_json iotcc_path s =
     (case write_json iotcc_path initial_json s of
        (Inl IOError, s') \<Rightarrow> (Inl TypeError, s')
      | (Inl e, s') \<Rightarrow> (Inl e, s')
      | (Inr _, s') \<Rightarrow> (Inr iotcc_path, s'))"

text \<open>\<^verbatim>\<open>load_json_record\<close> and its retries: the file object is read to its end by the first attempt, so every
  other one finds nothing.\<close>

primrec load_retries :: "nat \<Rightarrow> pyval \<Rightarrow> pyval" where
  "load_retries 0 msg = msg"
| "load_retries (Suc n) msg = (if msg = PStr [] then load_retries n (PStr []) else msg)"

definition load_json_record :: "iotcc \<Rightarrow> pyval" where
  "load_json_record s =
     load_retries (ic_json_load_retry s) (case read_json (ic_json s) s of Inl _ \<Rightarrow> PStr [] | Inr v \<Rightarrow> v)"

text \<open>The loop over the devices of \<^verbatim>\<open>iotcc.json\<close>.\<close>

primrec device_listed :: "pyval \<Rightarrow> string \<Rightarrow> pyval list \<Rightarrow> py_error + bool" where
  "device_listed uuid ty [] = Inr False"
| "device_listed uuid ty (d # ds) =
     bind_r (py_item d ''uuid'') (\<lambda>u.
       if \<not> py_eq u uuid then device_listed uuid ty ds
       else bind_r (py_item d ''EntityType'') (\<lambda>t. if t = PStr ty then Inr True else device_listed uuid ty ds))"

definition py_elems :: "pyval \<Rightarrow> py_error + pyval list" where
  "py_elems v = (case v of PList xs \<Rightarrow> Inr xs | PTuple xs \<Rightarrow> Inr xs | _ \<Rightarrow> Inl TypeError)"

definition add_device :: "string \<Rightarrow> string \<Rightarrow> pyval \<Rightarrow> string \<Rightarrow> pyval \<Rightarrow> py_error + pyval" where
  "add_device ty name uuid local_uuid msg =
     bind_r (py_path msg [''iotcc'', ''Devices'']) (\<lambda>devs.
     bind_r (py_elems devs) (\<lambda>ds.
     bind_r (device_listed uuid ty ds) (\<lambda>found.
       if found then Inr msg
       else py_set_path [''iotcc'', ''Devices'']
              (PList (ds @ [PDict [(''DeviceName'', PStr name), (''uuid'', uuid), (''EntityType'', PStr ty),
                                   (''LocalUuid'', PStr local_uuid)]])) msg)))"

definition set_edge_system :: "string \<Rightarrow> string \<Rightarrow> pyval \<Rightarrow> string \<Rightarrow> pyval \<Rightarrow> py_error + pyval" where
  "set_edge_system ty name uuid local_uuid msg =
     bind_r (py_set_path [''iotcc'', ''EdgeSystem'', ''SystemName''] (PStr name) msg) (\<lambda>m1.
     bind_r (py_set_path [''iotcc'', ''EdgeSystem'', ''uuid''] uuid m1) (\<lambda>m2.
     bind_r (py_set_path [''iotcc'', ''EdgeSystem'', ''EntityType''] (PStr ty) m2) (\<lambda>m3.
       py_set_path [''iotcc'', ''EdgeSystem'', ''LocalUuid''] (PStr local_uuid) m3)))"

definition store_reg_entity_details ::
  "string \<Rightarrow> string \<Rightarrow> pyval \<Rightarrow> string \<Rightarrow> iotcc \<Rightarrow> (iotcc, unit) outcome" where
  "store_reg_entity_details ty name uuid local_uuid s =
     (if ic_json s = [] then (Inr (), s)
      else if \<not> dict_has (ic_files s) (ic_json s) then (Inr (), s)
      else
        let msg = load_json_record s in
        if msg = PStr [] then (Inr (), s)
        else
          case (if ty = ''HelixGateway'' then set_edge_system ty name uuid local_uuid msg
                else add_device ty name uuid local_uuid msg) of
            Inl e \<Rightarrow> (Inl e, s)
          | Inr msg' \<Rightarrow> write_json (ic_json s) msg' s)"

primrec remove_device :: "pyval \<Rightarrow> pyval list \<Rightarrow> py_error + pyval list" where
  "remove_device uuid [] = Inr []"
| "remove_device uuid (d # ds) =
     bind_r (py_item d ''uuid'') (\<lambda>u.
       if py_eq u uuid then Inr ds else bind_r (remove_device uuid ds) (\<lambda>ds'. Inr (d # ds')))"

text \<open>\<^verbatim>\<open>_remove_reg_entity_details\<close>: when the file cannot be opened, the local variable is unbound.\<close>

definition remove_reg_entity_details :: "string \<Rightarrow> pyval \<Rightarrow> iotcc \<Rightarrow> (iotcc, unit) outcome" where
  "remove_reg_entity_details name uuid s =
     (if ic_json s = [] then (Inr (), s)
      else case read_json (ic_json s) s of
        Inl IOError \<Rightarrow> (Inl NameError, s)
      | Inl e \<Rightarrow> (Inl e, s)
      | Inr msg \<Rightarrow>
          (case bind_r (py_path msg [''iotcc'', ''EdgeSystem'', ''SystemName'']) (\<lambda>n.
                  if n \<noteq> PStr name then Inr False
                  else bind_r (py_path msg [''iotcc'', ''EdgeSystem'', ''uuid'']) (\<lambda>u. Inr (py_eq u uuid))) of
             Inl e \<Rightarrow> (Inl e, s)
           | Inr is_edge \<Rightarrow>
               (case (if is_edge then py_del_path [''iotcc'', ''EdgeSystem''] msg
                      else bind_r (py_path msg [''iotcc'', ''Devices'']) (\<lambda>devs.
                           bind_r (py_elems devs) (\<lambda>ds.
                           bind_r (remove_device uuid ds) (\<lambda>ds'. py_set_path [''iotcc'', ''Devices''] (PList ds') msg)))) of
                  Inl e \<Rightarrow> (Inl e, s)
                | Inr msg' \<Rightarrow> write_json (ic_json s) msg' s)))"

text \<open>\<^verbatim>\<open>path + '/' + uuid + '.json'\<close>: \<open>TypeError\<close> unless both are strings.\<close>

definition uuid_path :: "string option \<Rightarrow> pyval \<Rightarrow> py_error + string" where
  "uuid_path dir uuid =
     (case (dir, uuid) of (Some d, PStr u) \<Rightarrow> Inr (d @ ''/'' @ u @ ''.json'') | _ \<Rightarrow> Inl TypeError)"

definition hidden_keys :: "string list" where
  "hidden_keys = [''entity type'', ''name'', ''device type'', ''Entity_Timestamp'']"

definition discovery_msg :: "(string \<times> pyval) list option \<Rightarrow> pyval list \<Rightarrow> string \<Rightarrow> bool \<Rightarrow> pyval" where
  "discovery_msg prop_dict attribute_list now remove =
     PDict [(''discovery'', PDict
       [(''remove'', PBool remove),
        (''attributes'', PList (attribute_list @
           (case prop_dict of None \<Rightarrow> []
            | Some d \<Rightarrow> map (\<lambda>p. PDict [p]) (filter (\<lambda>p. fst p \<notin> set hidden_keys) d)) @
           [PDict [(''LastSeenTimestamp'', PStr now)]]))])]"

text \<open>\<^verbatim>\<open>_write_entity_json_file\<close>, with the same slip in the handler of the \<open>IOError\<close>.\<close>

definition write_entity_json_file ::
  "(string \<times> pyval) list option \<Rightarrow> pyval list \<Rightarrow> pyval \<Rightarrow> bool \<Rightarrow> iotcc \<Rightarrow> (iotcc, unit) outcome" where
  "write_entity_json_file prop_dict attribute_list uuid remove s =
     (case uuid_path (ic_dev_file_path s) uuid of
        Inl e \<Rightarrow> (Inl e, s)
      | Inr path \<Rightarrow>
          (case write_json path (discovery_msg prop_dict attribute_list (ic_utc_text s) remove) s of
             (Inl IOError, s') \<Rightarrow> (Inl TypeError, s')
           | r \<Rightarrow> r))"

definition store_edge_system_info ::
  "pyval \<Rightarrow> string \<Rightarrow> (string \<times> pyval) list option \<Rightarrow> bool \<Rightarrow> iotcc \<Rightarrow> (iotcc, unit) outcome" where
  "store_edge_system_info uuid name prop_dict remove =
     write_entity_json_file prop_dict [PDict [(''edge system name'', PStr name)]] uuid remove"

definition store_device_info ::
  "pyval \<Rightarrow> string \<Rightarrow> string option \<Rightarrow> (string \<times> pyval) list option \<Rightarrow> bool \<Rightarrow> iotcc \<Rightarrow> (iotcc, unit) outcome" where
  "store_device_info uuid name dev_type prop_dict remove =
     write_entity_json_file prop_dict
       [PDict [(''IoTDeviceType'', case dev_type of None \<Rightarrow> PNone | Some t \<Rightarrow> PStr t)],
        PDict [(''IoTDeviceName'', PStr name)]] uuid remove"

text \<open>\<^verbatim>\<open>_write_entity_file\<close> adds the time to the dictionary it is given (the result here) and swallows every
  exception of the write; \<^verbatim>\<open>_read_entity_file\<close> gives \<^verbatim>\<open>None\<close> for whatever it can not read.\<close>

definition write_entity_file ::
  "(string \<times> pyval) list \<Rightarrow> pyval \<Rightarrow> iotcc \<Rightarrow> (iotcc, (string \<times> pyval) list) outcome" where
  "write_entity_file prop_dict uuid s =
     (case uuid_path (ic_entity_file_path s) uuid of
        Inl e \<Rightarrow> (Inl e, s)
      | Inr path \<Rightarrow>
          (let d = dict_set ''Entity_Timestamp'' (PStr (ic_local_text s)) prop_dict
           in (Inr d, snd (write_json path (PDict d) s))))"

definition read_entity_file :: "pyval \<Rightarrow> iotcc \<Rightarrow> py_error + pyval" where
  "read_entity_file uuid s =
     bind_r (uuid_path (ic_entity_file_path s) uuid)
       (\<lambda>path. Inr (case read_json path s of Inl _ \<Rightarrow> PNone | Inr v \<Rightarrow> v))"

text \<open>\<^verbatim>\<open>_merge_prop_dict_list\<close>: the service sends a list of dictionaries; for anything else the model
  raises.\<close>

primrec update_all :: "pyval list \<Rightarrow> (string \<times> pyval) list \<Rightarrow> py_error + (string \<times> pyval) list" where
  "update_all [] d = Inr d"
| "update_all (item # rest) d =
     (case item of PDict e \<Rightarrow> update_all rest (dict_update d e) | _ \<Rightarrow> Inl TypeError)"

definition merge_prop_dict_list :: "pyval \<Rightarrow> pyval \<Rightarrow> py_error + pyval" where
  "merge_prop_dict_list prop_dict prop_list =
     (if prop_list = PNone then Inr prop_dict
      else bind_r (py_elems prop_list) (\<lambda>items.
             case (if prop_dict = PNone then PDict [] else prop_dict) of
               PDict d \<Rightarrow> bind_r (update_all items d) (\<lambda>d'. Inr (PDict d'))
             | v \<Rightarrow> if items = [] then Inr v else Inl AttributeError))"

end
