(* ===== verification/Liota_Config.thy ===== *)
theory Liota_Config
  imports Py_Values Package_Files
begin

text \<open>
  The utility functions (\<^verbatim>\<open>src/liota/lib/utilities/utility.py\<close>) that look up the configuration file, read
  settings, create directories and named pipes and name resources, and the start of the package manager
  (\<^verbatim>\<open>initialize\<close> of \<^verbatim>\<open>src/liota/core/package_manager.py\<close>) that uses them. The operating system is a
  record of directories, named pipes and other files; \<open>os_create\<close> says which paths may be created.
  A configuration file is what \<^verbatim>\<open>ConfigParser\<close> reads from it.
\<close>

section \<open>Operating system\<close>

record os =
  os_dirs :: "string list"
  os_fifos :: "string list"
  os_plain :: "string list"
  os_create :: "string \<Rightarrow> bool"
  os_list :: "string \<Rightarrow> bool"                        \<comment> \<open>\<^verbatim>\<open>os.listdir\<close> succeeds\<close>
  os_cwd :: string

definition os_isdir :: "string \<Rightarrow> 'a os_scheme \<Rightarrow> bool" where
  "os_isdir p s = (p \<in> set (os_dirs s))"

definition os_isfifo :: "string \<Rightarrow> 'a os_scheme \<Rightarrow> bool" where
  "os_isfifo p s = (p \<in> set (os_fifos s))"

definition os_exists :: "string \<Rightarrow> 'a os_scheme \<Rightarrow> bool" where
  "os_exists p s = (os_isdir p s \<or> os_isfifo p s \<or> p \<in> set (os_plain s))"

text \<open>\<^verbatim>\<open>os.path.dirname\<close>: up to the last slash, without slashes at the end unless there is nothing else.\<close>

definition rstrip_slash :: "string \<Rightarrow> string" where
  "rstrip_slash s = rev (dropWhile (\<lambda>c. c = CHR ''/'') (rev s))"

definition dirname :: "string \<Rightarrow> string" where
  "dirname p = (let h = rev (dropWhile (\<lambda>c. c \<noteq> CHR ''/'') (rev p)) in if rstrip_slash h = [] then h else rstrip_slash h)"

lemma length_rstrip_slash: "length (rstrip_slash s) \<le> length s"
  using length_dropWhile_le [of "\<lambda>c. c = CHR ''/''" "rev s"] by (simp add: rstrip_slash_def)

lemma length_dirname: "length (dirname p) \<le> length p"
  using length_dropWhile_le [of "\<lambda>c. c \<noteq> CHR ''/''" "rev p"]
    length_rstrip_slash [of "rev (dropWhile (\<lambda>c. c \<noteq> CHR ''/'') (rev p))"]
  by (simp add: dirname_def Let_def)

text \<open>A path and the directories above it.\<close>

function ancestors :: "string \<Rightarrow> string list" where
  "ancestors p = p # (if length (dirname p) < length p \<and> dirname p \<noteq> [] then ancestors (dirname p) else [])"
  by pat_completeness auto
termination by (relation "measure length") auto

declare ancestors.simps [simp del]

text \<open>\<^verbatim>\<open>os.makedirs\<close> fails when the path exists; \<^verbatim>\<open>os.mkfifo\<close> needs the directory.\<close>

definition makedirs :: "string \<Rightarrow> 'a os_scheme \<Rightarrow> ('a os_scheme, unit) outcome" where
  "makedirs p s =
     (if os_exists p s \<or> \<not> os_create s p then (Inl OSError, s)
      else (Inr (), s\<lparr>os_dirs := os_dirs s @ filter (\<lambda>d. \<not> os_isdir d s) (ancestors p)\<rparr>))"

definition mkfifo :: "string \<Rightarrow> 'a os_scheme \<Rightarrow> ('a os_scheme, unit) outcome" where
  "mkfifo p s =
     (if os_exists p s \<or> \<not> os_isdir (dirname p) s \<or> \<not> os_create s p then (Inl OSError, s)
      else (Inr (), s\<lparr>os_fifos := os_fifos s @ [p]\<rparr>))"

definition mkdir :: "string \<Rightarrow> 'a os_scheme \<Rightarrow> ('a os_scheme, unit) outcome" where
  "mkdir p s =
     (if os_exists p s then (Inr (), s)
      else case makedirs p s of
             (Inl e, s') \<Rightarrow> if os_exists p s' \<and> os_isdir p s' then (Inr (), s') else (Inl e, s')
           | (Inr _, s') \<Rightarrow> (Inr (), s'))"

text \<open>\<^verbatim>\<open>DiscUtilities.validate_named_pipe\<close>.\<close>

definition validate_named_pipe :: "pyval \<Rightarrow> 'a os_scheme \<Rightarrow> ('a os_scheme, bool) outcome" where
  "validate_named_pipe pipe s =
     (case pipe of
        PStr p \<Rightarrow>
          if os_exists p s then (if os_isfifo p s then (Inr True, s) else (Inr False, s))
          else
            (case (if os_isdir (dirname p) s then (Inr (), s) else makedirs (dirname p) s) of
               (Inl _, s1) \<Rightarrow> (Inr False, s1)
             | (Inr _, s1) \<Rightarrow>
                 (case mkfifo p s1 of
                    (Inl _, s2) \<Rightarrow> (Inr False, s2)
                  | (Inr _, s2) \<Rightarrow> if os_isfifo p s2 then (Inr True, s2) else (Inl AssertionError, s2)))
      | _ \<Rightarrow> (Inl AssertionError, s))"

section \<open>The configuration file\<close>

text \<open>What \<^verbatim>\<open>RawConfigParser.read\<close> makes of a path: it skips a file it can not open and raises
  \<open>ConfigError\<close> for a malformed one. Otherwise the sections with their options in the order of the file.\<close>

type_synonym conf = "(string \<times> (string \<times> string) list) list"

datatype conf_file = Conf_Unreadable | Conf_Malformed | Conf conf

record host = os +
  h_home :: string
  h_environ :: "string option"                       \<comment> \<open>the variable \<^verbatim>\<open>LIOTA_CONF\<close>\<close>
  h_conf :: "string \<Rightarrow> conf_file"
  path_liota_config :: string                        \<comment> \<open>class attribute, found once\<close>

definition path_join :: "string \<Rightarrow> string \<Rightarrow> string" where
  "path_join a b = (if startswith b ''/'' then b else if a = [] \<or> endswith a ''/'' then a @ b else a @ ''/'' @ b)"

definition syswide_path :: string where "syswide_path = ''/etc/liota/''"

primrec find_path_in :: "string option list \<Rightarrow> 'a host_scheme \<Rightarrow> 'a host_scheme" where
  "find_path_in [] h = h"
| "find_path_in (loc # locs) h =
     (case loc of
        None \<Rightarrow> find_path_in locs h
      | Some l \<Rightarrow>
          (let path = path_join l ''liota.conf''
           in if os_exists path h then h\<lparr>path_liota_config := path\<rparr> else find_path_in locs h))"

definition find_path :: "'a host_scheme \<Rightarrow> 'a host_scheme" where
  "find_path h = find_path_in [Some ''.'', Some (h_home h), h_environ h, Some syswide_path] h"

definition LiotaConfigPath :: "'a host_scheme \<Rightarrow> 'a host_scheme" where
  "LiotaConfigPath h = (if path_liota_config h = [] then find_path h else h)"

definition get_liota_fullpath :: "'a host_scheme \<Rightarrow> string" where
  "get_liota_fullpath h = path_liota_config h"

text \<open>Option names go through \<^verbatim>\<open>optionxform\<close> (lower case unless the caller changes it); the section
  \<^verbatim>\<open>DEFAULT\<close> is below every other one, and is the only one that need not be there.\<close>

definition lower_char :: "char \<Rightarrow> char" where
  "lower_char c = (if 65 \<le> (of_char c :: nat) \<and> of_char c \<le> (90::nat) then char_of ((of_char c :: nat) + 32) else c)"

definition lower :: "string \<Rightarrow> string" where
  "lower s = map lower_char s"

definition raw_options :: "(string \<Rightarrow> string) \<Rightarrow> conf \<Rightarrow> string \<Rightarrow> (string \<times> string) list" where
  "raw_options xform c sec =
     dict_update [] (map (\<lambda>p. (xform (fst p), snd p)) (concat (map snd (filter (\<lambda>x. fst x = sec) c))))"

definition config_items :: "(string \<Rightarrow> string) \<Rightarrow> conf \<Rightarrow> string \<Rightarrow> py_error + (string \<times> string) list" where
  "config_items xform c sec =
     (if sec \<noteq> ''DEFAULT'' \<and> \<not> dict_has c sec then Inl ConfigError
      else Inr (dict_update (raw_options xform c ''DEFAULT'') (raw_options xform c sec)))"

definition config_get :: "(string \<Rightarrow> string) \<Rightarrow> conf \<Rightarrow> string \<Rightarrow> string \<Rightarrow> py_error + string" where
  "config_get xform c sec name =
     bind_r (config_items xform c sec) (\<lambda>os.
       case dict_get os (xform name) of None \<Rightarrow> Inl ConfigError | Some v \<Rightarrow> Inr v)"

text \<open>\<^verbatim>\<open>read_liota_config\<close>: without a file, or with one that can not be opened, the local variable is unbound at the
  \<^verbatim>\<open>return\<close>. Only \<^verbatim>\<open>ParsingError\<close> of \<^verbatim>\<open>get\<close> is caught, which \<^verbatim>\<open>get\<close> does not raise.\<close>

definition read_liota_config :: "string \<Rightarrow> string \<Rightarrow> 'a host_scheme \<Rightarrow> ('a host_scheme, string) outcome" where
  "read_liota_config sec name h0 =
     (let h = LiotaConfigPath h0 in
      if get_liota_fullpath h = [] then (Inl NameError, h)
      else case h_conf h (get_liota_fullpath h) of
             Conf_Unreadable \<Rightarrow> (Inl NameError, h)
           | Conf_Malformed \<Rightarrow> (Inl ConfigError, h)
           | Conf c \<Rightarrow> (config_get lower c sec name, h))"

text \<open>\<^verbatim>\<open>read_user_config\<close>: names keep their case; a file that is not there is an empty one.\<close>

primrec literal_values ::
  "(string \<Rightarrow> py_error + pyval) \<Rightarrow> (string \<times> string) list \<Rightarrow> py_error + (string \<times> pyval) list" where
  "literal_values literal_eval [] = Inr []"
| "literal_values literal_eval (p # ps) =
     bind_r (literal_eval (snd p)) (\<lambda>v. bind_r (literal_values literal_eval ps) (\<lambda>rest. Inr ((fst p, v) # rest)))"

definition read_user_config ::
  "(string \<Rightarrow> py_error + pyval) \<Rightarrow> string \<Rightarrow> 'a host_scheme \<Rightarrow> py_error + (string \<times> pyval) list" where
  "read_user_config literal_eval path h =
     (case h_conf h path of
        Conf_Malformed \<Rightarrow> Inl ConfigError
      | Conf_Unreadable \<Rightarrow> Inr []
      | Conf c \<Rightarrow> bind_r (config_items (\<lambda>n. n) c ''DEFAULT'') (literal_values literal_eval))"

text \<open>\<^verbatim>\<open>setup_logging\<close>: an \<open>IOError\<close> is reported, but then \<^verbatim>\<open>log_path\<close> is used without a value. \<open>load\<close> is \<^verbatim>\<open>json.load\<close> and
  \<^verbatim>\<open>dictConfig\<close> of a file.\<close>

datatype log_setup = Log_config string | Log_basic | Log_unset

definition setup_logging ::
  "(string \<Rightarrow> py_error + unit) \<Rightarrow> 'a host_scheme \<Rightarrow> ('a host_scheme, log_setup) outcome" where
  "setup_logging load h =
     (if get_liota_fullpath h = [] then (Inr Log_unset, h)
      else case h_conf h (get_liota_fullpath h) of
             Conf_Unreadable \<Rightarrow> (Inl NameError, h)
           | Conf_Malformed \<Rightarrow> (Inl ConfigError, h)
           | Conf c \<Rightarrow>
               (case bind_r (config_get lower c ''LOG_PATH'' ''log_path'') (\<lambda>p.
                       bind_r (config_get lower c ''LOG_CFG'' ''json_path'') (\<lambda>j. Inr (p, j))) of
                  Inl e \<Rightarrow> (Inl e, h)
                | Inr (log_path, log_cfg) \<Rightarrow>
                    then_e (mkdir log_path)
                     (\<lambda>h'. if os_exists log_cfg h'
                           then (bind_r (load log_cfg) (\<lambda>_. Inr (Log_config log_cfg)), h') else (Inr Log_basic, h')) h))"

text \<open>The functions that run a shell command, with its output as argument, and the clock with microseconds since 1970.\<close>

definition rstrip :: "string \<Rightarrow> string" where
  "rstrip s = rev (dropWhile is_space (rev s))"

definition get_default_network_interface :: "py_error + string \<Rightarrow> py_error + string" where
  "get_default_network_interface output = bind_r output (\<lambda>out. Inr (rstrip out))"

definition get_disk_name :: "py_error + string \<Rightarrow> py_error + string" where
  "get_disk_name output = bind_r output (\<lambda>out. Inr (rstrip out))"

definition getUTCmillis :: "int \<Rightarrow> int" where
  "getUTCmillis micros = micros div 1000"

text \<open>"Unblock previous writers", the beginning of every thread that reads a named pipe: what is in the pipe is read and dropped.
  \<open>None\<close>: the call waits, because a writer keeps the pipe open.\<close>

datatype os_reply = Os_data string | Os_again | Os_error

primrec drain_reads :: "os_reply list \<Rightarrow> (py_error + unit) option" where
  "drain_reads [] = None"
| "drain_reads (r # rs) =
     (case r of
        Os_data buf \<Rightarrow> if buf = [] then Some (Inr ()) else drain_reads rs
      | Os_again \<Rightarrow> Some (Inr ())
      | Os_error \<Rightarrow> Some (Inl OSError))"

definition unblock_writers :: "os_reply \<Rightarrow> os_reply list \<Rightarrow> (py_error + unit) option" where
  "unblock_writers opened reads =
     (case opened of Os_data _ \<Rightarrow> drain_reads reads | Os_again \<Rightarrow> Some (Inr ()) | Os_error \<Rightarrow> Some (Inl OSError))"

text \<open>Draining ends as soon as all writers have closed the pipe, and only then.\<close>

lemma drain_reads_None: "drain_reads rs = None \<longleftrightarrow> (\<forall>r\<in>set rs. \<exists>buf. r = Os_data buf \<and> buf \<noteq> [])"
  by (induction rs) (auto split: os_reply.split)

text \<open>\<^verbatim>\<open>_get_file_storage_path\<close> of \<^verbatim>\<open>iotcc.py\<close>: the module does not import \<^verbatim>\<open>errno\<close>, which its handler of the
  \<open>OSError\<close> uses.\<close>

definition get_file_storage_path :: "string \<Rightarrow> 'a host_scheme \<Rightarrow> ('a host_scheme, string option) outcome" where
  "get_file_storage_path name h0 =
     (let h = LiotaConfigPath h0 in
      if get_liota_fullpath h = [] then (Inr None, h)
      else case h_conf h (get_liota_fullpath h) of
             Conf_Unreadable \<Rightarrow> (Inr None, h)
           | Conf_Malformed \<Rightarrow> (Inl ConfigError, h)
           | Conf c \<Rightarrow>
               (case config_get lower c ''IOTCC_PATH'' name of
                  Inl e \<Rightarrow> (Inl e, h)
                | Inr path \<Rightarrow>
                    if os_exists path h then (Inr (Some path), h)
                    else (case makedirs path h of
                            (Inl _, h') \<Rightarrow> (Inl NameError, h')
                          | (Inr _, h') \<Rightarrow> (Inr (Some path), h'))))"

section \<open>Names of resources\<close>

text \<open>The hardware address as \<^verbatim>\<open>uuid.getnode()\<close> gives it at the first call and at the retry; the seeded generator
  and the hash functions of the library are arguments.\<close>

record uuid_env =
  node_first :: nat
  node_retry :: nat
  seeded_random :: nat
  md5_hex :: "string \<Rightarrow> string"
  uuid5 :: "string \<Rightarrow> string \<Rightarrow> string"
  namespace_url :: string
  system_uuid :: string                              \<comment> \<open>class attribute, empty at first\<close>

unbundle bit_operations_syntax

definition random_mac :: "nat \<Rightarrow> bool" where
  "random_mac mac = ((drop_bit 40 mac) mod 2 \<noteq> 0)"

definition getMacAddrIfaceHash :: "uuid_env \<Rightarrow> string" where
  "getMacAddrIfaceHash u =
     md5_hex u (str_nat
       (if random_mac (node_first u)
        then (if random_mac (node_retry u) then seeded_random u else node_retry u)
        else node_first u))"

definition set_system_uuid :: "uuid_env \<Rightarrow> uuid_env" where
  "set_system_uuid u =
     u\<lparr>system_uuid := uuid5 u (uuid5 u (namespace_url u) ''https://github.com/vmware/liota'') (getMacAddrIfaceHash u)\<rparr>"

definition get_system_uuid :: "uuid_env \<Rightarrow> string \<times> uuid_env" where
  "get_system_uuid u =
     (let u' = (if system_uuid u = [] then set_system_uuid u else u) in (system_uuid u', u'))"

definition get_uuid :: "string \<Rightarrow> uuid_env \<Rightarrow> string \<times> uuid_env" where
  "get_uuid resource_name u = (case get_system_uuid u of (sys, u') \<Rightarrow> (uuid5 u' sys resource_name, u'))"

section \<open>Starting the package manager\<close>

text \<open>The globals of the module; threads by whether they exist and are alive.\<close>

record boot = host +
  is_package_manager_initialized :: bool
  b_package_path :: "string option"
  b_messenger_pipe :: "string option"
  b_startup_list :: "string option"
  b_queue :: bool
  b_lock :: bool
  b_package_thread :: "bool option"
  b_messenger :: bool
  b_thread_starts :: bool                            \<comment> \<open>\<^verbatim>\<open>PackageThread\<close> is alive after its start\<close>

text \<open>The settings read when the module is imported.\<close>

definition import_settings :: "boot \<Rightarrow> (boot, unit) outcome" where
  "import_settings =
     bind_e (read_liota_config ''PKG_CFG'' ''pkg_path'') (\<lambda>p.
     bind_e (read_liota_config ''PKG_CFG'' ''pkg_msg_pipe'') (\<lambda>m.
     bind_e (read_liota_config ''PKG_CFG'' ''pkg_list'') (\<lambda>l s.
       (Inr (), s\<lparr>b_package_path := Some (abspath (os_cwd s) p), b_messenger_pipe := Some (abspath (os_cwd s) m),
                  b_startup_list := Some (abspath (os_cwd s) l)\<rparr>))))"

text \<open>The two checks of \<^verbatim>\<open>initialize\<close>: \<open>Inr False\<close> is the early return.\<close>

definition validate_package_path :: "boot \<Rightarrow> (boot, bool) outcome" where
  "validate_package_path s =
     (case b_package_path s of
        None \<Rightarrow> (Inl AssertionError, s)
      | Some p \<Rightarrow>
          if os_isdir p s then
            (if os_list s p then (Inr True, s) else (Inr False, s\<lparr>b_package_path := None\<rparr>))
          else
            (case makedirs p s of
               (Inl _, s') \<Rightarrow> (Inr False, s'\<lparr>b_package_path := None\<rparr>)
             | (Inr _, s') \<Rightarrow> (Inr True, s')))"

definition validate_messenger_pipe :: "boot \<Rightarrow> (boot, bool) outcome" where
  "validate_messenger_pipe s =
     (case b_messenger_pipe s of
        None \<Rightarrow> (Inl AssertionError, s)
      | Some p \<Rightarrow>
          (case validate_named_pipe (PStr p) s of
             (Inl e, s') \<Rightarrow> (Inl e, s')
           | (Inr ok, s') \<Rightarrow> (Inr ok, if ok then s' else s'\<lparr>b_messenger_pipe := None\<rparr>)))"

definition start_package_manager :: "boot \<Rightarrow> boot" where
  "start_package_manager s =
     (let s1 = s\<lparr>b_queue := True, b_lock := True\<rparr>;
          s2 = (if b_package_thread s1 = None then s1\<lparr>b_package_thread := Some (b_thread_starts s1)\<rparr> else s1);
          s3 = (if \<not> b_messenger s2 \<and> b_package_thread s2 = Some True then s2\<lparr>b_messenger := True\<rparr> else s2)
      in s3\<lparr>is_package_manager_initialized := True\<rparr>)"

definition pm_initialize :: "boot \<Rightarrow> (boot, unit) outcome" where
  "pm_initialize s =
     (if is_package_manager_initialized s then (Inr (), s)
      else case validate_package_path s of
             (Inl e, s1) \<Rightarrow> (Inl e, s1)
           | (Inr False, s1) \<Rightarrow> (Inr (), s1)
           | (Inr True, s1) \<Rightarrow>
               (case validate_messenger_pipe s1 of
                  (Inl e, s2) \<Rightarrow> (Inl e, s2)
                | (Inr False, s2) \<Rightarrow> (Inr (), s2)
                | (Inr True, s2) \<Rightarrow>
                    if b_package_path s2 = None then (Inr (), s2) else (Inr (), start_package_manager s2)))"

section \<open>Directories and pipes\<close>

lemma ancestors_self [simp]: "p \<in> set (ancestors p)"
  by (subst ancestors.simps) simp

lemma makedirs_ok: "makedirs p s = (Inr (), s') \<Longrightarrow> os_isdir p s'"
  by (auto simp: makedirs_def os_isdir_def split: if_splits)

lemma mkdir_ok: "mkdir p s = (Inr (), s') \<Longrightarrow> os_exists p s'"
  by (auto simp: mkdir_def os_exists_def split: if_splits prod.splits sum.splits dest: makedirs_ok)

text \<open>The pipe is there afterwards if the answer is \<^verbatim>\<open>True\<close>, and the closing assertion never fails.\<close>

lemma validate_named_pipe_result:
  "\<exists>ok. fst (validate_named_pipe (PStr p) s) = Inr ok \<and> (ok \<longrightarrow> os_isfifo p (snd (validate_named_pipe (PStr p) s)))"
  by (auto simp: validate_named_pipe_def mkfifo_def os_isfifo_def split: prod.splits sum.splits)

lemma validate_named_pipe_keeps:
  "os_isfifo q s \<Longrightarrow> os_isfifo q (snd (validate_named_pipe v s))"
  "os_isdir q s \<Longrightarrow> os_isdir q (snd (validate_named_pipe v s))"
  by (auto simp: validate_named_pipe_def mkfifo_def makedirs_def os_isfifo_def os_isdir_def
      split: pyval.splits prod.splits sum.splits if_splits)

section \<open>Finding and reading settings\<close>

text \<open>The search order of the documentation: working directory, home, environment, system.\<close>

definition config_candidates :: "'a host_scheme \<Rightarrow> string list" where
  "config_candidates h =
     map (\<lambda>l. path_join l ''liota.conf'')
       ([''.'', h_home h] @ (case h_environ h of None \<Rightarrow> [] | Some l \<Rightarrow> [l]) @ [syswide_path])"

lemma find_path_candidates:
  "find_path h =
     (case List.find (\<lambda>p. os_exists p h) (config_candidates h) of
        None \<Rightarrow> h | Some p \<Rightarrow> h\<lparr>path_liota_config := p\<rparr>)"
  by (auto simp: find_path_def config_candidates_def Let_def split: option.splits)

lemma candidates_nonempty: "p \<in> set (config_candidates h) \<Longrightarrow> p \<noteq> []"
  by (auto simp: config_candidates_def path_join_def startswith_def split: option.splits if_splits)

text \<open>A path that was found stays: later calls neither search nor change anything.\<close>

lemma config_path_sticky:
  assumes "path_liota_config (LiotaConfigPath h) \<noteq> []"
  shows "LiotaConfigPath (LiotaConfigPath h) = LiotaConfigPath h"
  using assms by (simp add: LiotaConfigPath_def)

lemma read_liota_config_snd: "snd (read_liota_config sec name h) = LiotaConfigPath h"
  by (simp add: read_liota_config_def Let_def split: conf_file.splits)

lemma read_liota_config_missing:
  assumes "path_liota_config h = []" "\<forall>p\<in>set (config_candidates h). \<not> os_exists p h"
  shows "read_liota_config sec name h = (Inl NameError, h)"
proof -
  have "List.find (\<lambda>p. os_exists p h) (config_candidates h) = None" using assms(2) by (simp add: find_None_iff)
  then have "LiotaConfigPath h = h" using assms(1) by (simp add: LiotaConfigPath_def find_path_candidates)
  with assms(1) show ?thesis by (simp add: read_liota_config_def get_liota_fullpath_def)
qed

lemma config_get_section:
  assumes "dict_get c sec = Some os" "distinct (map fst c)" "dict_ok os" "sec \<noteq> ''DEFAULT''"
    "\<forall>n\<in>set (dict_keys os). xform n = n" "dict_get os (xform name) = Some v"
  shows "config_get xform c sec name = Inr v"
proof -
  have f: "filter (\<lambda>x. fst x = sec) c = [(sec, os)]" using assms(1,2)
  proof (induction c)
    case (Cons a c)
    then show ?case
      by (cases a) (auto simp: filter_empty_conv image_iff split: if_splits)
  qed simp
  have "map (\<lambda>p. (xform (fst p), snd p)) os = os" using assms(5) by (intro map_idI) auto
  then have r: "raw_options xform c sec = dict_update [] os" using f by (simp add: raw_options_def)
  have "dict_has c sec" using assms(1) by (simp add: dict_has_iff)
  moreover have "dict_ok (dict_update [] os)" by (rule dict_ok_update) simp
  ultimately show ?thesis using assms(3,4,6) r
    by (simp add: config_get_def config_items_def dict_get_update)
qed

section \<open>Names\<close>

lemma get_uuid_stable:
  assumes "system_uuid (snd (get_uuid a u)) \<noteq> []"
  shows "get_uuid b (snd (get_uuid a u)) = (uuid5 u (system_uuid (snd (get_uuid a u))) b, snd (get_uuid a u))"
  using assms by (auto simp: get_uuid_def get_system_uuid_def set_system_uuid_def Let_def)

section \<open>The package manager after its start\<close>

lemma validate_messenger_pipe_True:
  assumes "validate_messenger_pipe s = (Inr True, s')"
  shows "\<exists>p. b_messenger_pipe s' = Some p \<and> os_isfifo p s'" "b_package_path s' = b_package_path s"
    "os_isdir q s \<Longrightarrow> os_isdir q s'"
proof -
  obtain p where p: "b_messenger_pipe s = Some p" using assms by (auto simp: validate_messenger_pipe_def split: option.splits)
  with assms have v: "validate_named_pipe (PStr p) s = (Inr True, s')"
    by (auto simp: validate_messenger_pipe_def split: prod.splits sum.splits)
  have "b_messenger_pipe s' = b_messenger_pipe s" and b: "b_package_path s' = b_package_path s"
    using v by (auto simp: validate_named_pipe_def mkfifo_def makedirs_def split: if_splits prod.splits sum.splits)
  with p v validate_named_pipe_result [of p s] show "\<exists>p. b_messenger_pipe s' = Some p \<and> os_isfifo p s'" by auto
  show "b_package_path s' = b_package_path s" by (rule b)
  show "os_isdir q s \<Longrightarrow> os_isdir q s'" using validate_named_pipe_keeps(2) [of q s "PStr p"] v by simp
qed

lemma validate_package_path_True:
  assumes "validate_package_path s = (Inr True, s')"
  shows "\<exists>p. b_package_path s' = Some p \<and> os_isdir p s'"
proof -
  obtain p where p: "b_package_path s = Some p" using assms by (auto simp: validate_package_path_def split: option.splits)
  show ?thesis
  proof (cases "os_isdir p s")
    case True
    with assms p show ?thesis by (auto simp: validate_package_path_def split: if_splits)
  next
    case False
    with assms p have m: "makedirs p s = (Inr (), s')"
      by (auto simp: validate_package_path_def split: prod.splits sum.splits)
    then have "b_package_path s' = Some p" using p by (auto simp: makedirs_def split: if_splits)
    with makedirs_ok [OF m] show ?thesis by blast
  qed
qed

text \<open>The flag is set exactly by the run that passes both checks, and then the directory and the pipe are there.\<close>

lemma pm_initialize_ready:
  assumes "pm_initialize s = (Inr (), s')" "\<not> is_package_manager_initialized s" "is_package_manager_initialized s'"
  shows "(\<exists>p. b_package_path s' = Some p \<and> os_isdir p s') \<and> (\<exists>p. b_messenger_pipe s' = Some p \<and> os_isfifo p s')
    \<and> b_queue s' \<and> b_lock s' \<and> b_package_thread s' \<noteq> None"
proof -
  have nochange: "is_package_manager_initialized (snd (validate_package_path s)) = is_package_manager_initialized s"
    "is_package_manager_initialized (snd (validate_messenger_pipe t)) = is_package_manager_initialized t" for t
    by (auto simp: validate_package_path_def validate_messenger_pipe_def validate_named_pipe_def makedirs_def mkfifo_def
        split: option.splits prod.splits sum.splits if_splits)
  obtain r1 s1 where v1: "validate_package_path s = (r1, s1)" by (metis prod.collapse)
  then have n1: "\<not> is_package_manager_initialized s1" using nochange(1) assms(2) by simp
  with v1 assms have "r1 = Inr True" by (cases r1) (auto simp: pm_initialize_def split: bool.splits)
  note v1 = v1 [unfolded this]
  obtain r2 s2 where v2: "validate_messenger_pipe s1 = (r2, s2)" by (metis prod.collapse)
  then have n2: "\<not> is_package_manager_initialized s2" using nochange(2) [of s1] n1 by simp
  with v1 v2 assms have "r2 = Inr True" by (cases r2) (auto simp: pm_initialize_def split: bool.splits)
  note v2 = v2 [unfolded this]
  have s': "s' = start_package_manager s2"
    using assms v1 v2 n2 by (auto simp: pm_initialize_def split: if_splits)
  obtain p where "b_package_path s1 = Some p" "os_isdir p s1" using validate_package_path_True [OF v1] by blast
  then have "\<exists>p. b_package_path s2 = Some p \<and> os_isdir p s2" using validate_messenger_pipe_True(2,3) [OF v2] by auto
  then show ?thesis using s' validate_messenger_pipe_True(1) [OF v2]
    by (auto simp: start_package_manager_def Let_def os_isdir_def os_isfifo_def)
qed

end
