(* ===== verification/Iotcc_Operations.thy ===== *)
theory Iotcc_Operations
  imports Iotcc Liota_Config
begin

text \<open>
  The operations of \<^verbatim>\<open>IotControlCenter\<close> (\<^verbatim>\<open>src/liota/dccs/iotcc.py\<close>) that send a request, wait for the response and
  keep the local records up to date: \<^verbatim>\<open>register\<close>, \<^verbatim>\<open>unregister\<close>, \<^verbatim>\<open>create_relationship\<close>, \<^verbatim>\<open>set_properties\<close>,
  \<^verbatim>\<open>get_properties\<close>, \<^verbatim>\<open>publish_unit\<close>, the formatting of metrics, and the constructor.
\<close>

section \<open>Asking for properties\<close>

text \<open>\<^verbatim>\<open>on_response\<close> of \<^verbatim>\<open>get_properties\<close>: for another response it asks an attribute for a queue that
  does not exist; every exception is logged and dropped by \<open>get_properties\<close>.\<close>

definition properties_reply :: "ic_entity \<Rightarrow> pyval option \<Rightarrow> py_error + pyval" where
  "properties_reply e msg =
     bind_r (json_loads msg) (\<lambda>j.
     bind_r (py_item j ''type'') (\<lambda>ty.
     bind_r (check_version j) (\<lambda>_.
       if ty \<noteq> PStr ''get_properties_response'' then Inl AttributeError
       else bind_r (py_path j [''body'', ''id'']) (\<lambda>i.
         if i = PStr ''null'' \<or> i \<noteq> PStr (ie_id e) then Inl AttributeError
         else py_path j [''body'', ''propertyList'']))))"

definition get_properties :: "ic_entity \<Rightarrow> iotcc \<Rightarrow> (iotcc, pyval) outcome" where
  "get_properties e =
     then_e (modify_e (\<lambda>s. s\<lparr>ic_prop_list := PNone\<rparr>))
     (bind_e new_request (\<lambda>(tid, q).
      then_e (send_json (get_properties_msg tid e))
      (bind_e (queue_get q) (\<lambda>msg s.
         let v = (case properties_reply e msg of Inl _ \<Rightarrow> PNone | Inr v \<Rightarrow> v)
         in (Inr v, s\<lparr>ic_prop_list := v\<rparr>)))))"

section \<open>The local record of an entity\<close>

definition fresh_props :: "string \<Rightarrow> string \<Rightarrow> string option \<Rightarrow> (string \<times> pyval) list option \<Rightarrow> (string \<times> pyval) list" where
  "fresh_props entity_type entity_name dev_type prop_dict =
     (let tmp = [(''entity type'', PStr entity_type), (''name'', PStr entity_name),
                 (''device type'', PStr (case dev_type of None \<Rightarrow> [] | Some t \<Rightarrow> t))]
      in case prop_dict of None \<Rightarrow> tmp | Some d \<Rightarrow> dict_update tmp d)"

text \<open>\<^verbatim>\<open>(k in v) and P(v[k])\<close>.\<close>

definition item_is :: "string \<Rightarrow> (pyval \<Rightarrow> bool) \<Rightarrow> pyval \<Rightarrow> py_error + bool" where
  "item_is k P v = bind_r (py_in k v) (\<lambda>b. if b then bind_r (py_item v k) (\<lambda>x. Inr (P x)) else Inr False)"

definition and_r :: "py_error + bool \<Rightarrow> py_error + bool \<Rightarrow> py_error + bool" where
  "and_r a b = bind_r a (\<lambda>x. if x then b else Inr False)"

definition same_entity :: "string \<Rightarrow> string \<Rightarrow> string option \<Rightarrow> pyval \<Rightarrow> py_error + bool" where
  "same_entity entity_type entity_name dev_type tmp =
     and_r (item_is ''entity type'' (\<lambda>x. x = PStr entity_type) tmp)
       (and_r (item_is ''name'' (\<lambda>x. x = PStr entity_name) tmp)
         (item_is ''device type''
           (\<lambda>x. x = (case dev_type of None \<Rightarrow> PNone | Some t \<Rightarrow> PStr t) \<or> x = PStr [] \<and> dev_type = None) tmp))"

text \<open>The read record, after a restart merged with what the service has.\<close>

definition refresh_record :: "ic_entity \<Rightarrow> pyval \<Rightarrow> iotcc \<Rightarrow> (iotcc, pyval) outcome" where
  "refresh_record e tmp s =
     (case (if ic_enable_reboot_getprop s = ''True'' then py_in ''Entity_Timestamp'' tmp else Inr False) of
        Inl err \<Rightarrow> (Inl err, s)
      | Inr False \<Rightarrow> (Inr tmp, s)
      | Inr True \<Rightarrow>
          (case bind_r (py_item tmp ''Entity_Timestamp'') (ic_strptime s) of
             Inl err \<Rightarrow> (Inl err, s)
           | Inr last_dtime \<Rightarrow>
               if last_dtime \<le> ic_dcc_load_time s
               then bind_e (get_properties e) (\<lambda>props. lift_e (merge_prop_dict_list tmp props)) s
               else (Inr tmp, s)))"

definition merged_props ::
  "string \<Rightarrow> ic_entity \<Rightarrow> string option \<Rightarrow> (string \<times> pyval) list option \<Rightarrow> pyval \<Rightarrow> py_error + (string \<times> pyval) list" where
  "merged_props entity_type e dev_type prop_dict tmp =
     bind_r (same_entity entity_type (ie_name e) dev_type tmp) (\<lambda>same.
       if \<not> same then Inr (fresh_props entity_type (ie_name e) dev_type prop_dict)
       else case tmp of
              PDict d \<Rightarrow> Inr (case prop_dict of None \<Rightarrow> d | Some p \<Rightarrow> dict_update d p)
            | _ \<Rightarrow> Inl AttributeError)"

definition new_props ::
  "string \<Rightarrow> ic_entity \<Rightarrow> pyval \<Rightarrow> string option \<Rightarrow> (string \<times> pyval) list option \<Rightarrow> iotcc \<Rightarrow> (iotcc, (string \<times> pyval) list) outcome" where
  "new_props entity_type e uuid dev_type prop_dict s =
     (case uuid_path (ic_entity_file_path s) uuid of
        Inl err \<Rightarrow> (Inl err, s)
      | Inr path \<Rightarrow>
          if \<not> dict_has (ic_files s) path then (Inr (fresh_props entity_type (ie_name e) dev_type prop_dict), s)
          else bind_e (lift_e (read_entity_file uuid s)) (\<lambda>tmp.
               bind_e (refresh_record e tmp) (\<lambda>tmp'.
                 lift_e (merged_props entity_type e dev_type prop_dict tmp'))) s)"

definition store_reg_entity_attributes ::
  "string \<Rightarrow> ic_entity \<Rightarrow> pyval \<Rightarrow> string option \<Rightarrow> (string \<times> pyval) list option \<Rightarrow> iotcc \<Rightarrow> (iotcc, unit) outcome" where
  "store_reg_entity_attributes entity_type e uuid dev_type prop_dict =
     bind_e (new_props entity_type e uuid dev_type prop_dict) (\<lambda>d.
     bind_e (write_entity_file d uuid) (\<lambda>d'.
       if entity_type = ''EdgeSystem'' then store_edge_system_info uuid (ie_name e) (Some d') False
       else if entity_type = ''Devices'' then store_device_info uuid (ie_name e) dev_type (Some d') False
       else return_e ()))"

text \<open>The call at the end of \<^verbatim>\<open>register\<close> and \<^verbatim>\<open>set_properties\<close>.\<close>

definition store_attributes :: "ic_entity \<Rightarrow> pyval \<Rightarrow> (string \<times> pyval) list option \<Rightarrow> iotcc \<Rightarrow> (iotcc, unit) outcome" where
  "store_attributes e uuid prop_dict =
     (if ie_type e = ''HelixGateway'' then store_reg_entity_attributes ''EdgeSystem'' e uuid None prop_dict
      else store_reg_entity_attributes ''Devices'' e uuid (Some (ie_type e)) prop_dict)"

section \<open>Registered objects\<close>

text \<open>\<^verbatim>\<open>RegisteredEntity\<close> and \<^verbatim>\<open>RegisteredMetric\<close> objects of this component; \<^verbatim>\<open>parent\<close> is used for its
  \<^verbatim>\<open>ref_entity\<close> only, whose type does not change once it is registered.\<close>

record ic_reg =
  ir_metric :: bool
  ir_entity :: ic_entity
  ir_id :: pyval
  ir_parent :: "ic_entity option"
  ir_unit :: "string option"

definition property_entity :: "ic_reg \<Rightarrow> py_error + ic_entity" where
  "property_entity r =
     (if ir_metric r then (case ir_parent r of None \<Rightarrow> Inl AttributeError | Some e \<Rightarrow> Inr e) else Inr (ir_entity r))"

text \<open>The request is entered before the properties are checked, and stays there if the check fails.\<close>

definition set_properties :: "ic_reg \<Rightarrow> (string \<times> pyval) list \<Rightarrow> iotcc \<Rightarrow> (iotcc, unit) outcome" where
  "set_properties r props =
     bind_e (lift_e (property_entity r)) (\<lambda>e.
     bind_e new_request (\<lambda>(tid, q).
     bind_e (gets_e ic_utc_ms) (\<lambda>now.
     bind_e (lift_e (properties_msg tid e now props)) (\<lambda>m.
     then_e (send_json m)
     (bind_e (queue_get q) (\<lambda>msg.
      bind_e (lift_e (handle_response msg)) (\<lambda>response.
        if response then store_attributes e (ir_id r) (Some props) else raise_e GenericException)))))))"

text \<open>\<open>parse_unit\<close> is the function of \<^verbatim>\<open>si_unit.py\<close>: prefix and unit name, where known.\<close>

definition unit_properties :: "string \<Rightarrow> string option \<times> string option \<Rightarrow> (string \<times> pyval) list" where
  "unit_properties metric_name pu =
     (case pu of
        (None, Some u) \<Rightarrow> [(metric_name @ ''_unit'', PStr u)]
      | (Some p, Some u) \<Rightarrow> [(metric_name @ ''_unit'', PStr u), (metric_name @ ''_prefix'', PStr p)]
      | _ \<Rightarrow> [])"

definition publish_unit ::
  "parse_unit_fun \<Rightarrow> ic_reg \<Rightarrow> string \<Rightarrow> string \<Rightarrow> iotcc \<Rightarrow> (iotcc, unit) outcome" where
  "publish_unit parse_unit r metric_name u =
     bind_e (lift_e (parse_unit u)) (\<lambda>pu.
       if ir_parent r = None then raise_e AttributeError
       else if unit_properties metric_name pu = [] then return_e ()
       else set_properties r (unit_properties metric_name pu))"

section \<open>Registration\<close>

text \<open>Messages that can still reach a queue: what it holds and what has not arrived yet.\<close>

definition queued :: "nat \<Rightarrow> iotcc \<Rightarrow> pyval option list" where
  "queued q s = (case dict_get (ic_queues s) q of None \<Rightarrow> [] | Some ms \<Rightarrow> ms)"

definition pending :: "nat \<Rightarrow> iotcc \<Rightarrow> nat" where
  "pending q s = length (ic_recv s) + length (queued q s)"

lemma dispatch_queued:
  "length (queued q (dispatch_recvd_msg m s)) \<le> Suc (length (queued q s))"
  by (auto simp: dispatch_recvd_msg_def queued_def split: option.splits sum.splits)

lemma queue_get_pending: "queue_get q s = (Inr m, s') \<Longrightarrow> pending q s' < pending q s"
proof (induction q s rule: queue_get.induct)
  case (1 q s)
  show ?case
  proof (cases "dict_get (ic_queues s) q = None \<or> dict_get (ic_queues s) q = Some []")
    case True
    then have "ic_recv s \<noteq> []" using 1(3) by (subst (asm) queue_get.simps) (auto split: list.splits)
    then obtain x ms where r: "ic_recv s = x # ms" by (cases "ic_recv s") auto
    let ?s = "dispatch_recvd_msg x (s\<lparr>ic_recv := ms\<rparr>)"
    have g: "queue_get q ?s = (Inr m, s')" using 1(3) True r by (subst (asm) queue_get.simps) auto
    have "pending q s' < pending q ?s"
    proof (cases "dict_get (ic_queues s) q")
      case None
      then show ?thesis using 1(1) [OF None r g] by simp
    next
      case (Some xs)
      with True have "dict_get (ic_queues s) q = Some []" by simp
      from 1(2) [OF this _ r g] show ?thesis by simp
    qed
    moreover have "length (queued q ?s) \<le> Suc (length (queued q s))"
      using dispatch_queued [of q x "s\<lparr>ic_recv := ms\<rparr>"] by (simp add: queued_def)
    ultimately show ?thesis using r by (simp add: pending_def)
  next
    case False
    then obtain x xs where "dict_get (ic_queues s) q = Some (x # xs)" by (metis list.exhaust not_None_eq)
    with 1(3) show ?thesis by (subst (asm) queue_get.simps) (auto simp: pending_def queued_def)
  qed
qed

text \<open>The test of \<^verbatim>\<open>on_response\<close> in \<^verbatim>\<open>register\<close>: the identifier, or \<open>None\<close> if this is not the awaited message.\<close>

definition registration_reply :: "ic_entity \<Rightarrow> pyval option \<Rightarrow> py_error + pyval option" where
  "registration_reply e msg =
     bind_r (json_loads msg) (\<lambda>j.
     bind_r (py_item j ''type'') (\<lambda>ty.
     bind_r (check_version j) (\<lambda>_.
       if ty \<noteq> PStr ''create_or_find_resource_response'' then Inr None
       else bind_r (py_path j [''body'', ''uuid'']) (\<lambda>u.
         if u = PStr ''null'' then Inr None
         else bind_r (py_path j [''body'', ''id'']) (\<lambda>i.
           Inr (if i = PStr (ie_id e) then Some u else None))))))"

function on_response :: "ic_entity \<Rightarrow> nat \<Rightarrow> pyval option \<Rightarrow> iotcc \<Rightarrow> (iotcc, unit) outcome" where
  "on_response e q msg s =
     (case registration_reply e msg of
        Inl err \<Rightarrow> (Inl err, s)
      | Inr (Some u) \<Rightarrow> (Inr (), s\<lparr>ic_reg_entity_id := u\<rparr>)
      | Inr None \<Rightarrow>
          (case queue_get q s of
             (Inl err, s') \<Rightarrow> (Inl err, s')
           | (Inr m, s') \<Rightarrow> on_response e q m s'))"
  by pat_completeness auto
termination
  by (relation "measure (\<lambda>(e, q, msg, s). pending q s)") (auto dest: queue_get_pending [OF sym])

declare on_response.simps [simp del]

text \<open>The part of \<^verbatim>\<open>register\<close> after the response: records, and the system properties of the configuration.\<close>

definition complete_registration :: "ic_entity \<Rightarrow> iotcc \<Rightarrow> (iotcc, ic_reg) outcome" where
  "complete_registration e =
     bind_e (gets_e ic_reg_entity_id) (\<lambda>uuid.
       if \<not> truthy uuid then raise_e RegistrationFailure
       else
         then_e (if ie_type e = ''HelixGateway''
                 then store_reg_entity_details (ie_type e) (ie_name e) uuid (ie_id e) else return_e ())
         (then_e (store_attributes e uuid None)
         (bind_e (gets_e ic_sys_properties) (\<lambda>sys.
            let r = \<lparr>ir_metric = False, ir_entity = e, ir_id = uuid, ir_parent = None, ir_unit = None\<rparr> in
            case sys of
              None \<Rightarrow> return_e r
            | Some (Inl err) \<Rightarrow> raise_e err
            | Some (Inr (PDict (p # ps))) \<Rightarrow> then_e (set_properties r (p # ps)) (return_e r)
            | Some (Inr _) \<Rightarrow> return_e r))))"

definition gateway_entity :: "ic_entity \<Rightarrow> ic_entity" where
  "gateway_entity e = (if ie_type e = ''EdgeSystem'' then e\<lparr>ie_type := ''HelixGateway''\<rparr> else e)"

definition register_entity :: "ic_entity \<Rightarrow> iotcc \<Rightarrow> (iotcc, ic_reg) outcome" where
  "register_entity e0 =
     (let e = gateway_entity e0 in
      bind_e new_request (\<lambda>(tid, q).
      then_e (send_json (registration tid e))
      (bind_e (queue_get q) (\<lambda>msg.
       then_e (on_response e q msg) (complete_registration e)))))"

text \<open>\<^verbatim>\<open>register\<close>: metrics are not sent to the service.\<close>

definition iotcc_register :: "bool \<Rightarrow> string option \<Rightarrow> ic_entity \<Rightarrow> iotcc \<Rightarrow> (iotcc, ic_reg) outcome" where
  "iotcc_register is_metric u e =
     then_e (lift_e (assert_input (PStr (ie_name e)) 50))
     (then_e (lift_e (assert_input (PStr (ie_type e)) 50))
      (if is_metric
       then return_e \<lparr>ir_metric = True, ir_entity = e, ir_id = PNone, ir_parent = None, ir_unit = u\<rparr>
       else register_entity e))"

definition unregister :: "ic_reg \<Rightarrow> iotcc \<Rightarrow> (iotcc, unit) outcome" where
  "unregister r =
     bind_e new_request (\<lambda>(tid, q).
     then_e (send_json (unregistration tid (ir_entity r)))
     (bind_e (queue_get q) (\<lambda>msg.
      bind_e (lift_e (handle_response msg)) (\<lambda>response.
        if \<not> response then raise_e GenericException
        else if ie_type (ir_entity r) \<noteq> ''HelixGateway''
        then store_device_info (ir_id r) (ie_name (ir_entity r)) (Some (ie_type (ir_entity r))) None True
        else then_e (remove_reg_entity_details (ie_name (ir_entity r)) (ir_id r))
               (store_device_info (ir_id r) (ie_name (ir_entity r)) None None True)))))"

text \<open>\<^verbatim>\<open>create_relationship\<close>; \<open>None\<close> is an object that is not registered. The state is the component and the child
  object, whose \<^verbatim>\<open>parent\<close> is set before anything else happens.\<close>

definition link_entities :: "ic_entity \<Rightarrow> ic_entity \<Rightarrow> iotcc \<Rightarrow> (iotcc, unit) outcome" where
  "link_entities p c =
     bind_e new_request (\<lambda>(tid, q).
     then_e (send_json (relationship tid p c))
     (bind_e (queue_get q) (\<lambda>msg.
      bind_e (lift_e (handle_response msg)) (\<lambda>response.
        if response then return_e () else raise_e GenericException))))"

definition iotcc_create_relationship ::
  "parse_unit_fun \<Rightarrow> ic_reg option \<Rightarrow> ic_reg option \<Rightarrow> iotcc
    \<Rightarrow> (iotcc \<times> ic_reg option, unit) outcome" where
  "iotcc_create_relationship parse_unit p c s =
     (case (p, c) of
        (Some pr, Some cr) \<Rightarrow>
          (let c1 = cr\<lparr>ir_parent := Some (ir_entity pr)\<rparr> in
           if ir_metric cr then
             (let c2 = c1\<lparr>ir_id := ir_id pr\<rparr> in
              case ir_unit c2 of
                None \<Rightarrow> (Inr (), s, Some c2)
              | Some u \<Rightarrow> (case publish_unit parse_unit c2 (ie_name (ir_entity c2)) u s of (r, s') \<Rightarrow> (r, s', Some c2)))
           else (case link_entities (ir_entity pr) (ir_entity c1) s of (r, s') \<Rightarrow> (r, s', Some c1)))
      | _ \<Rightarrow> (Inl TypeError, s, c))"

section \<open>Formatting metrics\<close>

primrec iotcc_samples ::
  "pyval list \<Rightarrow> pyval list \<Rightarrow> pyval list \<Rightarrow> (py_error + pyval list \<times> pyval list) \<times> pyval list" where
  "iotcc_samples [] ts xs = (Inr (ts, xs), [])"
| "iotcc_samples (v # vs) ts xs =
     (if v = PNone then iotcc_samples vs ts xs
      else case py_index v 0 of
             Inl e \<Rightarrow> (Inl e, vs)
           | Inr t \<Rightarrow>
               (case py_index v 1 of
                  Inl e \<Rightarrow> (Inl e, vs)
                | Inr x \<Rightarrow> iotcc_samples vs (ts @ [t]) (xs @ [x])))"

definition stats_msg :: "ic_entity \<Rightarrow> string \<Rightarrow> pyval list \<Rightarrow> pyval list \<Rightarrow> pyval" where
  "stats_msg p name ts xs =
     PDict [(''type'', PStr ''add_stats''), (''version'', PInt ic_version),
            (''body'', PDict (entity_body p @
               [(''metric_data'', PList [PDict [(''statKey'', PStr name), (''timestamps'', PList ts), (''data'', PList xs)]])]))]"

definition iotcc_format_data ::
  "(rat \<Rightarrow> string) \<Rightarrow> ic_entity option \<Rightarrow> reg_metric \<Rightarrow> (reg_metric, string option) outcome" where
  "iotcc_format_data fmt par r =
     (if length (vals r) = 0 then (Inr None, r)
      else case iotcc_samples (vals r) [] [] of
             (Inl e, vs) \<Rightarrow> (Inl e, r\<lparr>vals := vs\<rparr>)
           | (Inr (ts, xs), vs) \<Rightarrow>
               (let r' = r\<lparr>vals := vs\<rparr> in
                if ts = [] then (Inr None, r')
                else case par of
                       None \<Rightarrow> (Inl AttributeError, r')
                     | Some p \<Rightarrow>
                         (case json_dumps fmt (stats_msg p (m_name (ref_entity r)) ts xs) of
                            Inl e \<Rightarrow> (Inl e, r') | Inr t \<Rightarrow> (Inr (Some t), r'))))"

section \<open>The constructor\<close>

definition on_host :: "('h \<Rightarrow> ('h, 'a) outcome) \<Rightarrow> 'h \<times> 's \<Rightarrow> ('h \<times> 's, 'a) outcome" where
  "on_host m hs = (case m (fst hs) of (r, h) \<Rightarrow> (r, h, snd hs))"

definition on_iotcc :: "('s \<Rightarrow> ('s, 'a) outcome) \<Rightarrow> 'h \<times> 's \<Rightarrow> ('h \<times> 's, 'a) outcome" where
  "on_iotcc m hs = (case m (snd hs) of (r, s) \<Rightarrow> (r, fst hs, s))"

text \<open>The threads that receive and dispatch are started by the constructor; in the model they run when a requester waits.\<close>

definition IotControlCenter ::
  "(string \<Rightarrow> py_error + pyval) \<Rightarrow> string \<Rightarrow> string \<Rightarrow> host \<times> iotcc \<Rightarrow> (host \<times> iotcc, unit) outcome" where
  "IotControlCenter literal_eval username password =
     (if username = [] then raise_e ValueError
      else if password = [] then raise_e ValueError
      else
        bind_e (on_host (read_liota_config ''IOTCC_PATH'' ''iotcc_path'')) (\<lambda>p.
        then_e (on_host (mkdir (dirname p)))
        (bind_e (on_iotcc (create_iotcc_json p)) (\<lambda>json.
        bind_e (on_host (read_liota_config ''IOTCC_PATH'' ''iotcc_load_retry'')) (\<lambda>retry.
        bind_e (lift_e (py_int retry)) (\<lambda>n.
        bind_e (on_host (read_liota_config ''IOTCC_PATH'' ''enable_reboot_getprop'')) (\<lambda>reboot.
        bind_e (on_host (read_liota_config ''IOTCC_PATH'' ''system_properties'')) (\<lambda>sys.
        bind_e (on_host (get_file_storage_path ''dev_file_path'')) (\<lambda>dev.
        bind_e (on_host (get_file_storage_path ''entity_file_path'')) (\<lambda>ent.
          on_iotcc (modify_e (\<lambda>s. s\<lparr>ic_json := json, ic_json_load_retry := nat n, ic_enable_reboot_getprop := reboot,
            ic_sys_properties := (if sys = [] then None else Some (literal_eval sys)),
            ic_counter := 0, ic_req_dict := [], ic_dev_file_path := dev, ic_entity_file_path := ent\<rparr>))))))))))))"

end
