(* ===== verification/Iotcc_Requests.thy ===== *)
theory Iotcc_Requests
  imports Iotcc_Operations
begin

text \<open>
  Requests of \<^verbatim>\<open>IotControlCenter\<close>: transaction identifiers, the invariant of the table of open requests (a requester
  gets at most one response), and how a response finds its requester among other messages.
\<close>

section \<open>Transaction identifiers\<close>

lemma and_ffffff: "x AND 0xffffff = x mod 2 ^ 24" for x :: int
proof -
  have m: "(0xffffff :: int) = mask 24" by (simp add: mask_eq_exp_minus_1)
  show ?thesis unfolding m by (simp only: take_bit_eq_mod flip: take_bit_eq_mask)
qed

lemma next_id_eq:
  "next_id s = (Inr (2 * ((ic_counter s + 1) mod 2 ^ 24)), s\<lparr>ic_counter := (ic_counter s + 1) mod 2 ^ 24\<rparr>)"
  by (simp only: next_id_def and_ffffff Let_def mult.commute [of _ 2])

text \<open>The identifiers of \<open>n\<close> requests in a row.\<close>

primrec next_ids :: "nat \<Rightarrow> iotcc \<Rightarrow> int list" where
  "next_ids 0 s = []"
| "next_ids (Suc n) s = (case next_id s of (Inr i, s') \<Rightarrow> i # next_ids n s' | (Inl _, _) \<Rightarrow> [])"

lemma next_ids_nth: "next_ids n s = map (\<lambda>k. 2 * ((ic_counter s + 1 + int k) mod 2 ^ 24)) [0..<n]"
proof (induction n arbitrary: s)
  case (Suc n)
  have "next_ids (Suc n) s = 2 * ((ic_counter s + 1) mod 2 ^ 24) #
      map (\<lambda>k. 2 * (((ic_counter s + 1) mod 2 ^ 24 + 1 + int k) mod 2 ^ 24)) [0..<n]"
    by (simp only: next_ids.simps next_id_eq prod.case sum.case Suc) simp
  also have "\<dots> = map (\<lambda>k. 2 * ((ic_counter s + 1 + int k) mod 2 ^ 24)) [0..<Suc n]"
  proof -
    have "((ic_counter s + 1) mod 2 ^ 24 + 1 + int k) mod 2 ^ 24 = (ic_counter s + 1 + int (Suc k)) mod 2 ^ 24" for k
    proof -
      have "(x mod 2 ^ 24 + 1 + int k) mod 2 ^ 24 = (x + int (Suc k)) mod 2 ^ 24" for x :: int
        unfolding add.assoc of_nat_Suc by (rule mod_add_left_eq)
      then show ?thesis .
    qed
    moreover have "[0..<Suc n] = 0 # map Suc [0..<n]" by (simp add: map_Suc_upt upt_conv_Cons del: upt_Suc)
    ultimately show ?thesis by (simp del: upt_Suc)
  qed
  finally show ?case .
qed simp

lemma next_ids_distinct:
  assumes "n \<le> 2 ^ 24" shows "distinct (next_ids n s)"
proof -
  have "inj_on (\<lambda>k. 2 * ((ic_counter s + 1 + int k) mod 2 ^ 24)) {0..<n}"
  proof (rule inj_onI)
    fix i j assume ij: "i \<in> {0..<n}" "j \<in> {0..<n}"
      "2 * ((ic_counter s + 1 + int i) mod 2 ^ 24) = 2 * ((ic_counter s + 1 + int j) mod 2 ^ 24)"
    then have "(2 ^ 24 :: int) dvd (ic_counter s + 1 + int i) - (ic_counter s + 1 + int j)"
      by (simp add: mod_eq_dvd_iff)
    then have "(2 ^ 24 :: int) dvd int i - int j" by simp
    moreover have "\<bar>int i - int j\<bar> < 2 ^ 24" using ij(1,2) assms by auto
    ultimately have "int i - int j = 0" by (metis zdvd_not_zless zero_less_abs_iff dvd_abs_iff)
    then show "i = j" by simp
  qed
  then show ?thesis by (simp add: next_ids_nth distinct_map)
qed

lemma next_ids_range: "i \<in> set (next_ids n s) \<Longrightarrow> even i \<and> 0 \<le> i \<and> i \<le> 0x1fffffe"
proof -
  assume "i \<in> set (next_ids n s)"
  then obtain k where i: "i = 2 * ((ic_counter s + 1 + int k) mod 2 ^ 24)" by (auto simp: next_ids_nth)
  have "(ic_counter s + 1 + int k) mod 2 ^ 24 < 2 ^ 24" "0 \<le> (ic_counter s + 1 + int k) mod 2 ^ 24" by simp_all
  then show ?thesis unfolding i by simp
qed

lemma next_ids_wrap: "next_ids (Suc (2 ^ 24)) s ! (2 ^ 24) = next_ids (Suc (2 ^ 24)) s ! 0"
proof -
  have n: "next_ids m s ! k = 2 * ((ic_counter s + 1 + int k) mod 2 ^ 24)" if "k < m" for k m
    unfolding next_ids_nth using that by (subst nth_map) (simp_all del: upt_Suc)
  have "(ic_counter s + 1 + int (2 ^ 24)) mod 2 ^ 24 = (ic_counter s + 1 + int 0) mod 2 ^ 24"
    using mod_add_self2 [of "ic_counter s + 1" "2 ^ 24"] by simp
  then show ?thesis using n [of "2 ^ 24" "Suc (2 ^ 24)"] n [of 0 "Suc (2 ^ 24)"] by (simp only: lessI zero_less_Suc)
qed

section \<open>The table of open requests\<close>

definition open_queues :: "iotcc \<Rightarrow> nat set" where
  "open_queues s = set (map snd (ic_req_dict s))"

text \<open>Every open request has a queue of its own, which is empty; a queue ever holds at most one message.\<close>

definition ic_inv :: "iotcc \<Rightarrow> bool" where
  "ic_inv s \<longleftrightarrow>
     dict_ok (ic_req_dict s) \<and> distinct (map snd (ic_req_dict s)) \<and>
     (\<forall>q\<in>open_queues s. q < ic_next_queue s \<and> queued q s = []) \<and>
     (\<forall>q. length (queued q s) \<le> 1) \<and> (\<forall>q\<ge>ic_next_queue s. queued q s = [])"

definition keeps_inv :: "iotcc \<Rightarrow> iotcc \<Rightarrow> bool" where
  "keeps_inv s s' \<longleftrightarrow> (ic_inv s \<longrightarrow> ic_inv s')"

lemma keeps_inv_trans: "keeps_inv x y \<Longrightarrow> keeps_inv y z \<Longrightarrow> keeps_inv x z"
  by (simp add: keeps_inv_def)

lemma keeps_inv_refl [simp]: "keeps_inv s s"
  by (simp add: keeps_inv_def)

lemma keeps_inv_frame:
  "ic_req_dict s' = ic_req_dict s \<Longrightarrow> ic_queues s' = ic_queues s \<Longrightarrow> ic_next_queue s' = ic_next_queue s \<Longrightarrow> keeps_inv s s'"
  by (simp add: keeps_inv_def ic_inv_def open_queues_def queued_def)

lemma set_dict_set: "set (dict_set k v d) \<subseteq> insert (k, v) (set d)"
  by (induction d) auto

lemma distinct_snd_set: "distinct (map snd d) \<Longrightarrow> v \<notin> set (map snd d) \<Longrightarrow> distinct (map snd (dict_set k v d))"
  by (induction d) (use set_dict_set in fastforce)+

lemma distinct_snd_del: "distinct (map snd d) \<Longrightarrow> distinct (map snd (dict_del k d))"
  by (simp add: AList.delete_eq distinct_map_filter)

lemma snd_del_notin: "dict_ok d \<Longrightarrow> distinct (map snd d) \<Longrightarrow> dict_get d k = Some q \<Longrightarrow> q \<notin> set (map snd (dict_del k d))"
proof
  assume a: "dict_ok d" "distinct (map snd d)" "dict_get d k = Some q" "q \<in> set (map snd (dict_del k d))"
  then obtain j where "(j, q) \<in> set d" "j \<noteq> k" by (auto simp: AList.delete_eq)
  moreover have "(k, q) \<in> set d" using a(3) by (rule dict_get_in_set)
  ultimately show False using a(2) unfolding distinct_map inj_on_def by (metis Pair_inject snd_conv)
qed

lemma new_request_inv: "preserves keeps_inv new_request"
  unfolding preserves_def
proof
  fix s
  let ?s = "snd (new_request s)" and ?q = "ic_next_queue s"
  obtain tid where e: "ic_req_dict ?s = dict_set tid ?q (ic_req_dict s)" "ic_queues ?s = dict_set ?q [] (ic_queues s)"
    "ic_next_queue ?s = ?q + 1"
    by (simp add: new_request_def bind_e_def next_id_def Let_def)
  show "keeps_inv s ?s" unfolding keeps_inv_def
  proof
    assume i: "ic_inv s"
    have n: "?q \<notin> open_queues s" using i by (auto simp: ic_inv_def)
    have o: "open_queues ?s \<subseteq> insert ?q (open_queues s)"
      unfolding open_queues_def e(1) using set_dict_set [of tid ?q "ic_req_dict s"] by fastforce
    have qd: "queued q ?s = (if q = ?q then [] else queued q s)" for q by (simp add: queued_def e)
    have "distinct (map snd (ic_req_dict ?s))" unfolding e(1)
      using i n by (intro distinct_snd_set) (auto simp: ic_inv_def open_queues_def)
    moreover have "dict_ok (ic_req_dict ?s)" unfolding e(1) using i by (intro dict_ok_set) (simp add: ic_inv_def)
    moreover have "\<forall>q\<in>open_queues ?s. q < ic_next_queue ?s \<and> queued q ?s = []"
      using o i unfolding qd e(3) by (fastforce simp: ic_inv_def)
    ultimately show "ic_inv ?s" using i unfolding ic_inv_def [of ?s] qd e(3) by (auto simp: ic_inv_def)
  qed
qed

lemma dispatch_inv: "keeps_inv s (dispatch_recvd_msg m s)"
  unfolding keeps_inv_def
proof
  assume i: "ic_inv s"
  show "ic_inv (dispatch_recvd_msg m s)"
  proof (cases "dispatch_recvd_msg m s = s")
    case False
    then obtain k q where k: "dict_get (ic_req_dict s) k = Some q"
      and d: "dispatch_recvd_msg m s = s\<lparr>ic_req_dict := dict_del k (ic_req_dict s),
        ic_queues := dict_set q (queued q s @ [m]) (ic_queues s)\<rparr>"
      by (auto simp: dispatch_recvd_msg_def queued_def split: option.splits sum.splits)
    have q: "q \<in> open_queues s" using k by (force simp: open_queues_def dest: dict_get_in_set)
    then have q': "q < ic_next_queue s" "queued q s = []" using i by (auto simp: ic_inv_def)
    have qd: "queued x (dispatch_recvd_msg m s) = (if x = q then [m] else queued x s)" for x
      unfolding d using q' by (simp add: queued_def)
    have nq: "q \<notin> open_queues (dispatch_recvd_msg m s)"
      using snd_del_notin [OF _ _ k] i unfolding d by (simp add: open_queues_def ic_inv_def)
    have sub: "open_queues (dispatch_recvd_msg m s) \<subseteq> open_queues s"
      unfolding d by (auto simp: open_queues_def AList.delete_eq)
    have "dict_ok (dict_del k (ic_req_dict s))" using i by (intro dict_ok_del) (simp add: ic_inv_def)
    moreover have "distinct (map snd (dict_del k (ic_req_dict s)))"
      using i by (intro distinct_snd_del) (simp add: ic_inv_def)
    moreover have "\<forall>x\<in>open_queues (dispatch_recvd_msg m s). x < ic_next_queue s \<and> queued x (dispatch_recvd_msg m s) = []"
      using i sub nq unfolding qd by (auto simp: ic_inv_def)
    ultimately show ?thesis using i q' unfolding ic_inv_def [of "dispatch_recvd_msg m s"] qd
      by (auto simp: d ic_inv_def)
  qed (simp add: i)
qed

lemma queue_get_inv: "preserves keeps_inv (queue_get q)"
  unfolding preserves_def
proof
  fix s
  show "keeps_inv s (snd (queue_get q s))"
  proof (induction q s rule: queue_get.induct)
    case (1 q s)
    show ?case
    proof (cases "queued q s")
      case (Cons x xs)
      then have g: "dict_get (ic_queues s) q = Some (x # xs)" by (auto simp: queued_def split: option.splits)
      have "ic_inv (s\<lparr>ic_queues := dict_set q xs (ic_queues s)\<rparr>)" if "ic_inv s"
      proof -
        let ?t = "s\<lparr>ic_queues := dict_set q xs (ic_queues s)\<rparr>"
        have qd: "queued y ?t = (if y = q then xs else queued y s)" for y by (simp add: queued_def)
        have "length (queued q s) \<le> 1" using that unfolding ic_inv_def by blast
        then have "xs = []" using Cons by simp
        then show ?thesis using that Cons unfolding ic_inv_def [of ?t] qd by (auto simp: ic_inv_def open_queues_def)
      qed
      with g show ?thesis by (subst queue_get.simps) (simp add: keeps_inv_def)
    next
      case Nil
      show ?thesis
      proof (cases "ic_recv s")
        case (Cons m ms)
        have "keeps_inv s (dispatch_recvd_msg m (s\<lparr>ic_recv := ms\<rparr>))"
          by (rule keeps_inv_trans [OF keeps_inv_frame dispatch_inv]) simp_all
        moreover have "keeps_inv (dispatch_recvd_msg m (s\<lparr>ic_recv := ms\<rparr>))
            (snd (queue_get q (dispatch_recvd_msg m (s\<lparr>ic_recv := ms\<rparr>))))"
          using Nil 1(1) [OF _ Cons] 1(2) [OF _ _ Cons] by (auto simp: queued_def split: option.splits)
        moreover have "queue_get q s = queue_get q (dispatch_recvd_msg m (s\<lparr>ic_recv := ms\<rparr>))"
          using Nil Cons by (subst queue_get.simps) (auto simp: queued_def split: option.splits)
        ultimately show ?thesis by (metis keeps_inv_trans)
      qed (use Nil in \<open>subst queue_get.simps; auto simp: queued_def split: option.splits list.splits\<close>)
    qed
  qed
qed

lemma keeps_bind:
  "preserves keeps_inv m \<Longrightarrow> (\<And>x. preserves keeps_inv (f x)) \<Longrightarrow> preserves keeps_inv (bind_e m f)"
  by (rule preserves_bind) (auto intro: keeps_inv_trans)

lemma keeps_then:
  "preserves keeps_inv m \<Longrightarrow> preserves keeps_inv n \<Longrightarrow> preserves keeps_inv (then_e m n)"
  unfolding then_e_def by (rule keeps_bind)

lemma keeps_pure:
  "preserves keeps_inv (return_e x)" "preserves keeps_inv (raise_e e)" "preserves keeps_inv (lift_e r)"
  "preserves keeps_inv (gets_e g)"
  by (simp_all add: preserves_pure)

lemma keeps_if: "preserves R m \<Longrightarrow> preserves R n \<Longrightarrow> preserves R (if c then m else n)"
  by simp

lemma keeps_snd: "(\<And>s. keeps_inv s (snd (m s))) \<Longrightarrow> preserves keeps_inv m"
  by (simp add: preserves_def)

text \<open>Operations on files do not touch the requests.\<close>

lemma write_json_frame [simp]:
  "ic_req_dict (snd (write_json p v s)) = ic_req_dict s" "ic_queues (snd (write_json p v s)) = ic_queues s"
  "ic_next_queue (snd (write_json p v s)) = ic_next_queue s" "ic_recv (snd (write_json p v s)) = ic_recv s"
  "ic_sent (snd (write_json p v s)) = ic_sent s"
  by (simp_all add: write_json_def)

lemma write_json_inv: "preserves keeps_inv (write_json p v)"
  by (rule keeps_snd, rule keeps_inv_frame) simp_all

lemma send_json_inv: "preserves keeps_inv (send_json m)"
  by (rule keeps_snd, rule keeps_inv_frame) (simp_all add: send_json_def split: sum.splits)

lemma write_entity_json_file_inv: "preserves keeps_inv (write_entity_json_file d a u r)"
proof (rule keeps_snd, rule keeps_inv_frame)
  fix s
  have e: "snd (write_entity_json_file d a u r s) = s \<or>
    (\<exists>p v. snd (write_entity_json_file d a u r s) = snd (write_json p v s))"
    unfolding write_entity_json_file_def by (auto split: sum.splits prod.splits py_error.splits) (metis snd_conv)+
  show "ic_req_dict (snd (write_entity_json_file d a u r s)) = ic_req_dict s"
    "ic_queues (snd (write_entity_json_file d a u r s)) = ic_queues s"
    "ic_next_queue (snd (write_entity_json_file d a u r s)) = ic_next_queue s"
    using e by auto
qed

lemma write_entity_file_inv: "preserves keeps_inv (write_entity_file d u)"
  by (rule keeps_snd, rule keeps_inv_frame) (simp_all add: write_entity_file_def Let_def split: sum.splits)

lemma store_reg_entity_details_inv: "preserves keeps_inv (store_reg_entity_details ty n u l)"
  by (rule keeps_snd, rule keeps_inv_frame) (simp_all add: store_reg_entity_details_def Let_def split: sum.splits)

lemma remove_reg_entity_details_inv: "preserves keeps_inv (remove_reg_entity_details n u)"
  by (rule keeps_snd, rule keeps_inv_frame)
     (simp_all add: remove_reg_entity_details_def split: sum.splits py_error.splits)

lemma modify_inv:
  "(\<And>s. ic_req_dict (f s) = ic_req_dict s) \<Longrightarrow> (\<And>s. ic_queues (f s) = ic_queues s) \<Longrightarrow>
   (\<And>s. ic_next_queue (f s) = ic_next_queue s) \<Longrightarrow> preserves keeps_inv (modify_e f)"
  by (rule keeps_snd, rule keeps_inv_frame) (simp_all add: modify_e_def)

lemmas ic_steps_inv = new_request_inv queue_get_inv write_json_inv send_json_inv write_entity_json_file_inv
  write_entity_file_inv store_reg_entity_details_inv remove_reg_entity_details_inv

lemma get_properties_inv: "preserves keeps_inv (get_properties e)"
  unfolding get_properties_def
  unfolding split_beta
  by (intro keeps_then keeps_bind modify_inv ic_steps_inv) (simp_all add: preserves_def Let_def keeps_inv_frame)

lemma refresh_record_inv: "preserves keeps_inv (refresh_record e tmp)"
  using keeps_bind [OF get_properties_inv keeps_pure(3)]
  by (auto simp: preserves_def refresh_record_def split: sum.splits bool.splits)

lemma new_props_inv: "preserves keeps_inv (new_props ty e u dt pd)"
proof (rule keeps_snd)
  fix s
  have "preserves keeps_inv (bind_e (lift_e x) (\<lambda>tmp. bind_e (refresh_record e tmp) (\<lambda>tmp'.
      lift_e (merged_props ty e dt pd tmp'))))" for x
    by (intro keeps_bind refresh_record_inv keeps_pure)
  then show "keeps_inv s (snd (new_props ty e u dt pd s))"
    by (auto simp: new_props_def preserves_def split: sum.splits)
qed

lemma store_attributes_inv: "preserves keeps_inv (store_attributes e u pd)"
proof -
  have "preserves keeps_inv (store_reg_entity_attributes ty e u dt pd)" for ty dt
    unfolding store_reg_entity_attributes_def store_edge_system_info_def store_device_info_def
    by (intro keeps_bind keeps_if new_props_inv ic_steps_inv keeps_pure)
  then show ?thesis by (simp add: store_attributes_def)
qed

lemma set_properties_inv: "preserves keeps_inv (set_properties r ps)"
  unfolding set_properties_def split_beta
  by (intro keeps_bind keeps_then keeps_if ic_steps_inv store_attributes_inv keeps_pure)

lemma on_response_inv: "preserves keeps_inv (on_response e q msg)"
  unfolding preserves_def
proof
  fix s
  show "keeps_inv s (snd (on_response e q msg s))"
  proof (induction e q msg s rule: on_response.induct)
    case (1 e q msg s)
    obtain r s1 where g: "queue_get q s = (r, s1)" by (metis prod.collapse)
    then have k: "keeps_inv s s1" using queue_get_inv [of q] unfolding preserves_def by (metis snd_conv)
    show ?case
    proof (cases "registration_reply e msg")
      case (Inr res)
      show ?thesis
      proof (cases res)
        case None
        show ?thesis
        proof (cases r)
          case (Inr m)
          with 1 [OF \<open>registration_reply e msg = Inr res\<close> None g [symmetric] Inr] k g None \<open>registration_reply e msg = Inr res\<close>
          show ?thesis by (subst on_response.simps) (auto intro: keeps_inv_trans)
        qed (use k g None Inr in \<open>subst on_response.simps; simp\<close>)
      qed (use Inr in \<open>subst on_response.simps; simp add: keeps_inv_frame\<close>)
    qed (subst on_response.simps; simp)
  qed
qed

lemma complete_registration_inv: "preserves keeps_inv (complete_registration e)"
  unfolding complete_registration_def Let_def
  by (intro keeps_bind keeps_then keeps_if ic_steps_inv store_attributes_inv keeps_pure)
     (auto split: option.splits sum.splits pyval.splits list.splits intro: keeps_pure keeps_then set_properties_inv)

lemma register_inv: "preserves keeps_inv (iotcc_register is_metric u e)"
  unfolding iotcc_register_def register_entity_def split_beta Let_def
  by (intro keeps_bind keeps_then keeps_if ic_steps_inv on_response_inv complete_registration_inv keeps_pure)

lemma unregister_inv: "preserves keeps_inv (unregister r)"
  unfolding unregister_def split_beta store_device_info_def
  by (intro keeps_bind keeps_then keeps_if ic_steps_inv keeps_pure)

lemma link_entities_inv: "preserves keeps_inv (link_entities p c)"
  unfolding link_entities_def split_beta
  by (intro keeps_bind keeps_then keeps_if ic_steps_inv keeps_pure)

lemma create_relationship_inv: "keeps_inv s (fst (snd (iotcc_create_relationship pu p c s)))"
proof -
  have "preserves keeps_inv (publish_unit pu r n u)" for r n u
    unfolding publish_unit_def
    by (intro keeps_bind keeps_if keeps_pure set_properties_inv)
  with link_entities_inv show ?thesis
    unfolding iotcc_create_relationship_def preserves_def
    by (auto simp: Let_def split: option.splits prod.splits) (metis snd_conv)+
qed

section \<open>The states of a component\<close>

text \<open>Calls in any order, with messages arriving between them, and files and clocks changing.\<close>

inductive ic_step :: "iotcc \<Rightarrow> iotcc \<Rightarrow> bool" where
  register: "ic_step s (snd (iotcc_register is_metric u e s))"
| unregister: "ic_step s (snd (unregister r s))"
| relationship: "ic_step s (fst (snd (iotcc_create_relationship pu p c s)))"
| set_properties: "ic_step s (snd (set_properties r ps s))"
| get_properties: "ic_step s (snd (get_properties e s))"
| dispatch: "ic_recv s = m # ms \<Longrightarrow> ic_step s (dispatch_recvd_msg m (s\<lparr>ic_recv := ms\<rparr>))"
| environment: "ic_step s (s\<lparr>ic_recv := rs, ic_files := fs, ic_utc_ms := ms, ic_utc_text := ut, ic_local_text := lt\<rparr>)"

inductive ic_reachable :: "iotcc \<Rightarrow> iotcc \<Rightarrow> bool" for s0 where
  start: "ic_reachable s0 s0"
| step: "ic_reachable s0 s \<Longrightarrow> ic_step s s' \<Longrightarrow> ic_reachable s0 s'"

inductive_cases ic_stepE: "ic_step s s'"

lemma ic_step_inv: "ic_step s s' \<Longrightarrow> keeps_inv s s'"
proof (induction rule: ic_step.induct)
  case (dispatch s m ms)
  show ?case by (rule keeps_inv_trans [OF keeps_inv_frame dispatch_inv]) simp_all
next
  case (environment s rs fs ms ut lt)
  show ?case by (rule keeps_inv_frame) simp_all
qed (use register_inv unregister_inv create_relationship_inv set_properties_inv get_properties_inv in
    \<open>auto simp: preserves_def\<close>)

lemma ic_reachable_inv: "ic_reachable s0 s \<Longrightarrow> ic_inv s0 \<Longrightarrow> ic_inv s"
  by (induction rule: ic_reachable.induct) (auto dest: ic_step_inv simp: keeps_inv_def)

text \<open>The constructor starts with no request; the queues of earlier components are not its own.\<close>

lemma ic_inv_start: "ic_req_dict s = [] \<Longrightarrow> ic_queues s = [] \<Longrightarrow> ic_inv s"
  by (simp add: ic_inv_def open_queues_def queued_def)

section \<open>A requester and its response\<close>

definition reply_key :: "pyval option \<Rightarrow> pyval option" where
  "reply_key msg =
     (case msg of None \<Rightarrow> None
      | Some j \<Rightarrow> (case (py_item j ''type'', py_item j ''transactionID'') of (Inr _, Inr t) \<Rightarrow> Some t | _ \<Rightarrow> None))"

definition replies_to :: "int \<Rightarrow> pyval option \<Rightarrow> bool" where
  "replies_to tid msg = (case reply_key msg of None \<Rightarrow> False | Some t \<Rightarrow> py_eq t (PInt tid))"

lemma dispatch_cases:
  "dispatch_recvd_msg m s =
     (case reply_key m of
        None \<Rightarrow> s
      | Some t \<Rightarrow>
          (case req_key t (ic_req_dict s) of
             None \<Rightarrow> s
           | Some k \<Rightarrow>
               (case dict_get (ic_req_dict s) k of
                  None \<Rightarrow> s
                | Some q \<Rightarrow> s\<lparr>ic_req_dict := dict_del k (ic_req_dict s),
                    ic_queues := dict_set q (queued q s @ [m]) (ic_queues s)\<rparr>)))"
  by (auto simp: dispatch_recvd_msg_def reply_key_def queued_def split: option.splits sum.splits)

text \<open>Keys are compared by value, so at most one open request has the identifier of a message.\<close>

lemma py_eq_int_inj: "py_eq t (PInt a) \<Longrightarrow> py_eq t (PInt b) \<Longrightarrow> a = b"
  by (auto simp: py_eq_def is_int_def number_of_def is_float_def split: if_splits pyval.splits)

lemma req_key_Some: "req_key t d = Some k \<Longrightarrow> py_eq t (PInt k)"
  by (auto simp: req_key_def find_Some_iff)

lemma req_key_find: "py_eq t (PInt k) \<Longrightarrow> dict_has d k \<Longrightarrow> req_key t d = Some k"
proof -
  assume a: "py_eq t (PInt k)" "dict_has d k"
  then have "req_key t d \<noteq> None" by (auto simp: req_key_def find_None_iff dict_has_def)
  then obtain j where "req_key t d = Some j" by auto
  with req_key_Some [OF this] a(1) show ?thesis by (metis py_eq_int_inj)
qed

lemma dispatch_other:
  assumes "\<not> replies_to tid m" "dict_get (ic_req_dict s) tid = Some q" "ic_inv s"
  shows "dict_get (ic_req_dict (dispatch_recvd_msg m s)) tid = Some q \<and> queued q (dispatch_recvd_msg m s) = queued q s"
proof -
  have "q' \<noteq> q" if "dict_get (ic_req_dict s) k = Some q'" "k \<noteq> tid" for k q'
  proof
    assume "q' = q"
    then have "(k, q) \<in> set (ic_req_dict s)" "(tid, q) \<in> set (ic_req_dict s)"
      using that(1) assms(2) by (auto dest: dict_get_in_set)
    moreover have "inj_on snd (set (ic_req_dict s))" using assms(3) by (simp add: ic_inv_def distinct_map)
    ultimately show False using that(2) unfolding inj_on_def by (metis Pair_inject snd_conv)
  qed
  moreover have "\<forall>t. reply_key m = Some t \<longrightarrow> req_key t (ic_req_dict s) \<noteq> Some tid"
    using assms(1) req_key_Some [of _ "ic_req_dict s" tid] by (auto simp: replies_to_def)
  ultimately show ?thesis using assms(2)
    by (auto simp: dispatch_cases queued_def split: option.split)
qed

lemma dispatch_own:
  assumes "replies_to tid m" "dict_get (ic_req_dict s) tid = Some q" "ic_inv s"
  shows "dispatch_recvd_msg m s =
    s\<lparr>ic_req_dict := dict_del tid (ic_req_dict s), ic_queues := dict_set q [m] (ic_queues s)\<rparr>"
proof -
  obtain t where t: "reply_key m = Some t" "py_eq t (PInt tid)"
    using assms(1) by (auto simp: replies_to_def split: option.splits)
  have "dict_has (ic_req_dict s) tid" using assms(2) by (simp add: dict_has_iff)
  then have "req_key t (ic_req_dict s) = Some tid" using t by (rule_tac req_key_find)
  moreover have "q \<in> open_queues s" using assms(2) by (force simp: open_queues_def dest: dict_get_in_set)
  then have "queued q s = []" using assms(3) by (simp add: ic_inv_def)
  ultimately show ?thesis using t assms(2) by (simp add: dispatch_cases)
qed

definition same_world :: "iotcc \<Rightarrow> iotcc \<Rightarrow> bool" where
  "same_world s t \<longleftrightarrow> (\<exists>a b c. t = s\<lparr>ic_recv := a, ic_req_dict := b, ic_queues := c\<rparr>)"

lemma same_worldI: "t = s\<lparr>ic_recv := a, ic_req_dict := b, ic_queues := c\<rparr> \<Longrightarrow> same_world s t"
  by (auto simp: same_world_def)

lemma same_world_dispatch: "same_world s (dispatch_recvd_msg m (s\<lparr>ic_recv := ms\<rparr>))"
proof -
  have "same_world s (s\<lparr>ic_recv := ms\<rparr>)"
    by (rule same_worldI [where b = "ic_req_dict s" and c = "ic_queues s"]) simp
  moreover have "same_world s (s\<lparr>ic_recv := a, ic_req_dict := b, ic_queues := c\<rparr>)" for a b c
    by (rule same_worldI) simp
  ultimately show ?thesis by (auto simp: dispatch_cases split: option.splits)
qed

lemma same_world_trans: "same_world a b \<Longrightarrow> same_world b c \<Longrightarrow> same_world a c"
proof -
  assume "same_world a b" "same_world b c"
  then obtain x y z u v w where "b = a\<lparr>ic_recv := x, ic_req_dict := y, ic_queues := z\<rparr>"
    "c = b\<lparr>ic_recv := u, ic_req_dict := v, ic_queues := w\<rparr>" unfolding same_world_def by auto
  then have "c = a\<lparr>ic_recv := u, ic_req_dict := v, ic_queues := w\<rparr>" by simp
  then show ?thesis by (rule same_worldI)
qed

lemma queued_Nil: "queued q s = [] \<longleftrightarrow> dict_get (ic_queues s) q = None \<or> dict_get (ic_queues s) q = Some []"
  by (auto simp: queued_def split: option.splits)

lemma open_queue_empty:
  assumes "dict_get (ic_req_dict s) tid = Some q" "ic_inv s"
  shows "queued q s = []"
proof -
  have "q \<in> open_queues s" using assms(1) by (force simp: open_queues_def dest: dict_get_in_set)
  then show ?thesis using assms(2) by (simp add: ic_inv_def)
qed

lemma queue_get_next:
  "queued q s = [] \<Longrightarrow> ic_recv s = m # ms \<Longrightarrow> queue_get q s = queue_get q (dispatch_recvd_msg m (s\<lparr>ic_recv := ms\<rparr>))"
  by (subst queue_get.simps) (auto simp: queued_Nil)

text \<open>The first message with the right identifier is the result, whatever comes before it, and closes the request.\<close>

lemma queue_get_reply:
  assumes "dict_get (ic_req_dict s) tid = Some q" "ic_inv s" "ic_recv s = junk @ m # rest"
    "\<forall>x\<in>set junk. \<not> replies_to tid x" "replies_to tid m"
  shows "\<exists>t. queue_get q s = (Inr m, t) \<and> ic_recv t = rest \<and> same_world s t \<and> q \<notin> open_queues t \<and> queued q t = []"
  using assms
proof (induction junk arbitrary: s)
  case Nil
  let ?s = "s\<lparr>ic_recv := rest\<rparr>"
  have i: "ic_inv ?s" using Nil(2) keeps_inv_frame [of ?s s] by (simp add: keeps_inv_def)
  have d: "dispatch_recvd_msg m ?s =
      ?s\<lparr>ic_req_dict := dict_del tid (ic_req_dict s), ic_queues := dict_set q [m] (ic_queues s)\<rparr>"
    using dispatch_own [OF Nil(5) _ i] Nil(1) by simp
  have "queue_get q s = queue_get q (dispatch_recvd_msg m ?s)"
    using queue_get_next [OF open_queue_empty [OF Nil(1,2)]] Nil(3) by simp
  also have "\<dots> = (Inr m, ?s\<lparr>ic_req_dict := dict_del tid (ic_req_dict s),
      ic_queues := dict_set q [] (dict_set q [m] (ic_queues s))\<rparr>)"
    unfolding d by (subst queue_get.simps) simp
  finally have g: "queue_get q s = (Inr m, ?s\<lparr>ic_req_dict := dict_del tid (ic_req_dict s),
      ic_queues := dict_set q [] (dict_set q [m] (ic_queues s))\<rparr>)" .
  have "q \<notin> set (map snd (dict_del tid (ic_req_dict s)))"
    using Nil(2) by (intro snd_del_notin [OF _ _ Nil(1)]) (simp_all add: ic_inv_def)
  moreover have "same_world s (?s\<lparr>ic_req_dict := b, ic_queues := c\<rparr>)" for b c by (rule same_worldI) simp
  ultimately show ?case unfolding g by (simp add: open_queues_def queued_def)
next
  case (Cons x junk)
  let ?s = "s\<lparr>ic_recv := junk @ m # rest\<rparr>" and ?t = "dispatch_recvd_msg x (s\<lparr>ic_recv := junk @ m # rest\<rparr>)"
  have i: "ic_inv ?s" using Cons.prems(2) keeps_inv_frame [of ?s s] by (simp add: keeps_inv_def)
  have "dict_get (ic_req_dict ?t) tid = Some q" using dispatch_other [OF _ _ i] Cons.prems by simp
  moreover have "ic_inv ?t" using dispatch_inv [of ?s x] i by (simp add: keeps_inv_def)
  ultimately obtain t where t: "queue_get q ?t = (Inr m, t)" "ic_recv t = rest" "same_world ?t t"
    "q \<notin> open_queues t" "queued q t = []" using Cons.IH [of ?t] Cons.prems(4,5) by auto
  have "queue_get q s = queue_get q ?t"
    using queue_get_next [OF open_queue_empty [OF Cons.prems(1,2)]] Cons.prems(3) by simp
  with t same_world_trans [OF same_world_dispatch t(3)] show ?case by auto
qed

text \<open>Once the request is closed, the requester waits in vain.\<close>

lemma queue_get_closed:
  "q \<notin> open_queues s \<Longrightarrow> queued q s = [] \<Longrightarrow> fst (queue_get q s) = Inl QueueEmpty"
proof (induction "length (ic_recv s)" arbitrary: s)
  case 0
  then show ?case by (subst queue_get.simps) (auto simp: queued_def split: option.splits list.splits)
next
  case (Suc n)
  then obtain m ms where r: "ic_recv s = m # ms" by (cases "ic_recv s") auto
  let ?t = "dispatch_recvd_msg m (s\<lparr>ic_recv := ms\<rparr>)"
  have "open_queues ?t \<subseteq> open_queues s"
    by (auto simp: dispatch_cases open_queues_def AList.delete_eq split: option.splits)
  moreover have "queued q ?t = []"
  proof -
    have "x \<noteq> q" if "dict_get (ic_req_dict s) k = Some x" for k x
      using that Suc(3) by (force simp: open_queues_def dest: dict_get_in_set)
    then show ?thesis using Suc(4) by (auto simp: dispatch_cases queued_def split: option.splits)
  qed
  moreover have "queue_get q s = queue_get q ?t"
    using queue_get_next Suc(4) r by simp
  ultimately show ?case using Suc(1) [of ?t] Suc(2,3) r by auto
qed

end
