(* ===== verification/Iotcc_Registration.thy ===== *)
theory Iotcc_Registration
  imports Iotcc_Requests
begin

text \<open>
  What the operations of \<^verbatim>\<open>IotControlCenter\<close> achieve: the exchange of a request and its response, registration and
  its local records, the check of properties before they are sent, the record of the edge system after it was
  removed, and the contract of published metrics.
\<close>

section \<open>An exchange\<close>

definition next_tid :: "iotcc \<Rightarrow> int" where
  "next_tid s = 2 * ((ic_counter s + 1) mod 2 ^ 24)"

lemma new_request_eq:
  "new_request s = (Inr (next_tid s, ic_next_queue s),
     s\<lparr>ic_counter := (ic_counter s + 1) mod 2 ^ 24, ic_next_queue := ic_next_queue s + 1,
       ic_queues := dict_set (ic_next_queue s) [] (ic_queues s),
       ic_req_dict := dict_set (next_tid s) (ic_next_queue s) (ic_req_dict s)\<rparr>)"
  by (simp only: new_request_def bind_e_def next_id_eq prod.case sum.case Let_def next_tid_def) simp

text \<open>What is left of the state when the response has arrived: requests, queues and the log of sent messages
  have changed, and the request is closed.\<close>

definition exchanged :: "iotcc \<Rightarrow> pyval \<Rightarrow> pyval option list \<Rightarrow> iotcc \<Rightarrow> bool" where
  "exchanged s m rest t \<longleftrightarrow>
     (\<exists>c nq qs rd. t = s\<lparr>ic_counter := c, ic_next_queue := nq, ic_queues := qs, ic_req_dict := rd,
        ic_recv := rest, ic_sent := ic_sent s @ [m]\<rparr>) \<and>
     ic_inv t \<and> ic_next_queue s \<notin> open_queues t \<and> queued (ic_next_queue s) t = []"

lemma exchange:
  assumes inv: "ic_inv s" and m: "json_value (f (next_tid s))" "ic_send s (f (next_tid s)) = Inr ()"
    and recv: "ic_recv s = junk @ r # rest" "\<forall>x\<in>set junk. \<not> replies_to (next_tid s) x" "replies_to (next_tid s) r"
  shows "\<exists>t. bind_e new_request (\<lambda>(tid, q). then_e (send_json (f tid)) (bind_e (queue_get q) (k q))) s =
      k (ic_next_queue s) r t \<and> exchanged s (f (next_tid s)) rest t"
proof -
  let ?q = "ic_next_queue s" and ?m = "f (next_tid s)"
  define s1 where "s1 = snd (new_request s)"
  have s1: "new_request s = (Inr (next_tid s, ?q), s1)" unfolding s1_def new_request_eq by simp
  have i1: "ic_inv s1" using new_request_inv inv unfolding preserves_def keeps_inv_def s1_def by blast
  define s2 where "s2 = s1\<lparr>ic_sent := ic_sent s1 @ [?m]\<rparr>"
  have snd: "send_json ?m s1 = (Inr (), s2)" using m by (simp add: send_json_def s2_def s1_def new_request_eq)
  have i2: "ic_inv s2" using i1 keeps_inv_frame [of s2 s1] by (simp add: keeps_inv_def s2_def)
  have "dict_get (ic_req_dict s2) (next_tid s) = Some ?q" by (simp add: s2_def s1_def new_request_eq)
  moreover have "ic_recv s2 = junk @ r # rest" using recv(1) by (simp add: s2_def s1_def new_request_eq)
  ultimately obtain t where t: "queue_get ?q s2 = (Inr r, t)" "ic_recv t = rest" "same_world s2 t"
    "?q \<notin> open_queues t" "queued ?q t = []"
    using queue_get_reply [OF _ i2 _ recv(2,3)] by blast
  have "ic_inv t" using queue_get_inv [of ?q] i2 t(1) unfolding preserves_def keeps_inv_def by (metis snd_conv)
  moreover obtain b c where "t = s2\<lparr>ic_recv := rest, ic_req_dict := b, ic_queues := c\<rparr>"
    using t(2,3) unfolding same_world_def by fastforce
  then have "t = s\<lparr>ic_counter := (ic_counter s + 1) mod 2 ^ 24, ic_next_queue := ?q + 1, ic_queues := c, ic_req_dict := b,
        ic_recv := rest, ic_sent := ic_sent s @ [?m]\<rparr>"
    by (simp add: s2_def s1_def new_request_eq)
  ultimately have "exchanged s ?m rest t" using t(4,5) unfolding exchanged_def by blast
  moreover have "bind_e new_request (\<lambda>(tid, q). then_e (send_json (f tid)) (bind_e (queue_get q) (k q))) s = k ?q r t"
    using s1 snd t(1) by (simp add: bind_e_def then_e_def)
  ultimately show ?thesis by blast
qed

section \<open>Registration\<close>

lemma json_request: "json_value (request_msg i ty body) \<longleftrightarrow> (\<forall>p\<in>set body. json_value (snd p))"
  by (simp add: request_msg_def)

lemma json_registration [simp]: "json_value (registration i e)"
  by (simp add: registration_def json_request entity_body_def)

text \<open>A response to this request that is not the awaited one, e.g.\ that the resource is being created: the
  request is closed, so the next wait can only time out.\<close>

lemma on_response_closed:
  assumes "q \<notin> open_queues s" "queued q s = []" "registration_reply e msg = Inr None"
  shows "fst (on_response e q msg s) = Inl QueueEmpty"
proof -
  obtain s1 where "queue_get q s = (Inl QueueEmpty, s1)"
    using queue_get_closed [OF assms(1,2)] by (metis prod.collapse)
  then show ?thesis using assms(3) by (subst on_response.simps) simp
qed

lemma register_exchange:
  assumes "ic_inv s" "ic_send s (registration (next_tid s) (gateway_entity e)) = Inr ()"
    "ic_recv s = junk @ r # rest" "\<forall>x\<in>set junk. \<not> replies_to (next_tid s) x" "replies_to (next_tid s) r"
  shows "\<exists>t. register_entity e s =
      then_e (on_response (gateway_entity e) (ic_next_queue s) r) (complete_registration (gateway_entity e)) t \<and>
    exchanged s (registration (next_tid s) (gateway_entity e)) rest t"
  unfolding register_entity_def Let_def
  by (rule exchange [where f = "\<lambda>i. registration i (gateway_entity e)" and
        k = "\<lambda>q msg. then_e (on_response (gateway_entity e) q msg) (complete_registration (gateway_entity e))",
        OF assms(1) json_registration assms(2-5)])

lemma register_entity_not_created:
  assumes "ic_inv s" "ic_send s (registration (next_tid s) (gateway_entity e)) = Inr ()"
    "ic_recv s = junk @ r # rest" "\<forall>x\<in>set junk. \<not> replies_to (next_tid s) x" "replies_to (next_tid s) r"
    "registration_reply (gateway_entity e) r = Inr None"
  shows "fst (register_entity e s) = Inl QueueEmpty"
proof -
  obtain t where t: "register_entity e s =
      then_e (on_response (gateway_entity e) (ic_next_queue s) r) (complete_registration (gateway_entity e)) t"
    "exchanged s (registration (next_tid s) (gateway_entity e)) rest t"
    using register_exchange [OF assms(1-5)] by blast
  have "fst (on_response (gateway_entity e) (ic_next_queue s) r t) = Inl QueueEmpty"
    using t(2) assms(6) by (intro on_response_closed) (simp_all add: exchanged_def)
  then obtain t1 where "on_response (gateway_entity e) (ic_next_queue s) r t = (Inl QueueEmpty, t1)"
    by (metis prod.collapse)
  then show ?thesis unfolding t(1) then_e_def by (simp add: bind_e_def)
qed

text \<open>The local record and the discovery file of a device that is registered for the first time.\<close>

definition device_record :: "ic_entity \<Rightarrow> string \<Rightarrow> (string \<times> pyval) list" where
  "device_record e now =
     [(''entity type'', PStr ''Devices''), (''name'', PStr (ie_name e)), (''device type'', PStr (ie_type e)),
      (''Entity_Timestamp'', PStr now)]"

definition device_discovery_file :: "ic_entity \<Rightarrow> string \<Rightarrow> pyval" where
  "device_discovery_file e now =
     PDict [(''discovery'', PDict
       [(''remove'', PBool False),
        (''attributes'', PList [PDict [(''IoTDeviceType'', PStr (ie_type e))], PDict [(''IoTDeviceName'', PStr (ie_name e))],
           PDict [(''LastSeenTimestamp'', PStr now)]])])]"

lemma store_attributes_new_device:
  assumes "ie_type e \<noteq> ''HelixGateway''" "ic_entity_file_path s = Some d" "ic_dev_file_path s = Some dd"
    "\<not> dict_has (ic_files s) (d @ ''/'' @ u @ ''.json'')"
    "ic_writable s (d @ ''/'' @ u @ ''.json'')" "ic_writable s (dd @ ''/'' @ u @ ''.json'')"
  shows "store_attributes e (PStr u) None s =
    (Inr (), s\<lparr>ic_files := dict_set (dd @ ''/'' @ u @ ''.json'') (FJson (device_discovery_file e (ic_utc_text s)))
       (dict_set (d @ ''/'' @ u @ ''.json'') (FJson (PDict (device_record e (ic_local_text s)))) (ic_files s))\<rparr>)"
  using assms
  by (simp add: store_attributes_def store_reg_entity_attributes_def new_props_def uuid_path_def fresh_props_def
      outcome_simps write_entity_file_def write_json_def device_record_def device_discovery_file_def
      store_device_info_def write_entity_json_file_def discovery_msg_def hidden_keys_def Let_def)

lemma register_new_device:
  assumes "ic_inv s" "ic_send s (registration (next_tid s) e) = Inr ()"
    "ic_recv s = junk @ r # rest" "\<forall>x\<in>set junk. \<not> replies_to (next_tid s) x" "replies_to (next_tid s) r"
    "registration_reply e r = Inr (Some (PStr u))" "u \<noteq> []"
    "assert_input (PStr (ie_name e)) 50 = Inr ()" "assert_input (PStr (ie_type e)) 50 = Inr ()"
    "ie_type e \<noteq> ''HelixGateway''" "ie_type e \<noteq> ''EdgeSystem''" "ic_sys_properties s = None"
    "ic_entity_file_path s = Some d" "ic_dev_file_path s = Some dd"
    "\<not> dict_has (ic_files s) (d @ ''/'' @ u @ ''.json'')"
    "ic_writable s (d @ ''/'' @ u @ ''.json'')" "ic_writable s (dd @ ''/'' @ u @ ''.json'')"
  shows "\<exists>t. iotcc_register False None e s =
      (Inr \<lparr>ir_metric = False, ir_entity = e, ir_id = PStr u, ir_parent = None, ir_unit = None\<rparr>, t) \<and>
    ic_inv t \<and> ic_sent t = ic_sent s @ [registration (next_tid s) e] \<and> ic_recv t = rest \<and>
    ic_files t = dict_set (dd @ ''/'' @ u @ ''.json'') (FJson (device_discovery_file e (ic_utc_text s)))
       (dict_set (d @ ''/'' @ u @ ''.json'') (FJson (PDict (device_record e (ic_local_text s)))) (ic_files s))"
proof -
  have g: "gateway_entity e = e" using assms(11) by (simp add: gateway_entity_def)
  obtain t where t: "register_entity e s = then_e (on_response e (ic_next_queue s) r) (complete_registration e) t"
    "exchanged s (registration (next_tid s) e) rest t"
    using register_exchange [of s e, unfolded g, OF assms(1-5)] by blast
  from t(2) obtain c nq qs rd where e: "t = s\<lparr>ic_counter := c, ic_next_queue := nq, ic_queues := qs, ic_req_dict := rd,
        ic_recv := rest, ic_sent := ic_sent s @ [registration (next_tid s) e]\<rparr>" unfolding exchanged_def by blast
  define t1 where "t1 = t\<lparr>ic_reg_entity_id := PStr u\<rparr>"
  define t2 where "t2 = t1\<lparr>ic_files := dict_set (dd @ ''/'' @ u @ ''.json'') (FJson (device_discovery_file e (ic_utc_text s)))
       (dict_set (d @ ''/'' @ u @ ''.json'') (FJson (PDict (device_record e (ic_local_text s)))) (ic_files s))\<rparr>"
  have o: "on_response e (ic_next_queue s) r t = (Inr (), t1)"
    using assms(6) by (subst on_response.simps) (simp add: t1_def)
  have st: "store_attributes e (PStr u) None t1 = (Inr (), t2)"
    unfolding t2_def by (subst store_attributes_new_device [where d = d and dd = dd])
      (use assms in \<open>simp_all add: t1_def e\<close>)
  have "complete_registration e t1 =
    (Inr \<lparr>ir_metric = False, ir_entity = e, ir_id = PStr u, ir_parent = None, ir_unit = None\<rparr>, t2)"
    using assms(7,10,12) st by (simp add: complete_registration_def outcome_simps truthy_def t1_def e t2_def)
  then have r: "iotcc_register False None e s =
    (Inr \<lparr>ir_metric = False, ir_entity = e, ir_id = PStr u, ir_parent = None, ir_unit = None\<rparr>, t2)"
    using assms(8,9) t(1) o by (simp add: iotcc_register_def outcome_simps)
  moreover have "ic_inv t2"
    using register_inv [of False None e] assms(1) r unfolding preserves_def keeps_inv_def by (metis snd_conv)
  ultimately show ?thesis by (simp add: t2_def t1_def e)
qed

section \<open>Properties are checked before they are sent\<close>

definition safe_text :: "nat \<Rightarrow> pyval \<Rightarrow> bool" where
  "safe_text n v \<longleftrightarrow> (\<exists>s. v = PStr s \<and> s \<noteq> [] \<and> length s \<le> n \<and> (\<forall>c\<in>set s. input_char c))"

lemma input_char_LF: "input_char LF"
  by (simp add: input_char_def is_space_def Let_def)

lemma assert_input_safe: "assert_input v n = Inr () \<longleftrightarrow> safe_text n v"
proof -
  have "class_match input_char s \<longleftrightarrow> s \<noteq> [] \<and> (\<forall>c\<in>set s. input_char c)" for s
  proof (cases s rule: rev_cases)
    case (snoc xs x)
    then show ?thesis by (auto simp: class_match_def list_all_iff input_char_LF)
  qed (simp add: class_match_def)
  then show ?thesis by (cases v) (auto simp: assert_input_def safe_text_def)
qed

lemma property_data_safe:
  "(\<exists>ps. property_data props = Inr ps) \<longleftrightarrow> (\<forall>p\<in>set props. safe_text 100 (PStr (fst p)) \<and> safe_text 255 (snd p))"
proof (induction props)
  case (Cons p props)
  show ?case
    using Cons.IH assert_input_safe [of "PStr (fst p)" 100] assert_input_safe [of "snd p" 255]
    by (cases "assert_input (PStr (fst p)) 100"; cases "assert_input (snd p) 255"; cases "property_data props") auto
qed simp

lemma set_properties_unsafe:
  assumes "\<not> (\<forall>p\<in>set props. safe_text 100 (PStr (fst p)) \<and> safe_text 255 (snd p))"
  shows "\<exists>err. fst (set_properties r props s) = Inl err"
    "ic_sent (snd (set_properties r props s)) = ic_sent s" "ic_files (snd (set_properties r props s)) = ic_files s"
proof -
  have "\<forall>ps. property_data props \<noteq> Inr ps" using assms property_data_safe [of props] by blast
  then obtain err where "property_data props = Inl err" by (metis sum.exhaust)
  then have "\<exists>err t. set_properties r props s = (Inl err, t) \<and> ic_sent t = ic_sent s \<and> ic_files t = ic_files s"
    by (cases "property_entity r")
       (auto simp: set_properties_def outcome_simps properties_msg_def new_request_eq)
  then show "\<exists>err. fst (set_properties r props s) = Inl err"
    "ic_sent (snd (set_properties r props s)) = ic_sent s" "ic_files (snd (set_properties r props s)) = ic_files s" by auto
qed

section \<open>The record of the edge system\<close>

lemma dict_get_map: "dict_get (map (\<lambda>p. (fst p, f (snd p))) d) k = map_option f (dict_get d k)"
  by (induction d) auto

lemma json_value_get: "json_value (PDict d) \<Longrightarrow> dict_get d k = Some v \<Longrightarrow> json_value v"
  using dict_get_in_set [of d k v] by fastforce

lemma json_value_set: "json_value (PDict d) \<Longrightarrow> json_value v \<Longrightarrow> json_value (PDict (dict_set k v d))"
  using set_dict_set [of k v d] by fastforce

lemma json_value_del: "json_value (PDict d) \<Longrightarrow> json_value (PDict (dict_del k d))"
  by (auto simp: AList.delete_eq)

lemma load_retries_found: "v \<noteq> PStr [] \<Longrightarrow> load_retries n v = v"
  by (cases n) simp_all

text \<open>Removing the edge system deletes its section, and storing it again expects the section.\<close>

lemma edge_system_lost:
  assumes "ic_json s \<noteq> []" "dict_get (ic_files s) (ic_json s) = Some (FJson (PDict m))" "json_value (PDict m)"
    "dict_get m ''iotcc'' = Some (PDict c)" "dict_get c ''EdgeSystem'' = Some (PDict es)"
    "dict_get es ''SystemName'' = Some (PStr name)" "dict_get es ''uuid'' = Some (PStr u)" "ic_writable s (ic_json s)"
  shows "\<exists>t. remove_reg_entity_details name (PStr u) s = (Inr (), t) \<and>
    store_reg_entity_details ''HelixGateway'' name' uuid' local' t = (Inl KeyError, t)"
proof -
  let ?m = "PDict (dict_set ''iotcc'' (PDict (dict_del ''EdgeSystem'' c)) m)"
  let ?t = "s\<lparr>ic_files := dict_set (ic_json s) (FJson (json_norm ?m)) (ic_files s)\<rparr>"
  have "json_value (PDict c)" using json_value_get [OF assms(3,4)] .
  then have j: "json_value ?m" by (intro json_value_set json_value_del assms(3))
  have "remove_reg_entity_details name (PStr u) s = write_json (ic_json s) ?m s"
    using assms by (simp add: remove_reg_entity_details_def read_json_def py_item_def py_eq_def is_int_def is_float_def
        del: json_value.simps json_norm.simps)
  also have "\<dots> = (Inr (), ?t)" using j assms(8) by (simp add: write_json_def del: json_value.simps json_norm.simps)
  finally have r: "remove_reg_entity_details name (PStr u) s = (Inr (), ?t)" .
  obtain m' where m': "json_norm ?m = PDict m'"
    "dict_get m' ''iotcc'' = Some (PDict (map (\<lambda>p. (fst p, json_norm (snd p))) (dict_del ''EdgeSystem'' c)))"
    by (simp add: dict_get_map)
  have "load_json_record ?t = PDict m'"
    unfolding load_json_record_def by (simp add: read_json_def m'(1) load_retries_found del: json_norm.simps)
  moreover have "py_set_path [''iotcc'', ''EdgeSystem'', ''SystemName''] v (PDict m') = Inl KeyError" for v
    using m'(2) by (simp add: dict_get_map)
  ultimately have "store_reg_entity_details ''HelixGateway'' name' uuid' local' ?t = (Inl KeyError, ?t)"
    using assms(1) by (simp add: store_reg_entity_details_def Let_def set_edge_system_def del: json_norm.simps)
  with r show ?thesis by blast
qed

section \<open>Local records\<close>

lemma json_norm_idem: "json_norm (json_norm v) = json_norm v"
proof (induction v)
  case (PDict d)
  have "json_norm (json_norm (snd p)) = json_norm (snd p)" if "p \<in> set d" for p
    using PDict.IH [of p "snd p"] that by (cases p) auto
  then show ?case by simp
qed simp_all

text \<open>What is written to the record of an entity is read back, with the time of the writing.\<close>

lemma entity_file_roundtrip:
  assumes "write_entity_file props (PStr u) s = (Inr d, t)" "ic_entity_file_path s = Some dir"
    "ic_writable s (dir @ ''/'' @ u @ ''.json'')" "json_value (PDict props)"
  shows "d = dict_set ''Entity_Timestamp'' (PStr (ic_local_text s)) props"
    "read_entity_file (PStr u) t = Inr (json_norm (PDict d))"
proof -
  have j: "json_value (PDict (dict_set ''Entity_Timestamp'' (PStr (ic_local_text s)) props))"
    using assms(4) by (intro json_value_set) simp_all
  have e: "d = dict_set ''Entity_Timestamp'' (PStr (ic_local_text s)) props \<and>
    t = s\<lparr>ic_files := dict_set (dir @ ''/'' @ u @ ''.json'') (FJson (json_norm (PDict d))) (ic_files s)\<rparr>"
    using assms(1-3) j
    by (auto simp: write_entity_file_def uuid_path_def Let_def write_json_def simp del: json_value.simps json_norm.simps)
  then show "d = dict_set ''Entity_Timestamp'' (PStr (ic_local_text s)) props" by blast
  have t: "t = s\<lparr>ic_files := dict_set (dir @ ''/'' @ u @ ''.json'') (FJson (json_norm (PDict d))) (ic_files s)\<rparr>"
    using e by blast
  have "ic_files t = dict_set (dir @ ''/'' @ u @ ''.json'') (FJson (json_norm (PDict d))) (ic_files s)"
    "ic_entity_file_path t = Some dir" by (simp_all add: t assms(2) del: json_norm.simps)
  then show "read_entity_file (PStr u) t = Inr (json_norm (PDict d))"
    by (simp add: read_entity_file_def uuid_path_def read_json_def del: json_norm.simps)
qed

text \<open>Setting properties of a known entity keeps the other ones; of a changed entity it starts afresh.\<close>

lemma merged_props_same:
  assumes "dict_get d ''entity type'' = Some (PStr ty)" "dict_get d ''name'' = Some (PStr (ie_name e))"
    "dict_get d ''device type'' = Some (PStr (case dt of None \<Rightarrow> [] | Some t \<Rightarrow> t))"
  shows "merged_props ty e dt (Some ps) (PDict d) = Inr (dict_update d ps)"
  using assms
  by (cases dt) (simp_all add: merged_props_def same_entity_def and_r_def item_is_def py_in_def py_item_def dict_has_iff)

lemma merged_props_changed:
  assumes "dict_get d ''entity type'' = Some (PStr ty)" "dict_get d ''name'' = Some (PStr n)" "n \<noteq> ie_name e"
  shows "merged_props ty e dt ps (PDict d) = Inr (fresh_props ty (ie_name e) dt ps)"
  using assms
  by (simp add: merged_props_def same_entity_def and_r_def item_is_def py_in_def py_item_def dict_has_iff)

section \<open>Published metrics\<close>

lemma iotcc_samples_drain: "iotcc_samples vs ts xs = (Inr r, vs') \<Longrightarrow> vs' = []"
  by (induction vs arbitrary: ts xs) (auto split: if_splits sum.splits)

interpretation ioc: dcc "iotcc_format_data fmt par" for fmt par
proof unfold_locales
  show "\<exists>vs. snd (iotcc_format_data fmt par r) = r\<lparr>vals := vs\<rparr>" for r
    by (auto simp: iotcc_format_data_def no_vals Let_def simp del: json_dumps.simps split: prod.splits sum.splits option.splits)
  show "fst (iotcc_format_data fmt par r) = Inr x \<Longrightarrow> vals (snd (iotcc_format_data fmt par r)) = []" for r x
    by (auto simp: iotcc_format_data_def Let_def simp del: json_dumps.simps
        split: prod.splits sum.splits option.splits if_splits dest: iotcc_samples_drain)
qed

lemma iotcc_samples_map:
  "iotcc_samples (map sample tvs) ts xs = (Inr (ts @ map (\<lambda>tv. PInt (fst tv)) tvs, xs @ map snd tvs), [])"
  by (induction tvs arbitrary: ts xs) (auto simp: sample_def py_index_def)

text \<open>All samples go into one message, times and values in the order of collection.\<close>

lemma iotcc_format_samples:
  assumes "vals r = map sample tvs" "tvs \<noteq> []" "\<forall>tv\<in>set tvs. json_value (snd tv)"
  shows "\<exists>t. iotcc_format_data fmt (Some p) r = (Inr (Some t), r\<lparr>vals := []\<rparr>) \<and>
    json_dumps fmt (stats_msg p (m_name (ref_entity r)) (map (\<lambda>tv. PInt (fst tv)) tvs) (map snd tvs)) = Inr t"
proof -
  let ?m = "stats_msg p (m_name (ref_entity r)) (map (\<lambda>tv. PInt (fst tv)) tvs) (map snd tvs)"
  have "json_value ?m" using assms(3) by (auto simp: stats_msg_def entity_body_def)
  then obtain t where "json_dumps fmt ?m = Inr t" using json_dumps_ok by blast
  then show ?thesis using assms(1,2)
    by (simp add: iotcc_format_data_def iotcc_samples_map Let_def del: json_dumps.simps)
qed

end
