(* ===== verification/Mqtt_Transport.thy ===== *)
theory Mqtt_Transport
  imports Liota_Config
begin

text \<open>
  The MQTT transport (\<^verbatim>\<open>src/liota/lib/transports/mqtt.py\<close>) and the layer above it
  (\<^verbatim>\<open>src/liota/dcc_comms/mqtt_dcc_comms.py\<close>): checks of the TLS
  settings, connecting and disconnecting, subscriptions and their renewal after a reconnection, topics.

  The client library is represented by the log of the calls made on it and a function that answers a call from the
  calls before it; its callbacks are events that arrive while the transport waits, a list for every 10 ms. The module
  \<^verbatim>\<open>ssl\<close> is its table of attributes and a function that answers calls.
\<close>

section \<open>Settings\<close>

text \<open>\<^verbatim>\<open>Identity\<close>, \<^verbatim>\<open>TLSConf\<close> and \<^verbatim>\<open>QoSDetails\<close>.\<close>

record identity =
  root_ca_cert :: "string option"
  username :: "string option"
  password :: "string option"
  cert_file :: "string option"
  key_file :: "string option"

record tls_conf =
  cert_required :: "string option"
  tls_version :: "string option"
  cipher :: "string option"

record qos_details =
  in_flight :: pyval
  queue_size :: pyval
  retry :: pyval

datatype ssl_call =
    Ssl_context int
  | Ssl_load_cert_chain string string
  | Ssl_verify_mode int
  | Ssl_load_verify_locations string
  | Ssl_load_default_certs

record ssl_env =
  ssl_available :: bool
  ssl_default_certs :: bool
  ssl_attr :: "string \<Rightarrow> int option"
  ssl_check_hostname :: bool                           \<comment> \<open>contexts have the attribute\<close>
  ssl_do :: "ssl_call \<Rightarrow> py_error + unit"
  ssl_exists :: "string \<Rightarrow> bool"                      \<comment> \<open>\<^verbatim>\<open>os.path.exists\<close>\<close>
  ssl_crl_path :: "py_error + string"                  \<comment> \<open>the setting \<^verbatim>\<open>crl_path\<close>\<close>

text \<open>What is set up.\<close>

record tls_setup =
  ts_version :: int
  ts_chain :: "(string \<times> string) option"
  ts_hostname_off :: bool
  ts_verify_mode :: int
  ts_ca :: "string option"
  ts_crl :: "string option"
  ts_insecure :: bool

definition given :: "string option \<Rightarrow> bool" where
  "given p = (case p of None \<Rightarrow> False | Some s \<Rightarrow> s \<noteq> [])"

text \<open>\<^verbatim>\<open>getattr(ssl, n)\<close>.\<close>

definition ssl_getattr :: "ssl_env \<Rightarrow> string option \<Rightarrow> py_error + int" where
  "ssl_getattr env n =
     (case n of None \<Rightarrow> Inl TypeError
      | Some a \<Rightarrow> (case ssl_attr env a of None \<Rightarrow> Inl AttributeError | Some v \<Rightarrow> Inr v))"

definition check_root_ca :: "ssl_env \<Rightarrow> identity \<Rightarrow> py_error + unit" where
  "check_root_ca env i =
     (if root_ca_cert i = None \<and> \<not> ssl_default_certs env then Inl ValueError
      else if given (root_ca_cert i) \<and> \<not> ssl_exists env (the (root_ca_cert i)) then Inl ValueError
      else Inr ())"

definition tls_version_of :: "ssl_env \<Rightarrow> tls_conf \<Rightarrow> py_error + int" where
  "tls_version_of env c =
     (case tls_version c of
        None \<Rightarrow> bind_r (ssl_getattr env (Some ''PROTOCOL_TLSv1_2''))
                  (\<lambda>v. case ssl_attr env ''PROTOCOL_TLS'' of None \<Rightarrow> Inr v | Some w \<Rightarrow> Inr w)
      | Some v \<Rightarrow> ssl_getattr env (Some v))"

text \<open>A client certificate or key file: \<open>Inr False\<close> if none is given, an error if it does not exist.\<close>

definition check_file :: "ssl_env \<Rightarrow> string option \<Rightarrow> py_error + bool" where
  "check_file env p =
     (if \<not> given p then Inr False else if ssl_exists env (the p) then Inr True else Inl ValueError)"

definition client_chain :: "ssl_env \<Rightarrow> identity \<Rightarrow> bool \<Rightarrow> bool \<Rightarrow> py_error + (string \<times> string) option" where
  "client_chain env i have_cert have_key =
     (if have_cert \<and> have_key then
        bind_r (ssl_do env (Ssl_load_cert_chain (the (cert_file i)) (the (key_file i))))
          (\<lambda>_. Inr (Some (the (cert_file i), the (key_file i))))
      else if \<not> have_cert \<and> have_key then Inl ValueError
      else if have_cert \<and> \<not> have_key then Inl ValueError
      else Inr None)"

definition check_crl :: "ssl_env \<Rightarrow> py_error + string option" where
  "check_crl env =
     bind_r (ssl_crl_path env) (\<lambda>p.
       if p = [] \<or> p = ''None'' then Inr None
       else if ssl_exists env p then bind_r (ssl_do env (Ssl_load_verify_locations p)) (\<lambda>_. Inr (Some p))
       else Inl ValueError)"

text \<open>The TLS part of \<^verbatim>\<open>connect_soc\<close>. \<^verbatim>\<open>TLSConf\<close> has an attribute \<^verbatim>\<open>cipher\<close>, and the code asks it for \<^verbatim>\<open>ciphers\<close>.\<close>

definition setup_tls :: "ssl_env \<Rightarrow> identity option \<Rightarrow> tls_conf \<Rightarrow> py_error + tls_setup" where
  "setup_tls env ident c =
     (case ident of
        None \<Rightarrow> Inl ValueError
      | Some i \<Rightarrow>
          if \<not> ssl_available env then Inl ValueError
          else
            bind_r (check_root_ca env i) (\<lambda>_.
            bind_r (tls_version_of env c) (\<lambda>v.
            bind_r (ssl_do env (Ssl_context v)) (\<lambda>_.
            bind_r (check_file env (cert_file i)) (\<lambda>have_cert.
            bind_r (check_file env (key_file i)) (\<lambda>have_key.
            bind_r (client_chain env i have_cert have_key) (\<lambda>chain.
            bind_r (ssl_getattr env (cert_required c)) (\<lambda>mode.
            bind_r (ssl_getattr env (Some ''CERT_NONE'')) (\<lambda>none.
            bind_r (ssl_do env (Ssl_verify_mode mode)) (\<lambda>_.
            bind_r (case root_ca_cert i of
                      Some p \<Rightarrow> ssl_do env (Ssl_load_verify_locations p)
                    | None \<Rightarrow> ssl_do env Ssl_load_default_certs) (\<lambda>_.
            bind_r (if cipher c \<noteq> None then Inl AttributeError else Inr ()) (\<lambda>_.
            bind_r (check_crl env) (\<lambda>crl.
              Inr \<lparr>ts_version = v, ts_chain = chain, ts_hostname_off = (mode = none \<and> ssl_check_hostname env),
                   ts_verify_mode = mode, ts_ca = root_ca_cert i, ts_crl = crl, ts_insecure = (mode = none)\<rparr>)))))))))))))"

definition setup_auth :: "bool \<Rightarrow> identity option \<Rightarrow> py_error + (string \<times> string) option" where
  "setup_auth enable ident =
     (if \<not> enable then Inr None
      else case ident of
             None \<Rightarrow> Inl ValueError
           | Some i \<Rightarrow>
               (case (username i, password i) of
                  (None, _) \<Rightarrow> Inl ValueError
                | (Some _, None) \<Rightarrow> Inl ValueError
                | (Some u, Some p) \<Rightarrow> Inr (Some (u, p))))"

section \<open>The transport\<close>

text \<open>A topic may be missing (\<^verbatim>\<open>None\<close>).\<close>

type_synonym topic = "string option"

datatype paho_call =
    Paho_tls tls_setup
  | Paho_username_pw string string
  | Paho_qos qos_details
  | Paho_connect
  | Paho_loop_start
  | Paho_loop_stop
  | Paho_disconnect
  | Paho_subscribe topic int
  | Paho_callback_add topic nat
  | Paho_unsubscribe topic
  | Paho_callback_remove topic
  | Paho_publish topic string int bool

text \<open>Callbacks are known by numbers; an answer is an exception or a result code.\<close>

record mqtt =
  connect_rc :: int
  disconnect_rc :: int
  sub_dict :: "(topic, int \<times> nat) dict"
  paho_log :: "paho_call list"
  paho_answer :: "paho_call list \<Rightarrow> paho_call \<Rightarrow> py_error + int"
  conn_disconn_timeout :: nat                          \<comment> \<open>seconds; a negative number would wait for ever\<close>

definition maxsize :: int where "maxsize = 2 ^ 63 - 1"

definition paho_do :: "paho_call \<Rightarrow> mqtt \<Rightarrow> (mqtt, int) outcome" where
  "paho_do c s = (paho_answer s (paho_log s) c, s\<lparr>paho_log := paho_log s @ [c]\<rparr>)"

text \<open>\<^verbatim>\<open>subscribe\<close> and \<^verbatim>\<open>unsubscribe\<close> drop every exception; \<^verbatim>\<open>setdefault\<close> keeps an entry that is already there.\<close>

definition mqtt_subscribe :: "topic \<Rightarrow> int \<Rightarrow> nat \<Rightarrow> mqtt \<Rightarrow> mqtt" where
  "mqtt_subscribe topic qos callback s =
     snd (then_e (paho_do (Paho_subscribe topic qos)) (paho_do (Paho_callback_add topic callback))
       (if dict_has (sub_dict s) topic then s else s\<lparr>sub_dict := dict_set topic (qos, callback) (sub_dict s)\<rparr>))"

definition mqtt_unsubscribe :: "topic \<Rightarrow> mqtt \<Rightarrow> mqtt" where
  "mqtt_unsubscribe topic s =
     snd (then_e (paho_do (Paho_unsubscribe topic)) (paho_do (Paho_callback_remove topic))
       (s\<lparr>sub_dict := dict_del topic (sub_dict s)\<rparr>))"

definition mqtt_publish :: "topic \<Rightarrow> string \<Rightarrow> int \<Rightarrow> bool \<Rightarrow> mqtt \<Rightarrow> (mqtt, unit) outcome" where
  "mqtt_publish topic message qos retain =
     bind_e (paho_do (Paho_publish topic message qos retain)) (\<lambda>rc. if rc = 0 then return_e () else raise_e GenericException)"

text \<open>The callbacks of the client.\<close>

definition on_disconnect :: "int \<Rightarrow> mqtt \<Rightarrow> mqtt" where
  "on_disconnect rc s = s\<lparr>connect_rc := maxsize, disconnect_rc := rc\<rparr>"

primrec resubscribe :: "(topic \<times> int \<times> nat) list \<Rightarrow> mqtt \<Rightarrow> mqtt" where
  "resubscribe [] s = s"
| "resubscribe (e # es) s = resubscribe es (mqtt_subscribe (fst e) (fst (snd e)) (snd (snd e)) s)"

definition on_connect :: "int \<Rightarrow> mqtt \<Rightarrow> mqtt" where
  "on_connect rc s = resubscribe (sub_dict s) (s\<lparr>connect_rc := rc, disconnect_rc := maxsize\<rparr>)"

datatype mqtt_event = EConnect int | EDisconnect int

primrec handle_event :: "mqtt_event \<Rightarrow> mqtt \<Rightarrow> mqtt" where
  "handle_event (EConnect rc) s = on_connect rc s"
| "handle_event (EDisconnect rc) s = on_disconnect rc s"

text \<open>The waiting loops: at most \<open>n\<close> rounds of 10 ms, as long as the code has its initial value.\<close>

primrec wait_code :: "nat \<Rightarrow> (mqtt \<Rightarrow> int) \<Rightarrow> mqtt_event list list \<Rightarrow> mqtt \<Rightarrow> mqtt" where
  "wait_code 0 code evs s = s"
| "wait_code (Suc n) code evs s =
     (if code s \<noteq> maxsize then s
      else case evs of
             [] \<Rightarrow> wait_code n code [] s
           | e # es \<Rightarrow> wait_code n code es (fold handle_event e s))"

definition await_connection :: "mqtt_event list list \<Rightarrow> mqtt \<Rightarrow> (mqtt, unit) outcome" where
  "await_connection evs s0 =
     (let s = wait_code (conn_disconn_timeout s0 * 100) connect_rc evs s0 in
      if connect_rc s = 0 then (Inr (), s)
      else then_e (paho_do Paho_loop_stop) (raise_e GenericException) s)"

definition connect_soc ::
  "ssl_env \<Rightarrow> identity option \<Rightarrow> tls_conf option \<Rightarrow> bool \<Rightarrow> qos_details option \<Rightarrow> mqtt_event list list \<Rightarrow> mqtt \<Rightarrow> (mqtt, unit) outcome" where
  "connect_soc env ident tls auth qos evs =
     then_e (case tls of
               None \<Rightarrow> return_e 0
             | Some c \<Rightarrow> bind_e (lift_e (setup_tls env ident c)) (\<lambda>t. paho_do (Paho_tls t)))
     (then_e (bind_e (lift_e (setup_auth auth ident)) (\<lambda>up.
                case up of None \<Rightarrow> return_e 0 | Some (u, p) \<Rightarrow> paho_do (Paho_username_pw u p)))
     (then_e (case qos of None \<Rightarrow> return_e 0 | Some q \<Rightarrow> paho_do (Paho_qos q))
     (then_e (paho_do Paho_connect)
     (then_e (paho_do Paho_loop_start)
       (await_connection evs)))))"

definition Mqtt ::
  "ssl_env \<Rightarrow> identity option \<Rightarrow> tls_conf option \<Rightarrow> bool \<Rightarrow> qos_details option \<Rightarrow> mqtt_event list list \<Rightarrow> mqtt \<Rightarrow> (mqtt, unit) outcome" where
  "Mqtt env ident tls auth qos evs =
     then_e (modify_e (\<lambda>s. s\<lparr>connect_rc := maxsize, disconnect_rc := maxsize, sub_dict := []\<rparr>))
       (connect_soc env ident tls auth qos evs)"

definition mqtt_disconnect :: "mqtt_event list list \<Rightarrow> mqtt \<Rightarrow> (mqtt, unit) outcome" where
  "mqtt_disconnect evs =
     then_e (paho_do Paho_disconnect) (\<lambda>s0.
       let s = wait_code (conn_disconn_timeout s0 * 100) disconnect_rc evs s0 in
       if disconnect_rc s = 0 then then_e (paho_do Paho_loop_stop) (return_e ()) s
       else (Inl GenericException, s))"

section \<open>Topics\<close>

record mqtt_msg_attr =
  pub_topic :: topic
  sub_topic :: topic
  pub_qos :: int
  sub_qos :: int
  pub_retain :: bool
  sub_callback :: "nat option"

text \<open>\<^verbatim>\<open>MqttMessagingAttributes.__init__\<close>; \<open>pub_retain\<close> is \<open>None\<close> when it is no boolean, and a callback is a number or, if it is
  not callable, \<open>Inl\<close>.\<close>

definition MqttMessagingAttributes ::
  "string option \<Rightarrow> string option \<Rightarrow> string option \<Rightarrow> int \<Rightarrow> int \<Rightarrow> bool option \<Rightarrow> (unit + nat) option \<Rightarrow>
   uuid_env \<Rightarrow> (uuid_env, mqtt_msg_attr) outcome" where
  "MqttMessagingAttributes edge_system_name pt st pq sq retain cb u =
     (let auto = given edge_system_name;
          r = get_uuid (the edge_system_name) u;
          u' = (if auto then snd r else u);
          pt' = (if auto then Some (''liota/'' @ fst r @ ''/request'') else pt);
          st' = (if auto then Some (''liota/'' @ fst (get_uuid (the edge_system_name) u') @ ''/response'') else st)
      in (if pq < 0 \<or> 2 < pq \<or> sq < 0 \<or> 2 < sq then Inl ValueError
          else case retain of
                 None \<Rightarrow> Inl ValueError
               | Some b \<Rightarrow>
                   (case cb of
                      Some (Inl _) \<Rightarrow> Inl ValueError
                    | None \<Rightarrow> Inr \<lparr>pub_topic = pt', sub_topic = st', pub_qos = pq, sub_qos = sq, pub_retain = b, sub_callback = None\<rparr>
                    | Some (Inr c) \<Rightarrow> Inr \<lparr>pub_topic = pt', sub_topic = st', pub_qos = pq, sub_qos = sq, pub_retain = b,
                                             sub_callback = Some c\<rparr>), u'))"

section \<open>Communication of data center components\<close>

record mqtt_comms =
  mc_client_id :: string
  mc_attr :: mqtt_msg_attr
  mc_client :: mqtt
  mc_userdata :: "string list"                        \<comment> \<open>the queue of received payloads\<close>

text \<open>\<^verbatim>\<open>MqttDccComms.__init__\<close> before it connects: client identifier and topics.\<close>

definition mqtt_comms_settings ::
  "string \<Rightarrow> string option \<Rightarrow> (unit + mqtt_msg_attr) option \<Rightarrow> uuid_env \<Rightarrow> (uuid_env, string \<times> mqtt_msg_attr) outcome" where
  "mqtt_comms_settings edge_system_name client_id attr u =
     (let (cid, u1) = (case client_id of None \<Rightarrow> get_uuid edge_system_name u | Some c \<Rightarrow> (c, u)) in
      case attr of
        None \<Rightarrow> bind_e (MqttMessagingAttributes (Some edge_system_name) None None 1 1 (Some False) None) (\<lambda>a. return_e (cid, a)) u1
      | Some (Inr a) \<Rightarrow> (Inr (cid, a), u1)
      | Some (Inl _) \<Rightarrow> (Inl TypeError, u1))"

text \<open>The constructor, on a new client; if it raises there is no object.\<close>

definition MqttDccComms ::
  "ssl_env \<Rightarrow> identity option \<Rightarrow> tls_conf option \<Rightarrow> bool \<Rightarrow> qos_details option \<Rightarrow> mqtt_event list list \<Rightarrow> mqtt \<Rightarrow>
   string \<Rightarrow> string option \<Rightarrow> (unit + mqtt_msg_attr) option \<Rightarrow> uuid_env \<Rightarrow> (uuid_env, mqtt_comms) outcome" where
  "MqttDccComms env ident tls auth qos evs client edge_system_name client_id attr =
     bind_e (mqtt_comms_settings edge_system_name client_id attr) (\<lambda>(cid, a).
       case Mqtt env ident tls auth qos evs client of
         (Inl e, _) \<Rightarrow> raise_e e
       | (Inr _, m) \<Rightarrow> return_e \<lparr>mc_client_id = cid, mc_attr = a, mc_client = m, mc_userdata = []\<rparr>)"

definition mqtt_comms_disconnect :: "mqtt_event list list \<Rightarrow> mqtt_comms \<Rightarrow> (mqtt_comms, unit) outcome" where
  "mqtt_comms_disconnect evs c = (case mqtt_disconnect evs (mc_client c) of (r, m) \<Rightarrow> (r, c\<lparr>mc_client := m\<rparr>))"

text \<open>\<^verbatim>\<open>receive_message\<close> as a callback has the number 0.\<close>

definition mqtt_comms_receive :: "mqtt_msg_attr option \<Rightarrow> mqtt_comms \<Rightarrow> mqtt_comms" where
  "mqtt_comms_receive msg_attr c =
     (let callback = (case msg_attr of Some a \<Rightarrow> (case sub_callback a of Some f \<Rightarrow> f | None \<Rightarrow> 0) | None \<Rightarrow> 0);
          a = (case msg_attr of Some a \<Rightarrow> a | None \<Rightarrow> mc_attr c)
      in c\<lparr>mc_client := mqtt_subscribe (sub_topic a) (sub_qos a) callback (mc_client c)\<rparr>)"

definition receive_message :: "string \<Rightarrow> mqtt_comms \<Rightarrow> mqtt_comms" where
  "receive_message payload c = c\<lparr>mc_userdata := mc_userdata c @ [payload]\<rparr>"

definition mqtt_comms_send :: "string \<Rightarrow> mqtt_msg_attr option \<Rightarrow> mqtt_comms \<Rightarrow> (mqtt_comms, unit) outcome" where
  "mqtt_comms_send message msg_attr c =
     (let a = (case msg_attr of Some a \<Rightarrow> a | None \<Rightarrow> mc_attr c) in
      case mqtt_publish (pub_topic a) message (pub_qos a) (pub_retain a) (mc_client c) of
        (r, m) \<Rightarrow> (r, c\<lparr>mc_client := m\<rparr>))"

section \<open>Subscriptions survive a reconnection\<close>

lemma subscribe_dict:
  "sub_dict (mqtt_subscribe t q c s) =
     (if dict_has (sub_dict s) t then sub_dict s else dict_set t (q, c) (sub_dict s))"
  by (auto simp: mqtt_subscribe_def paho_do_def outcome_simps split: sum.splits)

lemma subscribe_log:
  "\<exists>cs. paho_log (mqtt_subscribe t q c s) = paho_log s @ Paho_subscribe t q # cs"
  by (auto simp: mqtt_subscribe_def paho_do_def outcome_simps split: sum.splits)

lemma subscribe_codes [simp]:
  "connect_rc (mqtt_subscribe t q c s) = connect_rc s" "disconnect_rc (mqtt_subscribe t q c s) = disconnect_rc s"
  "paho_answer (mqtt_subscribe t q c s) = paho_answer s"
  by (auto simp: mqtt_subscribe_def paho_do_def outcome_simps split: sum.splits)

lemma resubscribe_keeps:
  assumes "\<forall>e\<in>set es. dict_has (sub_dict s) (fst e)"
  shows "sub_dict (resubscribe es s) = sub_dict s \<and> connect_rc (resubscribe es s) = connect_rc s \<and>
    disconnect_rc (resubscribe es s) = disconnect_rc s \<and>
    (\<exists>cs. paho_log (resubscribe es s) = paho_log s @ cs \<and> (\<forall>e\<in>set es. Paho_subscribe (fst e) (fst (snd e)) \<in> set cs))"
  using assms
proof (induction es arbitrary: s)
  case (Cons e es)
  let ?s = "mqtt_subscribe (fst e) (fst (snd e)) (snd (snd e)) s"
  have d: "sub_dict ?s = sub_dict s" using Cons.prems by (simp add: subscribe_dict)
  obtain cs where "paho_log ?s = paho_log s @ Paho_subscribe (fst e) (fst (snd e)) # cs" using subscribe_log by blast
  with Cons.IH [of ?s] Cons.prems d show ?case by (auto simp del: split_paired_Ex)
qed simp

lemma on_connect_resubscribes:
  "sub_dict (on_connect rc s) = sub_dict s \<and> connect_rc (on_connect rc s) = rc \<and> disconnect_rc (on_connect rc s) = maxsize \<and>
   (\<exists>cs. paho_log (on_connect rc s) = paho_log s @ cs \<and>
      (\<forall>e\<in>set (sub_dict s). Paho_subscribe (fst e) (fst (snd e)) \<in> set cs))"
  using resubscribe_keeps [of "sub_dict s" "s\<lparr>connect_rc := rc, disconnect_rc := maxsize\<rparr>"]
  unfolding on_connect_def by (auto simp: dict_has_def)

text \<open>Whatever happens, short of unsubscribing, a topic keeps the first quality of service and callback it was subscribed
  with.\<close>

datatype mqtt_op = MSubscribe topic int nat | MUnsubscribe topic | MPublish topic string int bool | MEvent mqtt_event

primrec mqtt_do :: "mqtt_op \<Rightarrow> mqtt \<Rightarrow> mqtt" where
  "mqtt_do (MSubscribe t q c) s = mqtt_subscribe t q c s"
| "mqtt_do (MUnsubscribe t) s = mqtt_unsubscribe t s"
| "mqtt_do (MPublish t m q r) s = snd (mqtt_publish t m q r s)"
| "mqtt_do (MEvent e) s = handle_event e s"

lemma unsubscribe_fields [simp]:
  "sub_dict (mqtt_unsubscribe t s) = dict_del t (sub_dict s)" "paho_answer (mqtt_unsubscribe t s) = paho_answer s"
  by (auto simp: mqtt_unsubscribe_def paho_do_def outcome_simps split: sum.splits)

lemma publish_fields [simp]:
  "sub_dict (snd (mqtt_publish t m q r s)) = sub_dict s" "paho_answer (snd (mqtt_publish t m q r s)) = paho_answer s"
  by (auto simp: mqtt_publish_def paho_do_def outcome_simps split: sum.splits)

lemma resubscribe_answer [simp]: "paho_answer (resubscribe es s) = paho_answer s"
  by (induction es arbitrary: s) auto

lemma handle_event_fields [simp]:
  "sub_dict (handle_event e s) = sub_dict s" "paho_answer (handle_event e s) = paho_answer s"
  using on_connect_resubscribes [of _ s] by (cases e; auto simp: on_disconnect_def on_connect_def)+

lemma mqtt_do_dict:
  "sub_dict (mqtt_do a s) =
     (case a of MSubscribe t q c \<Rightarrow> if dict_has (sub_dict s) t then sub_dict s else dict_set t (q, c) (sub_dict s)
      | MUnsubscribe t \<Rightarrow> dict_del t (sub_dict s) | _ \<Rightarrow> sub_dict s)"
  by (cases a) (simp_all add: subscribe_dict)

lemma mqtt_do_answer [simp]: "paho_answer (mqtt_do a s) = paho_answer s"
  by (cases a) simp_all

lemma mqtt_do_keeps:
  "dict_get (sub_dict s) t = Some x \<Longrightarrow> a \<noteq> MUnsubscribe t \<Longrightarrow> dict_get (sub_dict (mqtt_do a s)) t = Some x"
  unfolding mqtt_do_dict by (cases a) (auto simp: dict_has_iff simp del: not_None_eq split_paired_Ex)

lemma mqtt_fold_keeps:
  "dict_get (sub_dict s) t = Some x \<Longrightarrow> MUnsubscribe t \<notin> set as \<Longrightarrow> dict_get (sub_dict (fold mqtt_do as s)) t = Some x"
  by (induction as arbitrary: s) (auto simp: mqtt_do_keeps)

lemma mqtt_fold_ok: "dict_ok (sub_dict s) \<Longrightarrow> dict_ok (sub_dict (fold mqtt_do as s))"
proof (induction as arbitrary: s)
  case (Cons a as)
  then have "dict_ok (sub_dict (mqtt_do a s))" unfolding mqtt_do_dict by (cases a) (auto simp: dict_ok_set dict_ok_del)
  with Cons.IH show ?case by simp
qed simp

lemma mqtt_fold_answer [simp]: "paho_answer (fold mqtt_do as s) = paho_answer s"
  by (induction as arbitrary: s) auto

text \<open>So a second subscription to a topic is forgotten by the next reconnection.\<close>

lemma resubscribe_all_ok:
  assumes "\<forall>h c. \<exists>rc. paho_answer s h c = Inr rc" "\<forall>e\<in>set es. dict_has (sub_dict s) (fst e)"
  shows "paho_log (resubscribe es s) =
    paho_log s @ concat (map (\<lambda>e. [Paho_subscribe (fst e) (fst (snd e)), Paho_callback_add (fst e) (snd (snd e))]) es)"
  using assms
proof (induction es arbitrary: s)
  case (Cons e es)
  let ?s = "mqtt_subscribe (fst e) (fst (snd e)) (snd (snd e)) s"
  have "sub_dict ?s = sub_dict s" using Cons.prems by (simp add: subscribe_dict)
  moreover have "paho_log ?s = paho_log s @ [Paho_subscribe (fst e) (fst (snd e)), Paho_callback_add (fst e) (snd (snd e))]"
  proof -
    obtain r where "paho_answer s (paho_log s) (Paho_subscribe (fst e) (fst (snd e))) = Inr r" using Cons.prems(1) by blast
    then show ?thesis using Cons.prems(2) by (simp add: mqtt_subscribe_def paho_do_def outcome_simps)
  qed
  ultimately show ?case using Cons.IH [of ?s] Cons.prems by auto
qed simp

lemma reconnect_log:
  assumes "\<forall>h c. \<exists>rc. paho_answer s h c = Inr rc"
  shows "paho_log (on_connect rc s) =
    paho_log s @ concat (map (\<lambda>e. [Paho_subscribe (fst e) (fst (snd e)), Paho_callback_add (fst e) (snd (snd e))]) (sub_dict s))"
  using resubscribe_all_ok [of "s\<lparr>connect_rc := rc, disconnect_rc := maxsize\<rparr>" "sub_dict s"] assms
  unfolding on_connect_def by (auto simp: dict_has_def)

lemma reconnect_renews:
  assumes ok: "\<forall>h c. \<exists>rc. paho_answer s h c = Inr rc" and d: "dict_ok (sub_dict s)" "dict_get (sub_dict s) t = Some (q, c)"
  shows "\<exists>new. paho_log (on_connect rc s) = paho_log s @ new \<and>
    (\<forall>q'. Paho_subscribe t q' \<in> set new \<longleftrightarrow> q' = q) \<and> (\<forall>c'. Paho_callback_add t c' \<in> set new \<longleftrightarrow> c' = c)"
proof -
  have u: "(t, q', c') \<in> set (sub_dict s) \<longleftrightarrow> q' = q \<and> c' = c" for q' c'
    using d dict_get_eq_iff [OF d(1), of t "(q', c')"] by auto
  have "Paho_subscribe t q' \<in> set (concat (map (\<lambda>e. [Paho_subscribe (fst e) (fst (snd e)), Paho_callback_add (fst e) (snd (snd e))])
      (sub_dict s))) \<longleftrightarrow> (\<exists>c'. (t, q', c') \<in> set (sub_dict s))" for q' by force
  moreover have "Paho_callback_add t c' \<in> set (concat (map (\<lambda>e. [Paho_subscribe (fst e) (fst (snd e)),
      Paho_callback_add (fst e) (snd (snd e))]) (sub_dict s))) \<longleftrightarrow> (\<exists>q'. (t, q', c') \<in> set (sub_dict s))" for c' by force
  ultimately show ?thesis using reconnect_log [OF ok, of rc] u by auto
qed

section \<open>Connecting\<close>

text \<open>The loop ends with the first round that changes the code, or after all its rounds.\<close>

lemma wait_code_quiet:
  "code s = maxsize \<Longrightarrow> \<forall>e\<in>set (take n evs). e = [] \<Longrightarrow> wait_code n code evs s = s"
proof (induction n arbitrary: evs)
  case (Suc n)
  then show ?case by (cases evs) auto
qed simp

lemma wait_code_event:
  assumes "code s = maxsize" "length quiet < n" "\<forall>x\<in>set quiet. x = []" "code (fold handle_event e s) \<noteq> maxsize"
  shows "wait_code n code (quiet @ e # rest) s = fold handle_event e s"
  using assms
proof (induction quiet arbitrary: n)
  case Nil
  then obtain m where "n = Suc m" by (cases n) auto
  with Nil show ?case by (cases m) auto
next
  case (Cons x quiet)
  then obtain m where "n = Suc m" by (cases n) auto
  with Cons show ?case by auto
qed

text \<open>The answer of the broker decides; without one in time the connection fails and the network loop is stopped.\<close>

lemma await_connection_answer:
  assumes "connect_rc s = maxsize" "length quiet < conn_disconn_timeout s * 100" "\<forall>x\<in>set quiet. x = []" "rc \<noteq> maxsize"
  shows "fst (await_connection (quiet @ [EConnect rc] # rest) s) = Inr () \<longleftrightarrow> rc = 0"
proof -
  have c: "connect_rc (on_connect rc s) = rc" using on_connect_resubscribes by blast
  have "wait_code (conn_disconn_timeout s * 100) connect_rc (quiet @ [EConnect rc] # rest) s = on_connect rc s"
    using wait_code_event [of connect_rc s quiet "conn_disconn_timeout s * 100" "[EConnect rc]" rest] assms c by simp
  then show ?thesis using c
    by (auto simp: await_connection_def Let_def paho_do_def outcome_simps split: sum.splits)
qed

lemma await_connection_timeout:
  assumes "connect_rc s = maxsize" "\<forall>e\<in>set (take (conn_disconn_timeout s * 100) evs). e = []"
  shows "\<exists>e. fst (await_connection evs s) = Inl e" "paho_log (snd (await_connection evs s)) = paho_log s @ [Paho_loop_stop]"
proof -
  have "wait_code (conn_disconn_timeout s * 100) connect_rc evs s = s" by (rule wait_code_quiet) (use assms in auto)
  then show "\<exists>e. fst (await_connection evs s) = Inl e" "paho_log (snd (await_connection evs s)) = paho_log s @ [Paho_loop_stop]"
    using assms(1)
    by (auto simp: await_connection_def Let_def paho_do_def outcome_simps maxsize_def split: sum.splits)
qed

section \<open>TLS settings\<close>

lemma check_file_Inr: "check_file env p = Inr b \<Longrightarrow> b = given p \<and> (given p \<longrightarrow> ssl_exists env (the p))"
  by (auto simp: check_file_def split: if_splits)

lemma client_chain_Inr:
  "client_chain env i a b = Inr ch \<Longrightarrow> a = b \<and> ch = (if a then Some (the (cert_file i), the (key_file i)) else None)"
  by (auto simp: client_chain_def bind_r_Inr split: if_splits)

text \<open>A set-up that succeeds has an identity, a certificate together with its key or neither, existing files, a mode the
  module knows, and hostname checks off exactly if certificates are not required; and no cipher.\<close>

lemma setup_tls_safe:
  assumes "setup_tls env ident c = Inr t"
  shows "\<exists>i none. ident = Some i \<and> ssl_attr env ''CERT_NONE'' = Some none \<and>
    (given (cert_file i) \<longleftrightarrow> given (key_file i)) \<and>
    (given (cert_file i) \<longrightarrow> ssl_exists env (the (cert_file i)) \<and> ssl_exists env (the (key_file i)) \<and>
       ts_chain t = Some (the (cert_file i), the (key_file i))) \<and>
    (given (root_ca_cert i) \<longrightarrow> ssl_exists env (the (root_ca_cert i))) \<and>
    (ts_insecure t \<longleftrightarrow> ts_verify_mode t = none) \<and> (\<forall>p. ts_crl t = Some p \<longrightarrow> ssl_exists env p) \<and>
    cert_required c \<noteq> None \<and> cipher c = None"
proof -
  obtain i where i: "ident = Some i" using assms by (auto simp: setup_tls_def split: option.splits)
  obtain hc hk chain mode none crl where r: "check_root_ca env i = Inr ()" "check_file env (cert_file i) = Inr hc"
    "check_file env (key_file i) = Inr hk" "client_chain env i hc hk = Inr chain"
    "ssl_getattr env (cert_required c) = Inr mode" "ssl_getattr env (Some ''CERT_NONE'') = Inr none"
    "cipher c = None" "check_crl env = Inr crl"
    "ts_chain t = chain" "ts_verify_mode t = mode" "ts_crl t = crl" "ts_insecure t = (mode = none)"
    using assms i by (auto simp: setup_tls_def bind_r_Inr split: if_splits)
  have "ssl_exists env p" if "crl = Some p" for p
    using r(8) that by (auto simp: check_crl_def bind_r_Inr split: if_splits)
  moreover have "given (root_ca_cert i) \<longrightarrow> ssl_exists env (the (root_ca_cert i))"
    using r(1) by (auto simp: check_root_ca_def split: if_splits)
  moreover have "cert_required c \<noteq> None" "ssl_attr env ''CERT_NONE'' = Some none"
    using r(5,6) by (auto simp: ssl_getattr_def split: option.splits)
  ultimately show ?thesis using i r check_file_Inr [OF r(2)] check_file_Inr [OF r(3)] client_chain_Inr [OF r(4)] by auto
qed

text \<open>Waiting only adds to the log of calls, and never another attempt to connect.\<close>

lemma resubscribe_log: "\<exists>cs. paho_log (resubscribe es s) = paho_log s @ cs"
proof (induction es arbitrary: s)
  case (Cons e es)
  show ?case using Cons.IH [of "mqtt_subscribe (fst e) (fst (snd e)) (snd (snd e)) s"]
      subscribe_log [of "fst e" "fst (snd e)" "snd (snd e)" s] by (auto simp del: split_paired_Ex)
qed simp

lemma handle_event_log: "\<exists>cs. paho_log (handle_event e s) = paho_log s @ cs"
proof (cases e)
  case (EConnect rc)
  then show ?thesis using resubscribe_log [of "sub_dict s" "s\<lparr>connect_rc := rc, disconnect_rc := maxsize\<rparr>"]
    by (simp add: on_connect_def)
qed (simp add: on_disconnect_def)

lemma handle_events_log: "\<exists>cs. paho_log (fold handle_event es s) = paho_log s @ cs"
proof (induction es arbitrary: s)
  case (Cons e es)
  show ?case using Cons.IH [of "handle_event e s"] handle_event_log [of e s] by auto
qed simp

lemma wait_code_log: "\<exists>cs. paho_log (wait_code n code evs s) = paho_log s @ cs"
proof (induction n arbitrary: evs s)
  case (Suc n)
  show ?case
  proof (cases evs)
    case (Cons e es)
    then show ?thesis using Suc.IH [of es "fold handle_event e s"] handle_events_log [of e s] by auto
  qed (use Suc.IH in auto)
qed simp

lemma await_connection_log: "\<exists>cs. paho_log (snd (await_connection evs s)) = paho_log s @ cs"
  using wait_code_log [of "conn_disconn_timeout s * 100" connect_rc evs s]
  by (auto simp: await_connection_def Let_def paho_do_def outcome_simps split: sum.splits)

text \<open>The transport does not connect before TLS and the credentials are set.\<close>

lemma connect_tail_log:
  "\<exists>cs. paho_log (snd (then_e (case qos of None \<Rightarrow> return_e 0 | Some q \<Rightarrow> paho_do (Paho_qos q))
    (then_e (paho_do Paho_connect) (then_e (paho_do Paho_loop_start) (await_connection evs))) s)) = paho_log s @ cs"
proof -
  have "\<exists>cs. paho_log (snd (then_e (paho_do Paho_connect) (then_e (paho_do Paho_loop_start) (await_connection evs)) s)) =
      paho_log s @ cs" for s
    using await_connection_log [of evs "s\<lparr>paho_log := paho_log s @ [Paho_connect, Paho_loop_start]\<rparr>"]
    by (auto simp: paho_do_def outcome_simps split: sum.splits)
  from this [of s] this [of "s\<lparr>paho_log := paho_log s @ [Paho_qos (the qos)]\<rparr>"] show ?thesis
    by (cases qos) (auto simp: then_e_def bind_e_def return_e_def paho_do_def split: sum.splits)
qed

lemma setup_auth_Inr:
  "setup_auth auth ident = Inr up \<Longrightarrow>
     (if auth then \<exists>i u p. ident = Some i \<and> username i = Some u \<and> password i = Some p \<and> up = Some (u, p) else up = None)"
  by (auto simp: setup_auth_def split: option.splits)

lemma connect_soc_order:
  assumes "paho_log s = []" "Paho_connect \<in> set (paho_log (snd (connect_soc env ident (Some c) auth qos evs s)))"
  shows "\<exists>t creds rest. paho_log (snd (connect_soc env ident (Some c) auth qos evs s)) = Paho_tls t # creds @ rest \<and>
    setup_tls env ident c = Inr t \<and>
    (if auth then \<exists>i u p. ident = Some i \<and> username i = Some u \<and> password i = Some p \<and> creds = [Paho_username_pw u p]
     else creds = [])"
proof -
  define tail where "tail = then_e (case qos of None \<Rightarrow> return_e 0 | Some q \<Rightarrow> paho_do (Paho_qos q))
    (then_e (paho_do Paho_connect) (then_e (paho_do Paho_loop_start) (await_connection evs)))"
  have tail: "\<exists>cs. paho_log (snd (tail s)) = paho_log s @ cs" for s unfolding tail_def by (rule connect_tail_log)
  have c: "connect_soc env ident (Some c) auth qos evs =
      then_e (bind_e (lift_e (setup_tls env ident c)) (\<lambda>t. paho_do (Paho_tls t)))
     (then_e (bind_e (lift_e (setup_auth auth ident)) (\<lambda>up.
                case up of None \<Rightarrow> return_e 0 | Some (u, p) \<Rightarrow> paho_do (Paho_username_pw u p))) tail)"
    by (simp add: connect_soc_def tail_def)
  obtain t r where t: "setup_tls env ident c = Inr t" "paho_answer s [] (Paho_tls t) = Inr r"
    using assms unfolding c by (auto simp: paho_do_def outcome_simps split: sum.splits)
  obtain up where up: "setup_auth auth ident = Inr up"
    using assms t unfolding c by (auto simp: paho_do_def outcome_simps split: sum.splits)
  show ?thesis
  proof (cases auth)
    case False
    then show ?thesis using assms t up setup_auth_Inr [OF up] tail [of "s\<lparr>paho_log := [Paho_tls t]\<rparr>"] unfolding c
      by (auto simp: paho_do_def outcome_simps)
  next
    case True
    then obtain i u p where "ident = Some i" "username i = Some u" "password i = Some p" "up = Some (u, p)"
      using setup_auth_Inr [OF up] by auto
    then show ?thesis using True assms t up tail [of "s\<lparr>paho_log := [Paho_tls t, Paho_username_pw u p]\<rparr>"] unfolding c
      by (auto simp: paho_do_def outcome_simps split: sum.splits)
  qed
qed

section \<open>Topics\<close>

lemma generated_topics:
  assumes "MqttMessagingAttributes (Some n) pt st pq sq retain cb u = (Inr a, u')" "n \<noteq> []" "system_uuid u \<noteq> []"
  shows "pub_topic a = Some (''liota/'' @ fst (get_uuid n u) @ ''/request'') \<and>
    sub_topic a = Some (''liota/'' @ fst (get_uuid n u) @ ''/response'') \<and> 0 \<le> pub_qos a \<and> pub_qos a \<le> 2"
  using assms
  by (auto simp: MqttMessagingAttributes_def given_def get_uuid_def get_system_uuid_def Let_def
      split: if_splits option.splits sum.splits)

text \<open>An object exists only if the broker accepted the connection; its topics and the identifier are generated from the name of
  the edge system unless they are given.\<close>

lemma MqttDccComms_Inr:
  assumes "MqttDccComms env ident tls auth qos evs client n cid attr u = (Inr c, u')"
  shows "connect_rc (mc_client c) = 0 \<and> mc_userdata c = [] \<and> (\<forall>i. cid = Some i \<longrightarrow> mc_client_id c = i) \<and>
    (\<forall>a. attr = Some (Inr a) \<longrightarrow> mc_attr c = a)"
proof -
  have m: "connect_rc m = 0" if "Mqtt env ident tls auth qos evs client = (Inr x, m)" for m x
    using that by (auto simp: Mqtt_def connect_soc_def then_e_def bind_e_Inr modify_e_def await_connection_def Let_def
        raise_e_def split: if_splits)
  obtain x m' where c: "Mqtt env ident tls auth qos evs client = (Inr x, m')"
    using assms by (cases "Mqtt env ident tls auth qos evs client"; cases "fst (Mqtt env ident tls auth qos evs client)")
      (auto simp: MqttDccComms_def bind_e_Inr raise_e_def)
  show ?thesis using assms m [OF c]
    by (auto simp: MqttDccComms_def c mqtt_comms_settings_def bind_e_Inr return_e_def split: prod.splits sum.splits option.splits)
qed

end
