(* ===== verification/Device_Discovery.thy ===== *)
theory Device_Discovery
  imports Package_Commands Liota_Config Iotcc
begin

text \<open>
  Device discovery (\<^verbatim>\<open>src/liota/core/device_discovery.py\<close>): reading the configuration, starting listeners, the command
  interpreter and its pipe reader, and the processing of messages from devices, which registers them with data
  center components.

  The resource registry of the package manager is represented by the names it knows; the data center components
  by the log of the calls made on them and a function that answers a call from the calls before it. Python 2
  iterates over dictionaries in the order of hashes, the model in the order of the list; a message from a device
  is an arbitrary list, hence covers every order.
\<close>

section \<open>State\<close>

datatype listener_kind = NamedPipeListener | MqttListener

record device =
  dev_name :: string
  dev_id :: string
  dev_type :: string

datatype dcc_call =
    Call_register string device
  | Call_set_properties string device "(string \<times> pyval) list"
  | Call_create_relationship string string device

record disc_config =
  c_cmd_msg_pipe :: "string option"
  c_endpoint_list :: "(string, pyval) dict"
  c_type_dcc_map :: "(string, string list) dict"
  c_type_key_map :: "(string, string) dict"
  c_type_tuple :: "(string, string \<times> string list) dict"
  c_package_path :: "string option"
  c_dev_file_path :: "string option"
  c_org_file_path :: string

record disc = host +
  d_cmd_pipe :: "string option"
  d_endpoints :: "(string, pyval) dict"
  d_type_dcc :: "(string, string list) dict"
  d_type_key :: "(string, string) dict"
  d_type_tuple :: "(string, string \<times> string list) dict"
  d_package_path :: "string option"
  d_dev_path :: "string option"
  d_org_path :: "string option"                        \<comment> \<open>\<open>None\<close>: the attribute does not exist\<close>
  d_config :: disc_config
  d_files :: "(string, content) dict"
  d_listeners :: "(string, listener_kind) dict"
  d_devices :: "(string, string \<times> (string \<times> device) list) dict"
  d_alive :: bool
  d_messenger_alive :: bool
  d_pipe_written :: "string list"
  d_resources :: "string list"                         \<comment> \<open>names in the resource registry\<close>
  d_uuid :: uuid_env
  d_calls :: "dcc_call list"
  d_answer :: "dcc_call list \<Rightarrow> dcc_call \<Rightarrow> py_error + unit"
  d_start :: "listener_kind \<Rightarrow> string \<Rightarrow> pyval \<Rightarrow> py_error + unit"
  d_clean_up :: "string \<Rightarrow> py_error + unit"

section \<open>Configuration\<close>

definition type_char :: "char \<Rightarrow> bool" where
  "type_char c = (is_alnum c \<or> c \<in> set ''_-'')"

definition val_char :: "char \<Rightarrow> bool" where
  "val_char c = (is_alnum c \<or> c \<in> set ''._-'')"

primrec read_endpoints :: "conf \<Rightarrow> (string \<times> string) list \<Rightarrow> disc \<Rightarrow> (disc, unit) outcome" where
  "read_endpoints c [] s = (Inr (), s)"
| "read_endpoints c (kv # rest) s =
     (let key = fst kv; v = snd kv in
      if v = ''None'' then read_endpoints c rest s
      else if sublist ''disc_msg_pipe'' key
      then read_endpoints c rest (s\<lparr>d_endpoints := dict_set key (PStr (abspath (os_cwd s) v)) (d_endpoints s)\<rparr>)
      else if sublist ''socket'' key
      then read_endpoints c rest (s\<lparr>d_endpoints := dict_set key (PStr v) (d_endpoints s)\<rparr>)
      else if sublist ''mqtt'' key then
        (case config_items (\<lambda>n. n) c ''DISC_MQTT_CFG'' of
           Inl e \<Rightarrow> (Inl e, s)
         | Inr os \<Rightarrow>
             read_endpoints c rest (s\<lparr>d_endpoints := dict_set key
               (PDict (dict_set ''broker_ip_port_topic'' (PStr v) (map (\<lambda>p. (fst p, PStr (snd p))) os))) (d_endpoints s)\<rparr>))
      else if sublist ''coap'' key
      then read_endpoints c rest (s\<lparr>d_endpoints := dict_set key (PStr v) (d_endpoints s)\<rparr>)
      else read_endpoints c rest s)"

primrec read_type_keys :: "(string \<times> string) list \<Rightarrow> disc \<Rightarrow> disc" where
  "read_type_keys [] s = s"
| "read_type_keys (kv # rest) s =
     (if \<not> class_match type_char (fst kv) then read_type_keys rest s
      else if snd kv = ''None'' then read_type_keys rest s
      else read_type_keys rest (s\<lparr>d_type_key := dict_set (fst kv) (snd kv) (d_type_key s)\<rparr>))"

primrec read_type_dccs :: "(string \<times> string) list \<Rightarrow> disc \<Rightarrow> (disc, unit) outcome" where
  "read_type_dccs [] s = (Inr (), s)"
| "read_type_dccs (kv # rest) s =
     (if \<not> class_match type_char (fst kv) then read_type_dccs rest s
      else if snd kv = ''None'' then read_type_dccs rest s
      else
        let l = map strip (py_split (CHR '','') (snd kv));
            s1 = s\<lparr>d_type_dcc := dict_set (fst kv) l (d_type_dcc s)\<rparr>
        in case dict_get (d_type_key s1) (fst kv) of
             None \<Rightarrow> (Inl KeyError, s1)
           | Some k \<Rightarrow> read_type_dccs rest (s1\<lparr>d_type_tuple := dict_set (fst kv) (k, l) (d_type_tuple s1)\<rparr>))"

text \<open>The two storage paths; a directory that can not be made ends the program.\<close>

definition read_paths :: "conf \<Rightarrow> disc \<Rightarrow> (disc, unit) outcome" where
  "read_paths c =
     bind_e (lift_e (config_get (\<lambda>n. n) c ''IOTCC_PATH'' ''dev_file_path'')) (\<lambda>dev.
     then_e (modify_e (\<lambda>s. s\<lparr>d_dev_path := Some dev\<rparr>))
     (bind_e (lift_e (config_get (\<lambda>n. n) c ''IOTCC_PATH'' ''iotcc_path'')) (\<lambda>org.
      then_e (modify_e (\<lambda>s. s\<lparr>d_org_path := Some org\<rparr>))
      (\<lambda>s. if os_exists dev s then (Inr (), s)
           else case makedirs dev s of
                  (Inl _, s') \<Rightarrow> if os_exists dev s' \<and> os_isdir dev s' then (Inr (), s') else (Inl SystemExit, s')
                | (Inr _, s') \<Rightarrow> (Inr (), s')))))"

definition read_mappings :: "conf \<Rightarrow> disc \<Rightarrow> (disc, unit) outcome" where
  "read_mappings c =
     bind_e (lift_e (config_get (\<lambda>n. n) c ''DISC_CFG'' ''disc_cmd_msg_pipe'')) (\<lambda>pipe.
     then_e (modify_e (\<lambda>s. s\<lparr>d_cmd_pipe := Some (abspath (os_cwd s) pipe)\<rparr>))
     (bind_e (lift_e (config_get (\<lambda>n. n) c ''PKG_CFG'' ''pkg_path'')) (\<lambda>pkg.
      then_e (modify_e (\<lambda>s. s\<lparr>d_package_path := Some (abspath (os_cwd s) pkg)\<rparr>))
      (bind_e (lift_e (config_items (\<lambda>n. n) c ''DISC_ENDPOINT_LIST'')) (\<lambda>eps.
       then_e (read_endpoints c eps)
       (bind_e (lift_e (config_items (\<lambda>n. n) c ''DEVICE_TYPE_TO_UNIQUEKEY_MAPPING'')) (\<lambda>keys.
        then_e (modify_e (read_type_keys keys))
        (bind_e (lift_e (config_items (\<lambda>n. n) c ''DEVICE_TYPE_TO_DCC_MAPPING'')) read_type_dccs))))))))"

definition get_config_from_file :: "disc \<Rightarrow> (disc, unit) outcome" where
  "get_config_from_file s0 =
     (let s = LiotaConfigPath s0 in
      case (if get_liota_fullpath s = [] then (Inr (), s)
            else case h_conf s (get_liota_fullpath s) of
                   Conf_Unreadable \<Rightarrow> (Inl IOError, s)
                 | Conf_Malformed \<Rightarrow> (Inl ConfigError, s)
                 | Conf c \<Rightarrow> then_e (read_paths c) (read_mappings c) s) of
        (Inl e, s') \<Rightarrow> (Inl e, s')
      | (Inr _, s') \<Rightarrow> if d_cmd_pipe s' = None then (Inl AssertionError, s') else (Inr (), s'))"

text \<open>\<^verbatim>\<open>_executable_check\<close> only logs what it finds, apart from creating the pipe.\<close>

definition executable_check :: "disc \<Rightarrow> (disc, unit) outcome" where
  "executable_check s =
     (case validate_named_pipe (case d_cmd_pipe s of None \<Rightarrow> PNone | Some p \<Rightarrow> PStr p) s of
        (Inl e, s') \<Rightarrow> (Inl e, s') | (Inr _, s') \<Rightarrow> (Inr (), s'))"

definition save_config :: "disc \<Rightarrow> (disc, unit) outcome" where
  "save_config s =
     (case d_org_path s of
        None \<Rightarrow> (Inl AttributeError, s)
      | Some org \<Rightarrow>
          (Inr (), s\<lparr>d_config := \<lparr>c_cmd_msg_pipe = d_cmd_pipe s, c_endpoint_list = d_endpoints s,
             c_type_dcc_map = d_type_dcc s, c_type_key_map = d_type_key s, c_type_tuple = d_type_tuple s,
             c_package_path = d_package_path s, c_dev_file_path = d_dev_path s, c_org_file_path = org\<rparr>\<rparr>))"

text \<open>\<^verbatim>\<open>DiscoveryThread.__init__\<close> up to the start of the thread.\<close>

definition DiscoveryThread :: "string option \<Rightarrow> disc \<Rightarrow> (disc, unit) outcome" where
  "DiscoveryThread package_conf =
     then_e (modify_e (\<lambda>s. s\<lparr>d_cmd_pipe := None, d_endpoints := [], d_type_dcc := [], d_type_key := [], d_type_tuple := [],
       d_package_path := package_conf, d_dev_path := None, d_org_path := None\<rparr>))
     (then_e get_config_from_file
     (then_e executable_check
     (then_e save_config
       (modify_e (\<lambda>s. s\<lparr>d_listeners := [], d_devices := [], d_alive := True\<rparr>)))))"

section \<open>Commands\<close>

definition type_lines :: "(pyval \<Rightarrow> string) \<Rightarrow> (string \<times> pyval) list \<Rightarrow> string" where
  "type_lines fmt d = concat (map (\<lambda>p. fst p @ '': '' @ py_str fmt (snd p) @ [LF, TAB, TAB]) d)"

definition str_opt :: "string option \<Rightarrow> string" where
  "str_opt p = (case p of None \<Rightarrow> ''None'' | Some s \<Rightarrow> s)"

text \<open>The listing of the configuration: the last two values come in the order of the list \<^verbatim>\<open>stats\<close>, the labels in
  the order of the text.\<close>

definition list_configurations :: "(pyval \<Rightarrow> string) \<Rightarrow> disc_config \<Rightarrow> string" where
  "list_configurations fmt c =
     ''List of configurations - '' @ [TAB] @
     ''cmd_msg_pipe: '' @ str_opt (c_cmd_msg_pipe c) @ [LF, TAB, TAB] @
     ''endpoint_list: '' @ type_lines fmt (c_endpoint_list c) @ [TAB] @
     ''type_dcc_map: '' @ type_lines fmt (map (\<lambda>p. (fst p, PList (map PStr (snd p)))) (c_type_dcc_map c)) @ [TAB] @
     ''type_key_map: '' @ type_lines fmt (map (\<lambda>p. (fst p, PStr (snd p))) (c_type_key_map c)) @ [TAB] @
     ''type_tuple_key_dcc_pkg: '' @
       type_lines fmt (map (\<lambda>p. (fst p, PTuple [PStr (fst (snd p)), PList (map PStr (snd (snd p)))])) (c_type_tuple c)) @ [TAB] @
     ''dev_file_path: '' @ str_opt (c_package_path c) @ [LF, TAB, TAB] @
     ''package_path: '' @ str_opt (c_dev_file_path c) @ [LF, TAB]"

text \<open>How the registration records of a device print is \<open>show_reg\<close>.\<close>

definition disc_cmd_handler_list ::
  "(pyval \<Rightarrow> string) \<Rightarrow> ((string \<times> device) list \<Rightarrow> string) \<Rightarrow> thread_info list \<Rightarrow> string \<Rightarrow> disc \<Rightarrow> py_error + string" where
  "disc_cmd_handler_list fmt show_reg threads parameter s =
     (if parameter = ''configurations'' \<or> parameter = ''cfg'' then Inr (list_configurations fmt (d_config s))
      else if parameter = ''devices'' \<or> parameter = ''dev'' then
        Inr (''List of devices - '' @ [TAB] @ py_join [TAB] (sort (dict_keys (d_devices s))))
      else if parameter = ''resources'' \<or> parameter = ''res'' then
        Inr (''List of resources - '' @ [TAB] @
          py_join [LF, TAB] (map (\<lambda>p. ''Device Name: '' @ fst p @ [TAB] @ '' Type: '' @ fst (snd p) @ [TAB] @
            '' Reg_info: '' @ show_reg (snd (snd p))) (d_devices s)))
      else if parameter = ''threads'' \<or> parameter = ''th'' then
        bind_r (thread_lines (sort_key ident_key threads)) (\<lambda>ls. Inr (''Active threads - '' @ [TAB] @ py_join [TAB] ls))
      else Inr ''Unsupported list'')"

definition disc_cmd_handler_stat :: "thread_info list \<Rightarrow> string \<Rightarrow> string" where
  "disc_cmd_handler_stat threads parameter =
     (if parameter = ''threads'' \<or> parameter = ''th'' then ''Count of active threads: '' @ str_nat (length threads)
      else ''Unsupported stat'')"

section \<open>Listeners\<close>

text \<open>The first part of \<^verbatim>\<open>run\<close>: the tests are independent of each other; sockets and CoAP are refused.\<close>

definition start_listener :: "listener_kind \<Rightarrow> string \<Rightarrow> pyval \<Rightarrow> disc \<Rightarrow> (disc, unit) outcome" where
  "start_listener kind key v s =
     (case d_start s kind key v of
        Inl e \<Rightarrow> (Inl e, s)
      | Inr _ \<Rightarrow> (Inr (), s\<lparr>d_listeners := dict_set key kind (d_listeners s)\<rparr>))"

primrec start_listeners :: "(string \<times> pyval) list \<Rightarrow> disc \<Rightarrow> (disc, unit) outcome" where
  "start_listeners [] s = (Inr (), s)"
| "start_listeners (kv # rest) s =
     (if snd kv = PNone \<or> snd kv = PStr ''None'' then start_listeners rest s
      else then_e (if sublist ''disc_msg_pipe'' (fst kv) then start_listener NamedPipeListener (fst kv) (snd kv) else return_e ())
          (then_e (if sublist ''mqtt'' (fst kv) then start_listener MqttListener (fst kv) (snd kv) else return_e ())
             (start_listeners rest)) s)"

primrec clean_up_all :: "string list \<Rightarrow> disc \<Rightarrow> (disc, unit) outcome" where
  "clean_up_all [] s = (Inr (), s)"
| "clean_up_all (k # ks) s =
     (case d_clean_up s k of
        Inl e \<Rightarrow> (Inl e, s)
      | Inr _ \<Rightarrow> clean_up_all ks (s\<lparr>d_listeners := dict_del k (d_listeners s)\<rparr>))"

definition disc_terminate_all :: "disc \<Rightarrow> (disc, bool) outcome" where
  "disc_terminate_all s =
     (let s1 = (if d_messenger_alive s then s\<lparr>d_pipe_written := d_pipe_written s @ [terminate_messenger @ [LF]]\<rparr> else s)
      in case clean_up_all (dict_keys (d_listeners s1)) s1 of
           (Inl e, s2) \<Rightarrow> (Inl e, s2) | (Inr _, s2) \<Rightarrow> (Inr True, s2))"

text \<open>One turn of the command loop; the result is what is logged.\<close>

definition disc_dispatch ::
  "(pyval \<Rightarrow> string) \<Rightarrow> ((string \<times> device) list \<Rightarrow> string) \<Rightarrow> thread_info list \<Rightarrow> string list \<Rightarrow> disc \<Rightarrow> (disc, string) outcome" where
  "disc_dispatch fmt show_reg threads msg s =
     (case msg of
        [] \<Rightarrow> (Inl IndexError, s)
      | command # args \<Rightarrow>
          if command = ''list'' then
            (if length msg \<noteq> 2 then (Inr (''Invalid format of command: '' @ command), s)
             else (disc_cmd_handler_list fmt show_reg threads (msg ! 1) s, s))
          else if command = ''stat'' then
            (if length msg \<noteq> 2 then (Inr (''Invalid format of command: '' @ command), s)
             else (Inr (disc_cmd_handler_stat threads (msg ! 1)), s))
          else if command = ''terminate'' then
            (case disc_terminate_all s of
               (Inl e, s') \<Rightarrow> (Inl e, s')
             | (Inr ok, s') \<Rightarrow> (Inr [], if ok then s'\<lparr>d_alive := False\<rparr> else s'))
          else (Inr ''Unsupported command is dropped'', s))"

primrec disc_loop ::
  "(pyval \<Rightarrow> string) \<Rightarrow> ((string \<times> device) list \<Rightarrow> string) \<Rightarrow> thread_info list \<Rightarrow> string list list \<Rightarrow> disc \<Rightarrow> (disc, string list) outcome" where
  "disc_loop fmt show_reg threads [] s = (Inr [], s)"
| "disc_loop fmt show_reg threads (msg # msgs) s =
     (if \<not> d_alive s then (Inr [], s)
      else bind_e (disc_dispatch fmt show_reg threads msg) (\<lambda>out.
             bind_e (disc_loop fmt show_reg threads msgs) (\<lambda>outs. return_e (out # outs))) s)"

definition disc_run ::
  "(pyval \<Rightarrow> string) \<Rightarrow> ((string \<times> device) list \<Rightarrow> string) \<Rightarrow> thread_info list \<Rightarrow> string list list \<Rightarrow> disc \<Rightarrow> (disc, string list) outcome" where
  "disc_run fmt show_reg threads msgs s =
     then_e (start_listeners (c_endpoint_list (d_config s)))
     (then_e (modify_e (\<lambda>s. s\<lparr>d_messenger_alive := True\<rparr>))
       (disc_loop fmt show_reg threads msgs)) s"

text \<open>\<^verbatim>\<open>str.split()\<close>, and the pipe reader \<^verbatim>\<open>CmdMessengerThread.run\<close>.\<close>

fun words_from :: "string \<Rightarrow> string \<Rightarrow> string list" where
  "words_from acc [] = (if acc = [] then [] else [acc])"
| "words_from acc (c # cs) =
     (if is_space c then (if acc = [] then words_from [] cs else acc # words_from [] cs)
      else words_from (acc @ [c]) cs)"

definition words :: "string \<Rightarrow> string list" where
  "words s = words_from [] s"

primrec cmd_messenger_lines :: "string list \<Rightarrow> string list list \<Rightarrow> bool \<times> string list list" where
  "cmd_messenger_lines [] q = (True, q)"
| "cmd_messenger_lines (line # rest) q =
     (let msg = words line in
      if 0 < length msg then
        (if length msg = 1 \<and> msg ! 0 = terminate_messenger then (False, q)
         else cmd_messenger_lines rest (q @ [msg]))
      else cmd_messenger_lines rest q)"

primrec cmd_messenger_run :: "string list \<Rightarrow> string list list \<Rightarrow> bool \<times> string list list" where
  "cmd_messenger_run [] q = (True, q)"
| "cmd_messenger_run (content # rest) q =
     (case cmd_messenger_lines (readlines content) q of
        (False, q') \<Rightarrow> (False, q')
      | (True, q') \<Rightarrow> cmd_messenger_run rest q')"

section \<open>Messages from devices\<close>

definition save_devinfo :: "string \<Rightarrow> string \<Rightarrow> disc \<Rightarrow> disc" where
  "save_devinfo name ty s = s\<lparr>d_devices := dict_set name (ty, []) (d_devices s)\<rparr>"

definition update_devinfo :: "string \<Rightarrow> string \<times> device \<Rightarrow> disc \<Rightarrow> (disc, unit) outcome" where
  "update_devinfo name reg_rec s =
     (case dict_get (d_devices s) name of
        None \<Rightarrow> (Inl KeyError, s)
      | Some (ty, regs) \<Rightarrow> (Inr (), s\<lparr>d_devices := dict_set name (ty, regs @ [reg_rec]) (d_devices s)\<rparr>))"

definition add_organization_properties ::
  "string \<Rightarrow> (string \<times> pyval) list \<Rightarrow> disc \<Rightarrow> py_error + (string \<times> pyval) list" where
  "add_organization_properties key prop_dict s =
     (let path = c_org_file_path (d_config s) in
      if path = [] then Inr prop_dict
      else case dict_get (d_files s) path of
             None \<Rightarrow> Inr prop_dict
           | Some FBad \<Rightarrow> Inl ValueError
           | Some (FJson v) \<Rightarrow>
               bind_r (py_path v [key, ''OGProperties'']) (\<lambda>og.
                 case og of PDict d \<Rightarrow> Inr (dict_update prop_dict d) | _ \<Rightarrow> Inl AttributeError))"

text \<open>A call on a data center component: it is logged, and answered from the calls before it.\<close>

definition dcc_do :: "dcc_call \<Rightarrow> disc \<Rightarrow> (disc, unit) outcome" where
  "dcc_do c s = (d_answer s (d_calls s) c, s\<lparr>d_calls := d_calls s @ [c]\<rparr>)"

text \<open>\<open>None\<close> stands for the pair \<^verbatim>\<open>None, None\<close>. An exception of \<^verbatim>\<open>create_relationship\<close> is not caught here.\<close>

definition reg_device ::
  "string \<Rightarrow> string \<Rightarrow> string \<Rightarrow> string \<Rightarrow> (string \<times> pyval) list \<Rightarrow> disc \<Rightarrow> (disc, device option) outcome" where
  "reg_device dcc_pkg edge_system_pkg name ty prop_dict s =
     (if dcc_pkg \<notin> set (d_resources s) then (Inr None, s)
      else case get_uuid name (d_uuid s) of
        (uid, ue) \<Rightarrow>
          (let dev = \<lparr>dev_name = name, dev_id = uid, dev_type = ty\<rparr>; s1 = s\<lparr>d_uuid := ue\<rparr> in
           case then_e (dcc_do (Call_register dcc_pkg dev)) (dcc_do (Call_set_properties dcc_pkg dev prop_dict)) s1 of
             (Inl _, s2) \<Rightarrow> (Inr None, s2)
           | (Inr _, s2) \<Rightarrow>
               if edge_system_pkg \<in> set (d_resources s2)
               then (case dcc_do (Call_create_relationship dcc_pkg edge_system_pkg dev) s2 of
                       (Inl e, s3) \<Rightarrow> (Inl e, s3) | (Inr _, s3) \<Rightarrow> (Inr (Some dev), s3))
               else (Inr (Some dev), s2)))"

primrec reg_with_dccs ::
  "string \<Rightarrow> string \<Rightarrow> (string \<times> pyval) list \<Rightarrow> string list \<Rightarrow> disc \<Rightarrow> (disc, unit) outcome" where
  "reg_with_dccs name ty props [] s = (Inr (), s)"
| "reg_with_dccs name ty props (pkg # dccs) s =
     bind_e (lift_e (if sublist ''iotcc'' (lower pkg) then add_organization_properties ''iotcc'' props s else Inr props)) (\<lambda>prop_dict.
     bind_e (reg_device pkg (pkg @ ''_edge_system'') name ty prop_dict) (\<lambda>dev.
     then_e (case dev of None \<Rightarrow> return_e () | Some d \<Rightarrow> update_devinfo name (pkg, d))
       (reg_with_dccs name ty props dccs))) s"

text \<open>The loop over the properties: \<open>None\<close> is the \<^verbatim>\<open>return False\<close>.\<close>

primrec check_properties :: "string \<Rightarrow> (string \<times> pyval) list \<Rightarrow> string \<Rightarrow> py_error + string option" where
  "check_properties unique_key [] acc = Inr (Some acc)"
| "check_properties unique_key (kv # rest) acc =
     (if \<not> class_match type_char (fst kv) then Inr None
      else case snd kv of
             PStr v \<Rightarrow>
               if \<not> class_match val_char v then Inr None
               else check_properties unique_key rest (if fst kv = unique_key then v else acc)
           | _ \<Rightarrow> Inl TypeError)"

text \<open>The loop over the device types; the result is whether it went through (\<^verbatim>\<open>return False\<close> otherwise).\<close>

primrec process_types :: "(string \<times> pyval) list \<Rightarrow> disc \<Rightarrow> (disc, bool) outcome" where
  "process_types [] s = (Inr True, s)"
| "process_types (kv # rest) s =
     (if \<not> class_match type_char (fst kv) then (Inr False, s)
      else case (dict_get (c_type_dcc_map (d_config s)) (fst kv), dict_get (c_type_key_map (d_config s)) (fst kv)) of
             (Some key_dcc, Some unique_key) \<Rightarrow>
               if key_dcc = [] then process_types rest s
               else (case snd kv of
                  PDict props \<Rightarrow>
                    (case check_properties unique_key props [] of
                       Inl e \<Rightarrow> (Inl e, s)
                     | Inr None \<Rightarrow> (Inr False, s)
                     | Inr (Some uv) \<Rightarrow>
                         (let name = fst kv @ ''_'' @ uv in
                          then_e (modify_e (save_devinfo name (fst kv)))
                            (then_e (reg_with_dccs name (fst kv) props key_dcc) (process_types rest)) s))
                | _ \<Rightarrow> (Inl AttributeError, s))
           | _ \<Rightarrow> process_types rest s)"

text \<open>\<^verbatim>\<open>device_msg_process\<close> drops every exception.\<close>

definition device_msg_process :: "pyval \<Rightarrow> disc \<Rightarrow> disc" where
  "device_msg_process data s = (case data of PDict d \<Rightarrow> snd (process_types d s) | _ \<Rightarrow> s)"

end
