(* ===== verification/Discovery_Properties.thy ===== *)
theory Discovery_Properties
  imports Device_Discovery
begin

text \<open>
  Device discovery: what data center components are asked to do on behalf of a message, the registration of a
  device with every configured component, consistency of the configuration, listeners, and the pipe reader.
\<close>

section \<open>Frames\<close>

text \<open>Processing a message changes the log of calls, the table of devices and the cached identifier only, and
  appends to the log calls that satisfy a predicate.\<close>

definition calls_grow :: "(dcc_call \<Rightarrow> bool) \<Rightarrow> disc \<Rightarrow> disc \<Rightarrow> bool" where
  "calls_grow P s t \<longleftrightarrow>
     (\<exists>cs dv u. t = s\<lparr>d_calls := d_calls s @ cs, d_devices := dv, d_uuid := u\<rparr> \<and> (\<forall>c\<in>set cs. P c))"

lemma calls_growI: "t = s\<lparr>d_calls := d_calls s @ cs, d_devices := dv, d_uuid := u\<rparr> \<Longrightarrow> \<forall>c\<in>set cs. P c \<Longrightarrow> calls_grow P s t"
  by (auto simp: calls_grow_def)

lemma calls_grow_refl [simp]: "calls_grow P s s"
  by (rule calls_growI [where cs = "[]" and dv = "d_devices s" and u = "d_uuid s"]) simp_all

lemma calls_grow_trans: "calls_grow P a b \<Longrightarrow> calls_grow P b c \<Longrightarrow> calls_grow P a c"
proof -
  assume "calls_grow P a b" "calls_grow P b c"
  then obtain cs dv u cs' dv' u' where "b = a\<lparr>d_calls := d_calls a @ cs, d_devices := dv, d_uuid := u\<rparr>" "\<forall>c\<in>set cs. P c"
    "c = b\<lparr>d_calls := d_calls b @ cs', d_devices := dv', d_uuid := u'\<rparr>" "\<forall>c\<in>set cs'. P c" unfolding calls_grow_def by auto
  then have "c = a\<lparr>d_calls := d_calls a @ (cs @ cs'), d_devices := dv', d_uuid := u'\<rparr>" "\<forall>c\<in>set (cs @ cs'). P c" by auto
  then show ?thesis by (rule calls_growI)
qed

lemma calls_grow_devices: "calls_grow P s (s\<lparr>d_devices := dv\<rparr>)"
  by (rule calls_growI [where cs = "[]" and u = "d_uuid s"]) simp_all

lemma calls_grow_uuid: "calls_grow P s (s\<lparr>d_uuid := u\<rparr>)"
  by (rule calls_growI [where cs = "[]" and dv = "d_devices s"]) simp_all

lemma dcc_do_calls_grow: "P c \<Longrightarrow> calls_grow P s (snd (dcc_do c s))"
  by (rule calls_growI [where cs = "[c]" and dv = "d_devices s" and u = "d_uuid s"]) (simp_all add: dcc_do_def)

lemma calls_grow_fields:
  "calls_grow P s t \<Longrightarrow> d_config t = d_config s" "calls_grow P s t \<Longrightarrow> d_files t = d_files s"
  "calls_grow P s t \<Longrightarrow> d_resources t = d_resources s"
  by (auto simp: calls_grow_def)

lemma calls_grow_bind:
  assumes "\<And>r t. m s = (r, t) \<Longrightarrow> calls_grow P s t" "\<And>x t. m s = (Inr x, t) \<Longrightarrow> calls_grow P t (snd (f x t))"
  shows "calls_grow P s (snd (bind_e m f s))"
proof -
  obtain r t where m: "m s = (r, t)" by (metis prod.collapse)
  with assms show ?thesis by (cases r) (auto simp: bind_e_def intro: calls_grow_trans)
qed

section \<open>Calls made for a message\<close>

primrec call_device :: "dcc_call \<Rightarrow> device" where
  "call_device (Call_register p d) = d"
| "call_device (Call_set_properties p d ps) = d"
| "call_device (Call_create_relationship p e d) = d"

primrec call_pkg :: "dcc_call \<Rightarrow> string" where
  "call_pkg (Call_register p d) = p"
| "call_pkg (Call_set_properties p d ps) = p"
| "call_pkg (Call_create_relationship p e d) = p"

definition clean_text :: "(char \<Rightarrow> bool) \<Rightarrow> string \<Rightarrow> bool" where
  "clean_text ok s \<longleftrightarrow> (\<forall>c\<in>set s. ok c \<or> c = LF)"

definition clean_property :: "string \<times> pyval \<Rightarrow> bool" where
  "clean_property p \<longleftrightarrow> clean_text type_char (fst p) \<and> (\<exists>v. snd p = PStr v \<and> clean_text val_char v)"

text \<open>The properties of the organization that \<^verbatim>\<open>iotcc.json\<close> has.\<close>

definition org_props :: "disc \<Rightarrow> (string \<times> pyval) list" where
  "org_props s =
     (case dict_get (d_files s) (c_org_file_path (d_config s)) of
        Some (FJson v) \<Rightarrow> (case py_path v [''iotcc'', ''OGProperties''] of Inr (PDict d) \<Rightarrow> d | _ \<Rightarrow> [])
      | _ \<Rightarrow> [])"

definition call_ok :: "disc \<Rightarrow> dcc_call \<Rightarrow> bool" where
  "call_ok s c \<longleftrightarrow>
     (\<exists>dccs. dict_get (c_type_dcc_map (d_config s)) (dev_type (call_device c)) = Some dccs \<and> call_pkg c \<in> set dccs) \<and>
     call_pkg c \<in> set (d_resources s) \<and>
     clean_text val_char (dev_name (call_device c)) \<and>
     (\<forall>p d ps. c = Call_set_properties p d ps \<longrightarrow> (\<forall>x\<in>set ps. clean_property x \<or> x \<in> set (org_props s)))"

lemma call_ok_cong: "d_config t = d_config s \<Longrightarrow> d_files t = d_files s \<Longrightarrow> d_resources t = d_resources s \<Longrightarrow> call_ok t = call_ok s"
  by (simp add: call_ok_def fun_eq_iff org_props_def)

lemma class_match_clean: "class_match ok s \<Longrightarrow> clean_text ok s"
proof -
  assume c: "class_match ok s"
  show "clean_text ok s"
  proof (cases "list_all ok s")
    case False
    with c have "s = butlast s @ [LF]" "list_all ok (butlast s)"
      by (auto simp: class_match_def) (metis append_butlast_last_id list.size(3) not_numeral_le_zero)
    then have "set s = insert LF (set (butlast s))" by (metis Un_insert_right list.simps(15) set_append sup_bot.right_neutral list.set(1))
    with \<open>list_all ok (butlast s)\<close> show ?thesis by (auto simp: clean_text_def list_all_iff)
  qed (auto simp: clean_text_def list_all_iff)
qed

lemma set_dict_update: "set (dict_update d e) \<subseteq> set d \<union> set e"
proof (induction e arbitrary: d)
  case (Cons p e)
  have "set (dict_set (fst p) (snd p) d) \<subseteq> insert p (set d)" by (induction d) auto
  with Cons [of "dict_set (fst p) (snd p) d"] show ?case by auto
qed simp

lemma check_properties_clean:
  "check_properties k ps acc = Inr (Some uv) \<Longrightarrow> clean_text val_char acc \<Longrightarrow>
    clean_text val_char uv \<and> (\<forall>p\<in>set ps. clean_property p)"
proof (induction ps arbitrary: acc)
  case (Cons p ps)
  then obtain v where v: "class_match type_char (fst p)" "snd p = PStr v" "class_match val_char v"
    "check_properties k ps (if fst p = k then v else acc) = Inr (Some uv)"
    by (auto split: if_splits pyval.splits)
  have "clean_text val_char (if fst p = k then v else acc)" using Cons.prems(2) v(3) by (simp add: class_match_clean)
  with Cons.IH [OF v(4)] v show ?case by (auto simp: clean_property_def class_match_clean)
qed simp

lemma add_organization_props:
  "add_organization_properties ''iotcc'' props s = Inr ps \<Longrightarrow> set ps \<subseteq> set props \<union> set (org_props s)"
proof -
  assume a: "add_organization_properties ''iotcc'' props s = Inr ps"
  let ?f = "dict_get (d_files s) (c_org_file_path (d_config s))"
  show ?thesis
  proof (cases "c_org_file_path (d_config s) = [] \<or> ?f = None")
    case False
    then obtain v og where v: "?f = Some (FJson v)" "py_path v [''iotcc'', ''OGProperties''] = Inr og"
      "(case og of PDict d \<Rightarrow> Inr (dict_update props d) | _ \<Rightarrow> Inl AttributeError) = Inr ps"
      using a by (auto simp: add_organization_properties_def Let_def bind_r_Inr simp del: py_path.simps split: content.splits)
    then obtain d where "og = PDict d" "ps = dict_update props d" by (cases og) auto
    with v have "?f = Some (FJson v)" "py_path v [''iotcc'', ''OGProperties''] = Inr (PDict d)" "ps = dict_update props d"
      by simp_all
    then show ?thesis using set_dict_update [of props d] by (simp add: org_props_def del: py_path.simps)
  qed (use a in \<open>auto simp: add_organization_properties_def Let_def split: if_splits\<close>)
qed

lemma reg_device_calls_grow:
  assumes "\<And>d. dev_name d = name \<Longrightarrow> dev_type d = ty \<Longrightarrow> dcc_pkg \<in> set (d_resources s) \<Longrightarrow>
      P (Call_register dcc_pkg d) \<and> P (Call_set_properties dcc_pkg d ps) \<and> P (Call_create_relationship dcc_pkg edge d)"
  shows "calls_grow P s (snd (reg_device dcc_pkg edge name ty ps s))"
proof (cases "dcc_pkg \<in> set (d_resources s)")
  case True
  obtain uid ue where u: "get_uuid name (d_uuid s) = (uid, ue)" by (metis prod.collapse)
  define dev where "dev = \<lparr>dev_name = name, dev_id = uid, dev_type = ty\<rparr>"
  have P: "P (Call_register dcc_pkg dev)" "P (Call_set_properties dcc_pkg dev ps)"
    "P (Call_create_relationship dcc_pkg edge dev)"
    using assms [of dev] True by (simp_all add: dev_def)
  let ?s1 = "s\<lparr>d_uuid := ue\<rparr>"
  obtain r2 s2 where s2: "then_e (dcc_do (Call_register dcc_pkg dev)) (dcc_do (Call_set_properties dcc_pkg dev ps)) ?s1 = (r2, s2)"
    by (metis prod.collapse)
  have "calls_grow P ?s1 (snd (then_e (dcc_do (Call_register dcc_pkg dev)) (dcc_do (Call_set_properties dcc_pkg dev ps)) ?s1))"
    unfolding then_e_def
    by (rule calls_grow_bind) (metis dcc_do_calls_grow [where P = P] P(1) snd_conv, rule dcc_do_calls_grow [where P = P], rule P(2))
  then have g: "calls_grow P s s2" using s2 calls_grow_trans [OF calls_grow_uuid] by simp
  have "calls_grow P s (snd (dcc_do (Call_create_relationship dcc_pkg edge dev) s2))"
    by (rule calls_grow_trans [OF g dcc_do_calls_grow]) (rule P(3))
  then show ?thesis using g u s2 True
    by (auto simp: reg_device_def Let_def dev_def [symmetric] split: sum.splits prod.splits)
qed (simp add: reg_device_def)

lemma update_devinfo_calls_grow: "calls_grow P s (snd (update_devinfo name rr s))"
  by (auto simp: update_devinfo_def calls_grow_devices split: option.splits)

lemma reg_with_dccs_calls_grow:
  assumes "dict_get (c_type_dcc_map (d_config s)) ty = Some all" "set dccs \<subseteq> set all"
    "clean_text val_char name" "\<forall>p\<in>set props. clean_property p"
  shows "calls_grow (call_ok s) s (snd (reg_with_dccs name ty props dccs s))"
  using assms
proof (induction dccs arbitrary: s)
  case (Cons pkg dccs)
  note prems = Cons.prems
  let ?org = "if sublist ''iotcc'' (lower pkg) then add_organization_properties ''iotcc'' props s else Inr props"
  show ?case unfolding reg_with_dccs.simps
  proof (rule calls_grow_bind)
    fix ps t assume "lift_e ?org s = (Inr ps, t)"
    then have ts [simp]: "t = s" and o: "?org = Inr ps" by (simp_all add: lift_e_def)
    have sub: "set ps \<subseteq> set props \<union> set (org_props s)"
      using o add_organization_props by (auto split: if_splits)
    show "calls_grow (call_ok s) t (snd (bind_e (reg_device pkg (pkg @ ''_edge_system'') name ty ps) (\<lambda>dev.
        then_e (case dev of None \<Rightarrow> return_e () | Some d \<Rightarrow> update_devinfo name (pkg, d)) (reg_with_dccs name ty props dccs)) t))"
      unfolding ts
    proof (rule calls_grow_bind)
      have g: "calls_grow (call_ok s) s (snd (reg_device pkg (pkg @ ''_edge_system'') name ty ps s))"
        by (rule reg_device_calls_grow) (use prems sub in \<open>auto simp: call_ok_def\<close>)
      then show "reg_device pkg (pkg @ ''_edge_system'') name ty ps s = (r, t) \<Longrightarrow> calls_grow (call_ok s) s t" for r t by simp
      fix dev t assume "reg_device pkg (pkg @ ''_edge_system'') name ty ps s = (Inr dev, t)"
      with g have gt: "calls_grow (call_ok s) s t" by simp
      show "calls_grow (call_ok s) t (snd (then_e (case dev of None \<Rightarrow> return_e () | Some d \<Rightarrow> update_devinfo name (pkg, d))
          (reg_with_dccs name ty props dccs) t))"
        unfolding then_e_def
      proof (rule calls_grow_bind)
        show u: "(case dev of None \<Rightarrow> return_e () | Some d \<Rightarrow> update_devinfo name (pkg, d)) t = (r, t') \<Longrightarrow> calls_grow (call_ok s) t t'" for r t'
          using update_devinfo_calls_grow [of "call_ok s" t name] by (auto simp: return_e_def split: option.splits) (metis snd_conv)
        fix x t' assume "(case dev of None \<Rightarrow> return_e () | Some d \<Rightarrow> update_devinfo name (pkg, d)) t = (Inr x, t')"
        with u gt have gt': "calls_grow (call_ok s) s t'" by (blast intro: calls_grow_trans)
        then have "call_ok t' = call_ok s" by (intro call_ok_cong) (auto dest: calls_grow_fields)
        then show "calls_grow (call_ok s) t' (snd (reg_with_dccs name ty props dccs t'))"
          using Cons.IH [of t'] prems calls_grow_fields(1) [OF gt'] by simp
      qed
    qed
  qed (simp add: lift_e_def)
qed simp

lemma process_types_calls_grow: "calls_grow (call_ok s) s (snd (process_types d s))"
proof (induction d arbitrary: s)
  case (Cons kv d)
  show ?case
  proof (cases "\<exists>key_dcc uk props uv. class_match type_char (fst kv) \<and>
      dict_get (c_type_dcc_map (d_config s)) (fst kv) = Some key_dcc \<and> dict_get (c_type_key_map (d_config s)) (fst kv) = Some uk \<and>
      key_dcc \<noteq> [] \<and> snd kv = PDict props \<and> check_properties uk props [] = Inr (Some uv)")
    case False
    then show ?thesis using Cons [of s] by (auto split: option.splits pyval.splits sum.splits)
  next
    case True
    then obtain key_dcc uk props uv where a: "class_match type_char (fst kv)"
      "dict_get (c_type_dcc_map (d_config s)) (fst kv) = Some key_dcc" "dict_get (c_type_key_map (d_config s)) (fst kv) = Some uk"
      "key_dcc \<noteq> []" "snd kv = PDict props" "check_properties uk props [] = Inr (Some uv)" by blast
    define name where "name = fst kv @ ''_'' @ uv"
    let ?s1 = "save_devinfo name (fst kv) s"
    have c: "clean_text val_char uv" "\<forall>p\<in>set props. clean_property p"
      using check_properties_clean [OF a(6)] by (simp_all add: clean_text_def)
    have "clean_text val_char (fst kv)" using class_match_clean [OF a(1)] by (auto simp: clean_text_def type_char_def val_char_def)
    then have n: "clean_text val_char name" using c(1) by (auto simp: name_def clean_text_def val_char_def)
    have e: "process_types (kv # d) s = bind_e (reg_with_dccs name (fst kv) props key_dcc) (\<lambda>_. process_types d) ?s1"
      using a by (simp add: outcome_simps Let_def name_def)
    have g1: "calls_grow (call_ok s) s ?s1" by (simp add: save_devinfo_def calls_grow_devices)
    have cs: "call_ok ?s1 = call_ok s" by (rule call_ok_cong) (simp_all add: save_devinfo_def)
    have g2: "calls_grow (call_ok s) ?s1 (snd (reg_with_dccs name (fst kv) props key_dcc ?s1))"
      unfolding cs [symmetric] by (rule reg_with_dccs_calls_grow [OF _ subset_refl n c(2)]) (use a in \<open>simp add: save_devinfo_def\<close>)
    have "calls_grow (call_ok s) ?s1 (snd (bind_e (reg_with_dccs name (fst kv) props key_dcc) (\<lambda>_. process_types d) ?s1))"
    proof (rule calls_grow_bind)
      show "reg_with_dccs name (fst kv) props key_dcc ?s1 = (r, t) \<Longrightarrow> calls_grow (call_ok s) ?s1 t" for r t using g2 by simp
      fix x t assume "reg_with_dccs name (fst kv) props key_dcc ?s1 = (Inr x, t)"
      then have "calls_grow (call_ok s) s t" using g2 calls_grow_trans [OF g1] by simp
      then have "call_ok t = call_ok s" by (intro call_ok_cong) (auto dest: calls_grow_fields)
      then show "calls_grow (call_ok s) t (snd (process_types d t))" using Cons [of t] by simp
    qed
    then show ?thesis unfolding e by (rule calls_grow_trans [OF g1])
  qed
qed simp

lemma device_msg_calls_grow: "calls_grow (call_ok s) s (device_msg_process data s)"
  by (cases data) (simp_all add: device_msg_process_def process_types_calls_grow)

section \<open>Registration of a device\<close>

text \<open>The calls for one component, when every answer is good.\<close>

definition calls_for :: "disc \<Rightarrow> device \<Rightarrow> (string \<times> pyval) list \<Rightarrow> (string \<times> pyval) list \<Rightarrow> string \<Rightarrow> dcc_call list" where
  "calls_for s dev props org pkg =
     [Call_register pkg dev, Call_set_properties pkg dev (if sublist ''iotcc'' (lower pkg) then org else props)] @
     (if pkg @ ''_edge_system'' \<in> set (d_resources s) then [Call_create_relationship pkg (pkg @ ''_edge_system'') dev] else [])"

definition all_answer :: "disc \<Rightarrow> bool" where
  "all_answer s \<longleftrightarrow> (\<forall>h c. d_answer s h c = Inr ())"

lemma reg_device_all:
  assumes "all_answer s" "pkg \<in> set (d_resources s)" "get_uuid name (d_uuid s) = (uid, ue)"
  shows "reg_device pkg edge name ty ps s =
    (Inr (Some \<lparr>dev_name = name, dev_id = uid, dev_type = ty\<rparr>),
     s\<lparr>d_uuid := ue, d_calls := d_calls s @ [Call_register pkg \<lparr>dev_name = name, dev_id = uid, dev_type = ty\<rparr>,
        Call_set_properties pkg \<lparr>dev_name = name, dev_id = uid, dev_type = ty\<rparr> ps] @
        (if edge \<in> set (d_resources s) then [Call_create_relationship pkg edge \<lparr>dev_name = name, dev_id = uid, dev_type = ty\<rparr>] else [])\<rparr>)"
  using assms by (simp add: reg_device_def dcc_do_def outcome_simps Let_def all_answer_def)

lemma add_organization_cong:
  "d_config t = d_config s \<Longrightarrow> d_files t = d_files s \<Longrightarrow>
    add_organization_properties k p t = add_organization_properties k p s"
  by (simp add: add_organization_properties_def Let_def)

lemma reg_with_dccs_all:
  assumes "all_answer s" "set dccs \<subseteq> set (d_resources s)" "get_uuid name (d_uuid s) = (uid, d_uuid s)"
    "add_organization_properties ''iotcc'' props s = Inr org" "dict_get (d_devices s) name = Some (ty, regs)"
    "dev = \<lparr>dev_name = name, dev_id = uid, dev_type = ty\<rparr>"
  shows "\<exists>t. reg_with_dccs name ty props dccs s = (Inr (), t) \<and>
    d_calls t = d_calls s @ concat (map (calls_for s dev props org) dccs) \<and>
    dict_get (d_devices t) name = Some (ty, regs @ map (\<lambda>p. (p, dev)) dccs)"
  using assms
proof (induction dccs arbitrary: s regs)
  case (Cons pkg dccs)
  let ?ps = "if sublist ''iotcc'' (lower pkg) then org else props"
  let ?t = "s\<lparr>d_uuid := d_uuid s, d_calls := d_calls s @ calls_for s dev props org pkg\<rparr>"
  let ?u = "?t\<lparr>d_devices := dict_set name (ty, regs @ [(pkg, dev)]) (d_devices s)\<rparr>"
  have r: "reg_device pkg (pkg @ ''_edge_system'') name ty ?ps s = (Inr (Some dev), ?t)"
    using reg_device_all [of s pkg name uid "d_uuid s" "pkg @ ''_edge_system''" ty ?ps] Cons.prems
    by (simp add: calls_for_def)
  have e: "reg_with_dccs name ty props (pkg # dccs) s = reg_with_dccs name ty props dccs ?u"
  proof -
    have org: "(if sublist ''iotcc'' (lower pkg) then add_organization_properties ''iotcc'' props s else Inr props) = Inr ?ps"
      using Cons.prems(4) by simp
    show ?thesis unfolding reg_with_dccs.simps org
      using r Cons.prems(5) by (simp add: outcome_simps update_devinfo_def)
  qed
  have cf: "calls_for ?u = calls_for s" by (simp add: calls_for_def fun_eq_iff)
  have "\<exists>t. reg_with_dccs name ty props dccs ?u = (Inr (), t) \<and>
      d_calls t = d_calls ?u @ concat (map (calls_for ?u dev props org) dccs) \<and>
      dict_get (d_devices t) name = Some (ty, (regs @ [(pkg, dev)]) @ map (\<lambda>p. (p, dev)) dccs)"
    by (rule Cons.IH) (use Cons.prems add_organization_cong [of ?u s] in \<open>simp_all add: all_answer_def\<close>)
  then show ?case unfolding e cf by auto
qed simp

text \<open>A message about one device whose type is configured: it is registered with every component of its type, and
  the table of devices says so.\<close>

lemma device_registered_everywhere:
  assumes "class_match type_char ty" "dict_get (c_type_dcc_map (d_config s)) ty = Some dccs" "dccs \<noteq> []"
    "dict_get (c_type_key_map (d_config s)) ty = Some uk" "check_properties uk props [] = Inr (Some uv)"
    "all_answer s" "set dccs \<subseteq> set (d_resources s)" "system_uuid (d_uuid s) \<noteq> []"
    "add_organization_properties ''iotcc'' props s = Inr org"
    "dev = \<lparr>dev_name = ty @ ''_'' @ uv, dev_id = uuid5 (d_uuid s) (system_uuid (d_uuid s)) (ty @ ''_'' @ uv), dev_type = ty\<rparr>"
  shows "d_calls (device_msg_process (PDict [(ty, PDict props)]) s) = d_calls s @ concat (map (calls_for s dev props org) dccs)"
    "dict_get (d_devices (device_msg_process (PDict [(ty, PDict props)]) s)) (ty @ ''_'' @ uv) =
       Some (ty, map (\<lambda>p. (p, dev)) dccs)"
proof -
  let ?name = "ty @ ''_'' @ uv"
  let ?s1 = "save_devinfo ?name ty s"
  have cf: "calls_for ?s1 = calls_for s" by (simp add: calls_for_def fun_eq_iff save_devinfo_def)
  have "\<exists>t. reg_with_dccs ?name ty props dccs ?s1 = (Inr (), t) \<and>
      d_calls t = d_calls ?s1 @ concat (map (calls_for ?s1 dev props org) dccs) \<and>
      dict_get (d_devices t) ?name = Some (ty, [] @ map (\<lambda>p. (p, dev)) dccs)"
  proof (rule reg_with_dccs_all)
    show "get_uuid ?name (d_uuid ?s1) = (uuid5 (d_uuid s) (system_uuid (d_uuid s)) ?name, d_uuid ?s1)"
      using assms(8) by (simp add: save_devinfo_def get_uuid_def get_system_uuid_def Let_def)
  qed (use assms add_organization_cong [of ?s1 s] in \<open>simp_all add: save_devinfo_def all_answer_def\<close>)
  then obtain t where t: "reg_with_dccs ?name ty props dccs ?s1 = (Inr (), t)"
    "d_calls t = d_calls s @ concat (map (calls_for s dev props org) dccs)"
    "dict_get (d_devices t) ?name = Some (ty, map (\<lambda>p. (p, dev)) dccs)"
    using cf by (auto simp: save_devinfo_def)
  have "device_msg_process (PDict [(ty, PDict props)]) s = t"
    using assms(1-5) t(1) by (simp add: device_msg_process_def outcome_simps Let_def)
  with t show "d_calls (device_msg_process (PDict [(ty, PDict props)]) s) = d_calls s @ concat (map (calls_for s dev props org) dccs)"
    "dict_get (d_devices (device_msg_process (PDict [(ty, PDict props)]) s)) ?name = Some (ty, map (\<lambda>p. (p, dev)) dccs)" by auto
qed

section \<open>Consistency of the configuration\<close>

text \<open>Every device type with components also has its unique key, and the third table joins the two.\<close>

definition types_ok :: "disc \<Rightarrow> bool" where
  "types_ok s \<longleftrightarrow>
     (\<forall>ty l. dict_get (d_type_dcc s) ty = Some l \<longrightarrow>
        l \<noteq> [] \<and> (\<exists>k. dict_get (d_type_key s) ty = Some k \<and> dict_get (d_type_tuple s) ty = Some (k, l)))"

lemma read_type_dccs_ok: "read_type_dccs kvs s = (Inr (), t) \<Longrightarrow> types_ok s \<Longrightarrow> types_ok t"
proof (induction kvs arbitrary: s)
  case (Cons kv kvs)
  show ?case
  proof (cases "class_match type_char (fst kv) \<and> snd kv \<noteq> ''None''")
    case True
    let ?l = "map strip (py_split (CHR '','') (snd kv))"
    obtain k where k: "dict_get (d_type_key s) (fst kv) = Some k"
      "read_type_dccs kvs (s\<lparr>d_type_dcc := dict_set (fst kv) ?l (d_type_dcc s),
          d_type_tuple := dict_set (fst kv) (k, ?l) (d_type_tuple s)\<rparr>) = (Inr (), t)"
      using Cons.prems(1) True by (auto simp: Let_def split: option.splits)
    have "types_ok (s\<lparr>d_type_dcc := dict_set (fst kv) ?l (d_type_dcc s),
          d_type_tuple := dict_set (fst kv) (k, ?l) (d_type_tuple s)\<rparr>)"
      using Cons.prems(2) k(1) by (auto simp: types_ok_def)
    with Cons.IH k(2) show ?thesis by blast
  qed (use Cons in \<open>auto split: if_splits\<close>)
qed simp

lemma read_type_dccs_missing_key:
  assumes "class_match type_char ty" "v \<noteq> ''None''" "dict_get (d_type_key s) ty = None"
  shows "fst (read_type_dccs ((ty, v) # rest) s) = Inl KeyError"
  using assms by (simp add: Let_def)

lemma read_type_keys_frame: "\<exists>k. read_type_keys kvs s = s\<lparr>d_type_key := k\<rparr>"
proof (induction kvs arbitrary: s)
  case Nil
  show ?case by (rule exI [of _ "d_type_key s"]) simp
next
  case (Cons kv kvs)
  from Cons [of s] Cons [of "s\<lparr>d_type_key := dict_set (fst kv) (snd kv) (d_type_key s)\<rparr>"] show ?case by auto
qed

lemma read_endpoints_frame: "\<exists>ep. snd (read_endpoints c eps s) = s\<lparr>d_endpoints := ep\<rparr>"
proof (induction eps arbitrary: s)
  case Nil
  show ?case by (rule exI [of _ "d_endpoints s"]) simp
next
  case (Cons kv eps)
  have "\<exists>ep. snd (read_endpoints c eps (s\<lparr>d_endpoints := x\<rparr>)) = s\<lparr>d_endpoints := ep\<rparr>" for x
    using Cons [of "s\<lparr>d_endpoints := x\<rparr>"] by simp
  moreover have "\<exists>ep. s = s\<lparr>d_endpoints := ep\<rparr>" by (rule exI [of _ "d_endpoints s"]) simp
  ultimately show ?case using Cons [of s] by (simp add: Let_def split: sum.split)
qed

lemma find_path_in_dcc [simp]: "d_type_dcc (find_path_in locs s) = d_type_dcc s"
  by (induction locs) (auto simp: Let_def split: option.splits)

lemma makedirs_dcc: "makedirs p s = (r, t) \<Longrightarrow> d_type_dcc t = d_type_dcc s"
  by (auto simp: makedirs_def split: if_splits)

lemma read_paths_dcc: "read_paths c s = (r, t) \<Longrightarrow> d_type_dcc t = d_type_dcc s"
  by (auto simp: read_paths_def outcome_simps split: sum.splits prod.splits if_splits dest: makedirs_dcc)

lemma read_mappings_ok:
  assumes "read_mappings c s = (Inr (), t)" "d_type_dcc s = []"
  shows "types_ok t"
proof -
  obtain pipe pkg eps keys dccs s1 where r: "read_endpoints c eps (s\<lparr>d_cmd_pipe := pipe, d_package_path := pkg\<rparr>) = (Inr (), s1)"
    "read_type_dccs dccs (read_type_keys keys s1) = (Inr (), t)"
    using assms(1) unfolding read_mappings_def then_e_def
    by (auto simp: bind_e_Inr lift_e_def modify_e_def)
  obtain ep where "s1 = s\<lparr>d_cmd_pipe := pipe, d_package_path := pkg\<rparr>\<lparr>d_endpoints := ep\<rparr>"
    using read_endpoints_frame [of c eps "s\<lparr>d_cmd_pipe := pipe, d_package_path := pkg\<rparr>"] r(1) by auto
  moreover obtain k where "read_type_keys keys s1 = s1\<lparr>d_type_key := k\<rparr>" using read_type_keys_frame by blast
  ultimately have "types_ok (read_type_keys keys s1)" using assms(2) by (simp add: types_ok_def)
  with read_type_dccs_ok [OF r(2)] show ?thesis by blast
qed

lemma get_config_ok:
  assumes "get_config_from_file s = (Inr (), t)" "d_type_dcc s = []"
  shows "types_ok t"
proof -
  have d: "d_type_dcc (LiotaConfigPath s) = []" using assms(2) by (simp add: LiotaConfigPath_def find_path_def del: find_path_in.simps)
  show ?thesis
  proof (cases "get_liota_fullpath (LiotaConfigPath s) = []")
    case True
    with assms(1) d show ?thesis by (auto simp: get_config_from_file_def Let_def types_ok_def split: if_splits)
  next
    case False
    then obtain c where "then_e (read_paths c) (read_mappings c) (LiotaConfigPath s) = (Inr (), t)"
      using assms(1) by (auto simp: get_config_from_file_def Let_def split: conf_file.splits sum.splits prod.splits if_splits)
    then obtain s1 x where "read_paths c (LiotaConfigPath s) = (Inr x, s1)" "read_mappings c s1 = (Inr (), t)"
      unfolding then_e_def bind_e_Inr by blast
    with d show ?thesis using read_paths_dcc read_mappings_ok by metis
  qed
qed

text \<open>After the constructor, the saved tables are the ones that were read, and consistent.\<close>

lemma DiscoveryThread_ok:
  assumes "DiscoveryThread pc s = (Inr (), t)"
  shows "\<forall>ty l. dict_get (c_type_dcc_map (d_config t)) ty = Some l \<longrightarrow>
      l \<noteq> [] \<and> (\<exists>k. dict_get (c_type_key_map (d_config t)) ty = Some k \<and> dict_get (c_type_tuple (d_config t)) ty = Some (k, l))"
proof -
  let ?s0 = "s\<lparr>d_cmd_pipe := None, d_endpoints := [], d_type_dcc := [], d_type_key := [], d_type_tuple := [],
       d_package_path := pc, d_dev_path := None, d_org_path := None\<rparr>"
  obtain s1 s2 s3 where r: "get_config_from_file ?s0 = (Inr (), s1)" "executable_check s1 = (Inr (), s2)"
    "save_config s2 = (Inr (), s3)" "t = s3\<lparr>d_listeners := [], d_devices := [], d_alive := True\<rparr>"
    using assms unfolding DiscoveryThread_def then_e_def
    by (auto simp: bind_e_Inr modify_e_def)
  have "types_ok s1" using get_config_ok [OF r(1)] by simp
  moreover have "d_type_dcc s2 = d_type_dcc s1" "d_type_key s2 = d_type_key s1" "d_type_tuple s2 = d_type_tuple s1"
    using r(2) by (auto simp: executable_check_def validate_named_pipe_def makedirs_def mkfifo_def
        split: pyval.splits option.splits prod.splits sum.splits if_splits)
  moreover have "c_type_dcc_map (d_config t) = d_type_dcc s2" "c_type_key_map (d_config t) = d_type_key s2"
    "c_type_tuple (d_config t) = d_type_tuple s2"
    using r(3,4) by (auto simp: save_config_def split: option.splits)
  ultimately show ?thesis unfolding types_ok_def by simp
qed

section \<open>Listeners\<close>

text \<open>Sockets and CoAP never get a listener.\<close>

definition listeners_ok :: "disc \<Rightarrow> bool" where
  "listeners_ok s \<longleftrightarrow> (\<forall>k. dict_has (d_listeners s) k \<longrightarrow> sublist ''disc_msg_pipe'' k \<or> sublist ''mqtt'' k)"

definition keeps_listeners :: "disc \<Rightarrow> disc \<Rightarrow> bool" where
  "keeps_listeners s t \<longleftrightarrow> (listeners_ok s \<longrightarrow> listeners_ok t)"

lemma start_listener_ok:
  "sublist ''disc_msg_pipe'' k \<or> sublist ''mqtt'' k \<Longrightarrow> preserves keeps_listeners (start_listener kind k v)"
  by (auto simp: preserves_def keeps_listeners_def listeners_ok_def start_listener_def split: sum.splits)

lemma start_listeners_ok: "preserves keeps_listeners (start_listeners eps)"
proof (induction eps)
  case (Cons kv eps)
  let ?a = "if sublist ''disc_msg_pipe'' (fst kv) then start_listener NamedPipeListener (fst kv) (snd kv) else return_e ()"
    and ?b = "if sublist ''mqtt'' (fst kv) then start_listener MqttListener (fst kv) (snd kv) else return_e ()"
  have th: "preserves keeps_listeners (then_e m n)" if "preserves keeps_listeners m" "preserves keeps_listeners n"
    for m n :: "disc \<Rightarrow> (disc, unit) outcome"
    using that by (rule preserves_then [rotated]) (auto simp: keeps_listeners_def)
  have ret: "preserves keeps_listeners (return_e ())" by (rule preserves_pure) (simp add: keeps_listeners_def)
  have "preserves keeps_listeners ?a" "preserves keeps_listeners ?b" by (simp_all add: start_listener_ok ret)
  then have "preserves keeps_listeners (then_e ?a (then_e ?b (start_listeners eps)))"
    using Cons by (intro th)
  then show ?case using Cons by (auto simp: preserves_def)
qed (simp add: preserves_def keeps_listeners_def)

lemma clean_up_all_ok:
  "\<forall>k. d_clean_up s k = Inr () \<Longrightarrow> \<exists>t. clean_up_all ks s = (Inr (), t) \<and>
     dict_keys (d_listeners t) = filter (\<lambda>k. k \<notin> set ks) (dict_keys (d_listeners s))"
proof (induction ks arbitrary: s)
  case (Cons k ks)
  let ?s = "s\<lparr>d_listeners := dict_del k (d_listeners s)\<rparr>"
  obtain t where t: "clean_up_all ks ?s = (Inr (), t)"
    "dict_keys (d_listeners t) = filter (\<lambda>k. k \<notin> set ks) (dict_keys (d_listeners ?s))"
    using Cons.IH [of ?s] Cons.prems by auto
  have "filter (\<lambda>j. j \<notin> set ks) (removeAll k xs) = filter (\<lambda>j. j \<notin> set (k # ks)) xs" for xs
    by (induction xs) auto
  with t Cons.prems show ?case by (auto simp: dict_keys_del simp del: list.set)
qed simp

section \<open>The pipe reader\<close>

lemma words_from_run: "\<forall>c\<in>set w. \<not> is_space c \<Longrightarrow> words_from acc (w @ rest) = words_from (acc @ w) rest"
  by (induction w arbitrary: acc) auto

lemma words_join:
  assumes "\<forall>w\<in>set ws. w \<noteq> [] \<and> (\<forall>c\<in>set w. \<not> is_space c)"
  shows "words (py_join '' '' ws @ [LF]) = ws"
proof -
  have sp: "is_space CHR '' ''" "is_space LF" by (simp_all add: is_space_def Let_def)
  have "words_from [] (py_join '' '' ws @ [LF]) = ws" using assms
  proof (induction ws)
    case (Cons w ws)
    then show ?case using sp words_from_run [of w "[]"] by (cases ws) auto
  qed (simp add: sp)
  then show ?thesis by (simp add: words_def)
qed

lemma no_space_LF: "\<forall>c\<in>set w. \<not> is_space c \<Longrightarrow> LF \<notin> set w"
  by (auto simp: is_space_def Let_def)

lemma join_no_LF: "\<forall>w\<in>set ws. LF \<notin> set w \<Longrightarrow> LF \<notin> set (py_join '' '' ws)"
  by (induction "'' ''" ws rule: py_join.induct) auto

text \<open>A command line reaches the interpreter as its words; the line that ends the reader is recognised, unlike
  in the reader of the package manager.\<close>

lemma cmd_messenger_delivers:
  assumes "ws \<noteq> []" "\<forall>w\<in>set ws. w \<noteq> [] \<and> (\<forall>c\<in>set w. \<not> is_space c)" "ws \<noteq> [terminate_messenger]"
  shows "cmd_messenger_run ((py_join '' '' ws @ [LF]) # rest) q = cmd_messenger_run rest (q @ [ws])"
proof -
  have "LF \<notin> set (py_join '' '' ws)" using assms(2) no_space_LF by (intro join_no_LF) blast
  then have "readlines (py_join '' '' ws @ [LF]) = [py_join '' '' ws @ [LF]]"
    using readlines_append_LF [of "py_join '' '' ws" "[]"] by simp
  then show ?thesis using assms words_join [OF assms(2)] by (auto simp: Let_def length_Suc_conv)
qed

lemma cmd_messenger_terminates: "cmd_messenger_run ((terminate_messenger @ [LF]) # rest) q = (False, q)"
proof -
  have t: "\<forall>c\<in>set terminate_messenger. \<not> is_space c" "terminate_messenger \<noteq> []"
    by (simp_all add: terminate_messenger_def is_space_def Let_def)
  then have "words (terminate_messenger @ [LF]) = [terminate_messenger]"
    using words_join [of "[terminate_messenger]"] by simp
  moreover have "readlines (terminate_messenger @ [LF]) = [terminate_messenger @ [LF]]"
    using readlines_append_LF [of terminate_messenger "[]"] no_space_LF [OF t(1)] by simp
  ultimately show ?thesis by simp
qed

end
