(* ===== verification/Disc_Listeners.thy ===== *)
theory Disc_Listeners
  imports Discovery_Properties
begin

text \<open>
  The listeners of device discovery (\<^verbatim>\<open>src/liota/disc_listeners\<close>): how the named pipe, MQTT and socket
  listeners turn what they receive into messages for \<^verbatim>\<open>device_msg_process\<close>. \<open>loads\<close> is \<^verbatim>\<open>json.loads\<close>
  on texts. Messages are processed in threads of their own; the model runs them in the order they are started.
\<close>

section \<open>Named pipe\<close>

definition end_line :: string where "end_line = ''END'' @ [LF]"

text \<open>One opening of the pipe in \<^verbatim>\<open>NamedPipeListener.run\<close>: lines are collected until a line \<^verbatim>\<open>END\<close>. After a text that is
  no JSON the collected text stays.\<close>

primrec pipe_lines :: "(string \<Rightarrow> pyval option) \<Rightarrow> string list \<Rightarrow> string \<Rightarrow> pyval list" where
  "pipe_lines loads [] data = []"
| "pipe_lines loads (line # rest) data =
     (if line \<noteq> end_line then pipe_lines loads rest (data @ line)
      else case loads data of
             Some payload \<Rightarrow> payload # pipe_lines loads rest []
           | None \<Rightarrow> pipe_lines loads rest data)"

definition pipe_listener_run :: "(string \<Rightarrow> pyval option) \<Rightarrow> string list \<Rightarrow> disc \<Rightarrow> disc" where
  "pipe_listener_run loads contents s =
     foldl (\<lambda>s p. device_msg_process p s) s (concat (map (\<lambda>c. pipe_lines loads (readlines c) []) contents))"

section \<open>MQTT\<close>

text \<open>\<^verbatim>\<open>MqttListener.__init__\<close>: address, port and topic; without a topic the attribute stays unset.\<close>

record mqtt_endpoint =
  broker_ip :: string
  broker_port :: int
  topic :: "string option"

definition MqttListener_init :: "(string \<times> pyval) list \<Rightarrow> py_error + mqtt_endpoint" where
  "MqttListener_init mqtt_cfg =
     bind_r (case dict_get mqtt_cfg ''broker_ip_port_topic'' of
               None \<Rightarrow> Inl KeyError | Some (PStr t) \<Rightarrow> Inr t | Some _ \<Rightarrow> Inl AttributeError) (\<lambda>t.
       let l = py_split (CHR '':'') t;
           ip = (if l ! 0 = [] then ''127.0.0.1'' else l ! 0)
       in if length l < 2 then Inl IndexError
          else bind_r (py_int (l ! 1)) (\<lambda>port.
            if length l < 3 then Inl IndexError
            else Inr \<lparr>broker_ip = ip, broker_port = port, topic = (if l ! 2 = [] then None else Some (l ! 2))\<rparr>))"

definition callback_msg_proc :: "(string \<Rightarrow> pyval option) \<Rightarrow> string \<Rightarrow> disc \<Rightarrow> disc" where
  "callback_msg_proc loads payload s =
     (if payload = [] then s
      else case loads payload of None \<Rightarrow> s | Some p \<Rightarrow> device_msg_process p s)"

section \<open>Sockets\<close>

text \<open>\<^verbatim>\<open>SocketListener.__init__\<close>: the port, and \<^verbatim>\<open>on_new_client\<close>: every piece that \<^verbatim>\<open>recv\<close> returns is taken for a whole
  message; the result is the answers that were sent.\<close>

definition socket_port :: "string \<Rightarrow> py_error + int" where
  "socket_port ip_port =
     (let l = py_split (CHR '':'') ip_port in if length l < 2 then Inl IndexError else py_int (l ! 1))"

primrec on_new_client :: "(string \<Rightarrow> pyval option) \<Rightarrow> string list \<Rightarrow> disc \<Rightarrow> string list \<times> disc" where
  "on_new_client loads [] s = ([], s)"
| "on_new_client loads (msg # rest) s =
     (if msg = [] then ([], s)
      else case loads msg of
             None \<Rightarrow> on_new_client loads rest s
           | Some p \<Rightarrow> (case on_new_client loads rest (device_msg_process p s) of (out, t) \<Rightarrow> (''Received~'' # out, t)))"

section \<open>CoAP\<close>

definition coap_endpoint :: "string \<Rightarrow> py_error + string \<times> int" where
  "coap_endpoint ip_port =
     (let l = py_split (CHR '':'') ip_port; ip = (if l ! 0 = [] then ''127.0.0.1'' else l ! 0)
      in if length l < 2 then Inl IndexError
         else if l ! 1 = [] then Inr (ip, 5683) else bind_r (py_int (l ! 1)) (\<lambda>port. Inr (ip, port)))"

definition render_PUT :: "(string \<Rightarrow> pyval option) \<Rightarrow> string \<Rightarrow> disc \<Rightarrow> disc" where
  "render_PUT loads payload s = (case loads payload of None \<Rightarrow> s | Some p \<Rightarrow> device_msg_process p s)"

section \<open>Well-formed messages arrive\<close>

text \<open>The text of messages on the pipe: the lines of each one, then \<^verbatim>\<open>END\<close>.\<close>

definition pipe_text :: "string list list \<Rightarrow> string" where
  "pipe_text msgs = concat (map (\<lambda>ls. concat (map (\<lambda>l. l @ [LF]) ls) @ end_line) msgs)"

lemma readlines_lines:
  "\<forall>l\<in>set ls. LF \<notin> set l \<Longrightarrow> readlines (concat (map (\<lambda>l. l @ [LF]) ls) @ t) = map (\<lambda>l. l @ [LF]) ls @ readlines t"
  by (induction ls) (auto simp: readlines_append_LF)

lemma readlines_end: "readlines (end_line @ t) = end_line # readlines t"
  using readlines_append_LF [of "''END''" t] by (simp add: end_line_def)

lemma pipe_lines_message:
  assumes "\<forall>l\<in>set ls. l \<noteq> ''END''"
  shows "pipe_lines loads (map (\<lambda>l. l @ [LF]) ls @ end_line # rest) data =
    (case loads (data @ concat (map (\<lambda>l. l @ [LF]) ls)) of
       Some p \<Rightarrow> p # pipe_lines loads rest []
     | None \<Rightarrow> pipe_lines loads rest (data @ concat (map (\<lambda>l. l @ [LF]) ls)))"
  using assms
proof (induction ls arbitrary: data)
  case (Cons l ls)
  have "l @ [LF] \<noteq> end_line" using Cons.prems by (simp add: end_line_def)
  with Cons show ?case by (simp split: option.split)
qed (simp split: option.split)

lemma pipe_messages:
  assumes "\<forall>m\<in>set msgs. (\<forall>l\<in>set m. LF \<notin> set l \<and> l \<noteq> ''END'') \<and> loads (concat (map (\<lambda>l. l @ [LF]) m)) \<noteq> None"
  shows "pipe_lines loads (readlines (pipe_text msgs)) [] = map (\<lambda>m. the (loads (concat (map (\<lambda>l. l @ [LF]) m)))) msgs"
  using assms
proof (induction msgs)
  case (Cons m msgs)
  have "readlines (pipe_text (m # msgs)) = map (\<lambda>l. l @ [LF]) m @ end_line # readlines (pipe_text msgs)"
    using Cons.prems readlines_lines [of m "end_line @ pipe_text msgs"] by (simp add: pipe_text_def readlines_end)
  then show ?case using Cons pipe_lines_message [of m loads "readlines (pipe_text msgs)" "[]"] by auto
qed (simp add: pipe_text_def)

text \<open>A text that is no JSON spoils what follows it: the next message is read with the bad text in front, which is no
  JSON either when no text with that beginning is.\<close>

lemma pipe_poisoned:
  assumes "\<forall>m\<in>set (bad # msgs). \<forall>l\<in>set m. LF \<notin> set l \<and> l \<noteq> ''END''"
    "\<forall>t. loads (concat (map (\<lambda>l. l @ [LF]) bad) @ t) = None"
  shows "pipe_lines loads (readlines (pipe_text (bad # msgs))) [] = []"
proof -
  let ?b = "concat (map (\<lambda>l. l @ [LF]) bad)"
  have p: "pipe_lines loads (readlines (pipe_text msgs)) (?b @ t) = []" if "\<forall>m\<in>set msgs. \<forall>l\<in>set m. LF \<notin> set l \<and> l \<noteq> ''END''" for t
    using that
  proof (induction msgs arbitrary: t)
    case (Cons m msgs)
    have "readlines (pipe_text (m # msgs)) = map (\<lambda>l. l @ [LF]) m @ end_line # readlines (pipe_text msgs)"
      using Cons.prems readlines_lines [of m "end_line @ pipe_text msgs"] by (simp add: pipe_text_def readlines_end)
    then show ?case
      using Cons.IH [of "t @ concat (map (\<lambda>l. l @ [LF]) m)"] Cons.prems assms(2)
        pipe_lines_message [of m loads "readlines (pipe_text msgs)" "?b @ t"] by (simp add: append_assoc)
  qed (simp add: pipe_text_def)
  have "readlines (pipe_text (bad # msgs)) = map (\<lambda>l. l @ [LF]) bad @ end_line # readlines (pipe_text msgs)"
    using assms(1) readlines_lines [of bad "end_line @ pipe_text msgs"] by (simp add: pipe_text_def readlines_end)
  then show ?thesis using pipe_lines_message [of bad loads "readlines (pipe_text msgs)" "[]"] p [of "[]"] assms
    by (auto simp: spec [OF assms(2), of "[]", simplified])
qed

end
