(* ===== verification/Json_Text.thy ===== *)
theory Json_Text
  imports Py_Values
begin

text \<open>
  Reading of JSON texts, \<^verbatim>\<open>json.loads\<close> of the standard library, which the listeners and the IoT control center use, and the
  proof that it reads back what \<open>json_dumps\<close> writes. The grammar is the one of the decoder of Python 2.7: white space
  between tokens, no control characters in strings, the last of several values of a key wins. A text that is rejected
  with \<^verbatim>\<open>ValueError\<close> gives \<open>None\<close>. Strings being ASCII, an escape \<^verbatim>\<open>\\u\<close> beyond it is rejected here, and so are \<^verbatim>\<open>NaN\<close> and the
  infinities.
\<close>

section \<open>Parser\<close>

definition json_space :: "char \<Rightarrow> bool" where
  "json_space c = (c = CHR '' '' \<or> c = TAB \<or> c = LF \<or> c = CR)"

abbreviation skip_ws :: "string \<Rightarrow> string" where "skip_ws \<equiv> dropWhile json_space"

definition is_digit :: "char \<Rightarrow> bool" where
  "is_digit c = (c \<in> set ''0123456789'')"

definition hex_value :: "char \<Rightarrow> nat option" where
  "hex_value c =
     (let n = (of_char c :: nat) in
      if 48 \<le> n \<and> n \<le> 57 then Some (n - 48) else if 97 \<le> n \<and> n \<le> 102 then Some (n - 87)
      else if 65 \<le> n \<and> n \<le> 70 then Some (n - 55) else None)"

definition hex4 :: "char \<Rightarrow> char \<Rightarrow> char \<Rightarrow> char \<Rightarrow> char option" where
  "hex4 a b c d =
     (case (hex_value a, hex_value b, hex_value c, hex_value d) of
        (Some w, Some x, Some y, Some z) \<Rightarrow>
          (let n = ((w * 16 + x) * 16 + y) * 16 + z in if n < 128 then Some (char_of n) else None)
      | _ \<Rightarrow> None)"

definition json_escape :: "char \<Rightarrow> char option" where
  "json_escape e =
     (if e = CHR 0x22 \<or> e = CHR 0x5C \<or> e = CHR ''/'' then Some e
      else if e = CHR ''b'' then Some (CHR 0x08) else if e = CHR ''f'' then Some (CHR 0x0C)
      else if e = CHR ''n'' then Some LF else if e = CHR ''r'' then Some CR
      else if e = CHR ''t'' then Some TAB else None)"

text \<open>The rest of a string after its opening quote.\<close>

fun json_str_body :: "string \<Rightarrow> (string \<times> string) option" where
  "json_str_body [] = None"
| "json_str_body (c # cs) =
     (if c = CHR 0x22 then Some ([], cs)
      else if c = CHR 0x5C then
        (case cs of
           [] \<Rightarrow> None
         | e # es \<Rightarrow>
             if e = CHR ''u'' then
               (case es of
                  h1 # h2 # h3 # h4 # r \<Rightarrow>
                    (case hex4 h1 h2 h3 h4 of
                       None \<Rightarrow> None | Some x \<Rightarrow> map_option (\<lambda>(t, q). (x # t, q)) (json_str_body r))
                | _ \<Rightarrow> None)
             else (case json_escape e of
                     None \<Rightarrow> None | Some x \<Rightarrow> map_option (\<lambda>(t, q). (x # t, q)) (json_str_body es)))
      else if of_char c < (32::nat) then None
      else map_option (\<lambda>(t, q). (c # t, q)) (json_str_body cs))"

text \<open>Numbers: an optional sign, digits without leading zero, optional fraction and exponent.\<close>

definition json_frac :: "string \<Rightarrow> (rat \<times> string) option" where
  "json_frac s =
     (case s of
        c # cs \<Rightarrow>
          if c = CHR ''.'' \<and> takeWhile is_digit cs \<noteq> [] then
            Some (of_nat (numeral_value 10 (takeWhile is_digit cs)) / 10 ^ length (takeWhile is_digit cs), dropWhile is_digit cs)
          else None
      | [] \<Rightarrow> None)"

definition json_exp :: "string \<Rightarrow> (int \<times> string) option" where
  "json_exp s =
     (case s of
        c # cs \<Rightarrow>
          if c = CHR ''e'' \<or> c = CHR ''E'' then
            (let neg = (cs \<noteq> [] \<and> hd cs = CHR ''-'');
                 d = (if cs \<noteq> [] \<and> (hd cs = CHR ''-'' \<or> hd cs = CHR ''+'') then tl cs else cs)
             in if takeWhile is_digit d = [] then None
                else Some ((if neg then -1 else 1) * int (numeral_value 10 (takeWhile is_digit d)), dropWhile is_digit d))
          else None
      | [] \<Rightarrow> None)"

definition json_int_part :: "string \<Rightarrow> (nat \<times> string) option" where
  "json_int_part s =
     (case s of
        c # cs \<Rightarrow>
          if c = CHR ''0'' then Some (0, cs)
          else if is_digit c then Some (numeral_value 10 (takeWhile is_digit s), dropWhile is_digit s)
          else None
      | [] \<Rightarrow> None)"

definition json_number :: "string \<Rightarrow> (pyval \<times> string) option" where
  "json_number s =
     (let neg = (s \<noteq> [] \<and> hd s = CHR ''-''); t = (if neg then tl s else s) in
      case json_int_part t of
        None \<Rightarrow> None
      | Some (n, r) \<Rightarrow>
          (case (json_frac r, json_exp (case json_frac r of None \<Rightarrow> r | Some (_, r') \<Rightarrow> r')) of
             (None, None) \<Rightarrow> Some (PInt (if neg then - int n else int n), r)
           | (f, e) \<Rightarrow>
               (let q = of_nat n + (case f of None \<Rightarrow> 0 | Some (x, _) \<Rightarrow> x);
                    k = (case e of None \<Rightarrow> 0 | Some (i, _) \<Rightarrow> i);
                    w = (if 0 \<le> k then q * 10 ^ nat k else q / 10 ^ nat (- k));
                    rest = (case e of Some (_, r'') \<Rightarrow> r'' | None \<Rightarrow> (case f of Some (_, r') \<Rightarrow> r' | None \<Rightarrow> r))
                in Some (PFloat (if neg then - w else w), rest))))"

text \<open>Values, members of objects and elements of lists. At least every second call consumes a character, so that
  twice the length of the text bounds the depth of the recursion.\<close>

fun parse_value :: "nat \<Rightarrow> string \<Rightarrow> (pyval \<times> string) option"
  and parse_members :: "nat \<Rightarrow> string \<Rightarrow> ((string \<times> pyval) list \<times> string) option"
  and parse_elements :: "nat \<Rightarrow> string \<Rightarrow> (pyval list \<times> string) option"
where
  "parse_value 0 s = None"
| "parse_value (Suc n) s =
     (case s of
        [] \<Rightarrow> None
      | c # cs \<Rightarrow>
          if c = CHR 0x22 then map_option (\<lambda>(t, r). (PStr t, r)) (json_str_body cs)
          else if c = CHR 0x7B then
            (case skip_ws cs of
               [] \<Rightarrow> None
             | d # ds \<Rightarrow>
                 if d = CHR 0x7D then Some (PDict [], ds)
                 else map_option (\<lambda>(m, r). (PDict (dict_update [] m), r)) (parse_members n (d # ds)))
          else if c = CHR ''['' then
            (case skip_ws cs of
               [] \<Rightarrow> None
             | d # ds \<Rightarrow>
                 if d = CHR '']'' then Some (PList [], ds)
                 else map_option (\<lambda>(xs, r). (PList xs, r)) (parse_elements n (d # ds)))
          else if startswith s ''null'' then Some (PNone, drop 4 s)
          else if startswith s ''true'' then Some (PBool True, drop 4 s)
          else if startswith s ''false'' then Some (PBool False, drop 5 s)
          else json_number s)"
| "parse_members 0 s = None"
| "parse_members (Suc n) s =
     (case s of
        [] \<Rightarrow> None
      | q # cs \<Rightarrow>
          if q \<noteq> CHR 0x22 then None
          else (case json_str_body cs of
                  None \<Rightarrow> None
                | Some (k, r1) \<Rightarrow>
                    (case skip_ws r1 of
                       [] \<Rightarrow> None
                     | d # r2 \<Rightarrow>
                         if d \<noteq> CHR '':'' then None
                         else (case parse_value n (skip_ws r2) of
                                 None \<Rightarrow> None
                               | Some (v, r3) \<Rightarrow>
                                   (case skip_ws r3 of
                                      [] \<Rightarrow> None
                                    | e # r4 \<Rightarrow>
                                        if e = CHR 0x7D then Some ([(k, v)], r4)
                                        else if e \<noteq> CHR '','' then None
                                        else map_option (\<lambda>(m, r5). ((k, v) # m, r5)) (parse_members n (skip_ws r4)))))))"
| "parse_elements 0 s = None"
| "parse_elements (Suc n) s =
     (case parse_value n s of
        None \<Rightarrow> None
      | Some (v, r) \<Rightarrow>
          (case skip_ws r of
             [] \<Rightarrow> None
           | e # r1 \<Rightarrow>
               if e = CHR '']'' then Some ([v], r1)
               else if e \<noteq> CHR '','' then None
               else map_option (\<lambda>(xs, r2). (v # xs, r2)) (parse_elements n (skip_ws r1))))"

definition json_parse :: "string \<Rightarrow> pyval option" where
  "json_parse s =
     (case parse_value (2 * length s + 2) (skip_ws s) of
        Some (v, r) \<Rightarrow> if skip_ws r = [] then Some v else None
      | None \<Rightarrow> None)"

section \<open>What is written is read back\<close>

declare parse_value.simps [simp del] parse_members.simps [simp del] parse_elements.simps [simp del]

text \<open>Strings.\<close>

lemma char_less_32: "of_char c < (32::nat) \<Longrightarrow> c \<in> set (map char_of [0..<32::nat])"
  by (simp add: image_iff) (metis atLeastLessThan_iff char_of_char le0)

lemma json_str_control:
  assumes "of_char c < (32::nat)"
  shows "json_str_body (json_char c @ t) = map_option (\<lambda>(u, q). (c # u, q)) (json_str_body t)"
proof -
  have "list_all (\<lambda>c. case json_char c of
      e # f # cs \<Rightarrow> e = CHR 0x5C \<and>
        (if f = CHR ''u'' then length cs = 4 \<and> hex4 (cs ! 0) (cs ! 1) (cs ! 2) (cs ! 3) = Some c
         else cs = [] \<and> json_escape f = Some c)
    | _ \<Rightarrow> False) (map char_of [0..<32::nat])"
    by code_simp
  with char_less_32 [OF assms] obtain f cs where c: "json_char c = CHR 0x5C # f # cs"
    and e: "if f = CHR ''u'' then length cs = 4 \<and> hex4 (cs ! 0) (cs ! 1) (cs ! 2) (cs ! 3) = Some c
         else cs = [] \<and> json_escape f = Some c"
    unfolding list_all_iff by (fastforce split: list.splits)
  show ?thesis
  proof (cases "f = CHR ''u''")
    case True
    with e obtain h1 h2 h3 h4 where "cs = [h1, h2, h3, h4]" by (auto simp: length_Suc_conv numeral_eq_Suc)
    with True e c show ?thesis by simp
  next
    case False
    with e c show ?thesis by simp
  qed
qed

lemma json_str_char: "json_str_body (json_char c @ t) = map_option (\<lambda>(u, q). (c # u, q)) (json_str_body t)"
proof (cases "of_char c < (32::nat)")
  case False
  then have "c \<noteq> LF" "c \<noteq> CR" "c \<noteq> TAB" "c \<noteq> CHR 0x08" "c \<noteq> CHR 0x0C" by auto
  with False show ?thesis by (auto simp: json_char_def json_escape_def)
qed (rule json_str_control)

lemma json_str_read: "json_str_body (concat (map json_char s) @ CHR 0x22 # r) = Some (s, r)"
  by (induction s) (simp_all add: json_str_char del: json_str_body.simps(2), simp add: json_str_body.simps(2))

text \<open>Numbers: what follows a number must not continue it.\<close>

definition json_stop :: "string \<Rightarrow> bool" where
  "json_stop r = (r = [] \<or> (\<not> is_digit (hd r) \<and> hd r \<notin> set ''.eE''))"

lemma digit_char_digit: "d < 10 \<Longrightarrow> is_digit (digit_char d)"
  by (auto simp: is_digit_def digit_char_def less_Suc_eq numeral_eq_Suc)

lemma digit_char_zero: "d < 10 \<Longrightarrow> digit_char d = CHR ''0'' \<longleftrightarrow> d = 0"
  by (auto simp: digit_char_def less_Suc_eq numeral_eq_Suc)

lemma str_nat_digits: "list_all is_digit (str_nat n)"
proof (induction n rule: less_induct)
  case (less n)
  then show ?case by (subst digits_of.simps) (auto simp: digit_char_digit)
qed

lemma str_nat_not_Nil [simp]: "str_nat n \<noteq> []"
  by (subst digits_of.simps) simp

lemma str_nat_hd: "0 < n \<Longrightarrow> hd (str_nat n) \<noteq> CHR ''0''"
proof (induction n rule: less_induct)
  case (less n)
  show ?case
  proof (cases "n < 10")
    case True
    with less.prems show ?thesis by (subst digits_of.simps) (simp add: digit_char_zero)
  next
    case False
    then have "str_nat n = str_nat (n div 10) @ [digit_char (n mod 10)]" by (subst digits_of.simps) simp
    with False less.IH [of "n div 10"] show ?thesis by simp
  qed
qed

lemma takeWhile_digits:
  "list_all P ds \<Longrightarrow> r = [] \<or> \<not> P (hd r) \<Longrightarrow> takeWhile P (ds @ r) = ds \<and> dropWhile P (ds @ r) = r"
  by (induction ds) (cases r; auto)+

lemma json_int_part_read:
  assumes "json_stop r"
  shows "json_int_part (str_nat n @ r) = Some (n, r)"
proof (cases "n = 0")
  case True
  have "str_nat 0 = ''0''" by (subst digits_of.simps) (simp add: digit_char_def)
  with True show ?thesis by (simp add: json_int_part_def)
next
  case False
  obtain d ds where d: "str_nat n = d # ds" by (cases "str_nat n") auto
  have "is_digit d" "d \<noteq> CHR ''0''" using str_nat_digits [of n] str_nat_hd [of n] False d by auto
  moreover have "takeWhile is_digit (str_nat n @ r) = str_nat n \<and> dropWhile is_digit (str_nat n @ r) = r"
    by (rule takeWhile_digits) (use assms str_nat_digits in \<open>auto simp: json_stop_def\<close>)
  ultimately show ?thesis using d numeral_value_digits [of 10 n] by (simp add: json_int_part_def)
qed

lemma json_stop_no_fraction: "json_stop r \<Longrightarrow> json_frac r = None \<and> json_exp r = None"
  by (auto simp: json_stop_def json_frac_def json_exp_def split: list.split)

lemma str_nat_hd_digit: "is_digit (hd (str_nat n @ r))"
  using str_nat_digits [of n] by (cases "str_nat n") auto

lemma json_number_read:
  assumes "json_stop r"
  shows "json_number (str_int i @ r) = Some (PInt i, r)"
proof (cases "i < 0")
  case True
  with assms show ?thesis
    by (simp add: json_number_def str_int_def json_int_part_read json_stop_no_fraction)
next
  case False
  have "hd (str_nat (nat i) @ r) \<noteq> CHR ''-''" using str_nat_hd_digit [of "nat i" r] by (auto simp: is_digit_def)
  with assms False show ?thesis
    by (simp add: json_number_def str_int_def json_int_part_read json_stop_no_fraction Let_def)
qed

text \<open>The head of the text of an integer is a sign or a digit, so no other case of the parser applies.\<close>

lemma str_int_head: "\<exists>c cs. str_int i = c # cs \<and> (c = CHR ''-'' \<or> is_digit c)"
proof (cases "i < 0")
  case False
  obtain d ds where "str_nat (nat i) = d # ds" by (cases "str_nat (nat i)") auto
  then show ?thesis using str_nat_digits [of "nat i"] False by (auto simp: str_int_def)
qed (simp add: str_int_def)

lemma parse_int:
  assumes "json_stop r"
  shows "parse_value (Suc n) (str_int i @ r) = Some (PInt i, r)"
proof -
  obtain c cs where c: "str_int i = c # cs" "c = CHR ''-'' \<or> is_digit c" using str_int_head by blast
  then have "c \<noteq> CHR 0x22" "c \<noteq> CHR 0x7B" "c \<noteq> CHR ''[''" "c \<noteq> CHR ''n''" "c \<noteq> CHR ''t''" "c \<noteq> CHR ''f''"
    by (auto simp: is_digit_def)
  with c json_number_read [OF assms, of i] show ?thesis by (simp add: parse_value.simps startswith_def)
qed

text \<open>A value is read back from its text, whatever follows.\<close>

definition reads :: "pyval \<Rightarrow> string \<Rightarrow> bool" where
  "reads v s \<longleftrightarrow> s \<noteq> [] \<and> \<not> json_space (hd s) \<and> hd s \<noteq> CHR '']'' \<and>
     (\<forall>n r. length s \<le> n \<longrightarrow> json_stop r \<longrightarrow> parse_value n (s @ r) = Some (json_norm v, r))"

lemma reads_parse: "reads v s \<Longrightarrow> length s \<le> n \<Longrightarrow> json_stop r \<Longrightarrow> parse_value n (s @ r) = Some (json_norm v, r)"
  by (simp add: reads_def)

lemma skip_ws_head: "s \<noteq> [] \<Longrightarrow> \<not> json_space (hd s) \<Longrightarrow> skip_ws (s @ t) = s @ t"
  by (cases s) auto

lemma json_stop_simps [simp]: "json_stop []" "json_stop (CHR '','' # r)" "json_stop (CHR '']'' # r)" "json_stop (CHR 0x7D # r)"
  by (simp_all add: json_stop_def is_digit_def)

lemma json_space_simps [simp]:
  "\<not> json_space (CHR '','')" "\<not> json_space (CHR '']'')" "\<not> json_space (CHR 0x7D)" "\<not> json_space (CHR 0x22)" "\<not> json_space (CHR '':'')"
  "json_space (CHR '' '')"
  by (simp_all add: json_space_def)

lemma parse_elements_read:
  assumes "list_all2 reads xs ss" "xs \<noteq> []" "length (py_join '', '' ss) < n"
  shows "parse_elements n (py_join '', '' ss @ CHR '']'' # r) = Some (map json_norm xs, r)"
  using assms
proof (induction xs ss arbitrary: n rule: list_all2_induct)
  case (Cons x xs y ys)
  then obtain m where n: "n = Suc m" by (cases n) auto
  show ?case
  proof (cases ys)
    case Nil
    then have "xs = []" using Cons.hyps by simp
    with Nil Cons.prems n reads_parse [OF Cons.hyps(1), of m "CHR '']'' # r"] show ?thesis
      by (simp add: parse_elements.simps)
  next
    case (Cons z zs)
    note ys = this
    then obtain x' xs' where xs: "xs = x' # xs'" and z: "reads x' z" using Cons.hyps(2) by (auto simp: list_all2_Cons2)
    have hd: "py_join '', '' ys \<noteq> []" "\<not> json_space (hd (py_join '', '' ys))"
      using z ys by (cases zs; auto simp: reads_def hd_append)+
    have "parse_elements m (py_join '', '' ys @ CHR '']'' # r) = Some (map json_norm xs, r)"
      using Cons.IH [of m] Cons.prems n ys xs by simp
    moreover have "parse_value m (y @ '', '' @ py_join '', '' ys @ CHR '']'' # r) =
        Some (json_norm x, '', '' @ py_join '', '' ys @ CHR '']'' # r)"
      using reads_parse [OF Cons.hyps(1), of m "'', '' @ py_join '', '' ys @ CHR '']'' # r"] Cons.prems n ys by simp
    ultimately show ?thesis using n ys skip_ws_head [OF hd] by (simp add: parse_elements.simps)
  qed
qed simp

definition reads_member :: "string \<times> pyval \<Rightarrow> string \<Rightarrow> bool" where
  "reads_member p m \<longleftrightarrow> (\<exists>s. m = json_string (fst p) @ '': '' @ s \<and> reads (snd p) s)"

lemma parse_member:
  assumes "reads_member p m" "length m \<le> n" "json_stop r"
  shows "parse_members (Suc n) (m @ r) =
    (case skip_ws r of
       [] \<Rightarrow> None
     | e # r4 \<Rightarrow>
         if e = CHR 0x7D then Some ([(fst p, json_norm (snd p))], r4)
         else if e \<noteq> CHR '','' then None
         else map_option (\<lambda>(m, r5). ((fst p, json_norm (snd p)) # m, r5)) (parse_members n (skip_ws r4)))"
proof -
  obtain s where m: "m = json_string (fst p) @ '': '' @ s" and s: "reads (snd p) s"
    using assms(1) unfolding reads_member_def by blast
  have "parse_value n (s @ r) = Some (json_norm (snd p), r)"
    using s assms(2,3) m by (simp add: reads_def)
  moreover have "skip_ws (s @ r) = s @ r" using s by (intro skip_ws_head) (auto simp: reads_def)
  moreover have "json_str_body (concat (map json_char (fst p)) @ CHR 0x22 # CHR '':'' # CHR '' '' # s @ r) =
      Some (fst p, CHR '':'' # CHR '' '' # s @ r)" by (rule json_str_read)
  ultimately show ?thesis by (simp add: m json_string_def parse_members.simps)
qed

lemma parse_members_read:
  assumes "list_all2 reads_member ps ms" "ps \<noteq> []" "length (py_join '', '' ms) < n"
  shows "parse_members n (py_join '', '' ms @ CHR 0x7D # r) = Some (map (\<lambda>p. (fst p, json_norm (snd p))) ps, r)"
  using assms
proof (induction ps ms arbitrary: n rule: list_all2_induct)
  case (Cons x xs y ys)
  then obtain m where n: "n = Suc m" by (cases n) auto
  show ?case
  proof (cases ys)
    case Nil
    then have "xs = []" using Cons.hyps by simp
    with Nil Cons.prems n parse_member [OF Cons.hyps(1), of m "CHR 0x7D # r"] show ?thesis by simp
  next
    case (Cons z zs)
    note ys = this
    then obtain x' xs' where xs: "xs = x' # xs'" and z: "reads_member x' z" using Cons.hyps(2) by (auto simp: list_all2_Cons2)
    have hd: "py_join '', '' ys \<noteq> []" "\<not> json_space (hd (py_join '', '' ys))"
      using z ys by (cases zs; auto simp: reads_member_def json_string_def)+
    have "parse_members m (py_join '', '' ys @ CHR 0x7D # r) = Some (map (\<lambda>p. (fst p, json_norm (snd p))) xs, r)"
      using Cons.IH [of m] Cons.prems n ys xs by simp
    then show ?thesis
      using parse_member [OF Cons.hyps(1), of m "'', '' @ py_join '', '' ys @ CHR 0x7D # r"] Cons.prems n ys skip_ws_head [OF hd]
      by simp
  qed
qed simp

text \<open>Values without floats (whose text is not fixed), without other objects, and with distinct keys.\<close>

fun json_plain :: "pyval \<Rightarrow> bool" where
  "json_plain (PFloat r) = False"
| "json_plain (PObj s) = False"
| "json_plain (PList xs) = (\<forall>x\<in>set xs. json_plain x)"
| "json_plain (PTuple xs) = (\<forall>x\<in>set xs. json_plain x)"
| "json_plain (PDict d) = (dict_ok d \<and> (\<forall>p\<in>set d. json_plain (snd p)))"
| "json_plain _ = True"

lemma dict_update_append: "dict_ok (d @ e) \<Longrightarrow> dict_update d e = d @ e"
proof (induction e arbitrary: d)
  case (Cons p e)
  then have "dict_set (fst p) (snd p) d = d @ [p]" by (simp add: dict_set_append dict_has_def)
  with Cons.IH [of "d @ [p]"] Cons.prems show ?case by simp
qed simp

lemma all_ok_Inr: "all_ok xs = Inr ss \<longleftrightarrow> list_all2 (\<lambda>x s. x = Inr s) xs ss"
proof (induction xs arbitrary: ss)
  case (Cons x xs)
  have "all_ok (x # xs) = Inr ss \<longleftrightarrow> (\<exists>s ts. x = Inr s \<and> all_ok xs = Inr ts \<and> ss = s # ts)"
    by (cases x; cases "all_ok xs") (auto simp: all_ok_def)
  with Cons.IH show ?case by (auto simp: list_all2_Cons1)
qed (auto simp: all_ok_def)

lemma reads_list:
  assumes "list_all2 reads xs ss"
  shows "reads (PList xs) (''['' @ py_join '', '' ss @ '']'')" "reads (PTuple xs) (''['' @ py_join '', '' ss @ '']'')"
proof -
  have "parse_value n (''['' @ py_join '', '' ss @ '']'' @ r) = Some (PList (map json_norm xs), r)"
    if n: "length (''['' @ py_join '', '' ss @ '']'') \<le> n" for n r
  proof (cases xs)
    case Nil
    then show ?thesis using n assms by (cases n) (auto simp: parse_value.simps)
  next
    case (Cons x xs')
    then obtain z zs where z: "ss = z # zs" "reads x z" using assms by (auto simp: list_all2_Cons1)
    define t where "t = py_join '', '' ss"
    have hd: "t \<noteq> []" "\<not> json_space (hd t)" "hd t \<noteq> CHR '']''"
      unfolding t_def using z by (cases zs; auto simp: reads_def hd_append)+
    then obtain d ds where d: "t = d # ds" by (cases t) auto
    obtain m where m: "n = Suc m" using n by (cases n) auto
    have "parse_elements m (t @ CHR '']'' # r) = Some (map json_norm xs, r)"
      unfolding t_def by (rule parse_elements_read [OF assms]) (use Cons n m in auto)
    then show ?thesis using m hd d unfolding t_def [symmetric] by (simp add: parse_value.simps)
  qed
  then show "reads (PList xs) (''['' @ py_join '', '' ss @ '']'')" "reads (PTuple xs) (''['' @ py_join '', '' ss @ '']'')"
    unfolding reads_def by (simp_all add: json_space_def)
qed

lemma reads_dict:
  assumes "list_all2 reads_member d ms" "dict_ok d"
  shows "reads (PDict d) (CHR 0x7B # py_join '', '' ms @ [CHR 0x7D])"
proof -
  have ok: "dict_update [] (map (\<lambda>p. (fst p, json_norm (snd p))) d) = map (\<lambda>p. (fst p, json_norm (snd p))) d"
    using dict_update_append [of "[]" "map (\<lambda>p. (fst p, json_norm (snd p))) d"] assms(2) by (simp add: comp_def)
  have "parse_value n (CHR 0x7B # py_join '', '' ms @ CHR 0x7D # r) = Some (json_norm (PDict d), r)"
    if n: "length (CHR 0x7B # py_join '', '' ms @ [CHR 0x7D]) \<le> n" for n r
  proof (cases d)
    case Nil
    then show ?thesis using n assms by (cases n) (auto simp: parse_value.simps)
  next
    case (Cons x xs')
    then obtain z zs where z: "ms = z # zs" "reads_member x z" using assms by (auto simp: list_all2_Cons1)
    define t where "t = py_join '', '' ms"
    have hd: "t \<noteq> []" "hd t = CHR 0x22"
      unfolding t_def using z by (cases zs; auto simp: reads_member_def json_string_def)+
    then obtain ds where d: "t = CHR 0x22 # ds" by (cases t) auto
    obtain m where m: "n = Suc m" using n by (cases n) auto
    have "parse_members m (t @ CHR 0x7D # r) = Some (map (\<lambda>p. (fst p, json_norm (snd p))) d, r)"
      unfolding t_def by (rule parse_members_read [OF assms(1)]) (use Cons n m in auto)
    then show ?thesis using m d ok unfolding t_def [symmetric] by (simp add: parse_value.simps)
  qed
  then show ?thesis unfolding reads_def by (simp add: json_space_def)
qed

lemma readsI:
  assumes "s \<noteq> []" "\<not> json_space (hd s)" "hd s \<noteq> CHR '']''"
    "\<And>m r. json_stop r \<Longrightarrow> parse_value (Suc m) (s @ r) = Some (json_norm v, r)"
  shows "reads v s"
  unfolding reads_def
proof (intro conjI allI impI)
  fix n r
  assume "length s \<le> n" "json_stop r"
  with assms(1,4) show "parse_value n (s @ r) = Some (json_norm v, r)" by (cases n) auto
qed (use assms in auto)

lemma reads_const:
  "reads PNone ''null''" "reads (PBool True) ''true''" "reads (PBool False) ''false''" "reads (PStr s) (json_string s)"
  "reads (PInt i) (str_int i)"
proof -
  show "reads PNone ''null''" "reads (PBool True) ''true''" "reads (PBool False) ''false''"
    by (rule readsI; simp add: json_space_def parse_value.simps startswith_def)+
  show "reads (PStr s) (json_string s)"
    by (rule readsI) (simp_all add: json_space_def json_string_def parse_value.simps json_str_read)
  show "reads (PInt i) (str_int i)" using str_int_head [of i] parse_int
    by (intro readsI) (auto simp: json_space_def is_digit_def)
qed

lemma dumps_reads: "json_dumps fmt v = Inr s \<Longrightarrow> json_plain v \<Longrightarrow> reads v s"
proof (induction v arbitrary: s)
  case (PList xs)
  then obtain ss where ss: "all_ok (map (json_dumps fmt) xs) = Inr ss" "s = ''['' @ py_join '', '' ss @ '']''"
    by (auto split: sum.splits)
  then have "list_all2 (\<lambda>x s. json_dumps fmt x = Inr s) xs ss" by (simp add: all_ok_Inr list_all2_map1)
  then have "list_all2 reads xs ss"
    by (rule list.rel_mono_strong) (use PList in auto)
  with ss reads_list show ?case by simp
next
  case (PTuple xs)
  then obtain ss where ss: "all_ok (map (json_dumps fmt) xs) = Inr ss" "s = ''['' @ py_join '', '' ss @ '']''"
    by (auto split: sum.splits)
  then have "list_all2 (\<lambda>x s. json_dumps fmt x = Inr s) xs ss" by (simp add: all_ok_Inr list_all2_map1)
  then have "list_all2 reads xs ss"
    by (rule list.rel_mono_strong) (use PTuple in auto)
  with ss reads_list show ?case by simp
next
  case (PDict d)
  let ?f = "\<lambda>p. case json_dumps fmt (snd p) of Inl e \<Rightarrow> Inl e | Inr s \<Rightarrow> Inr (json_string (fst p) @ '': '' @ s)"
  obtain ms where ms: "all_ok (map ?f d) = Inr ms" "s = CHR 0x7B # py_join '', '' ms @ [CHR 0x7D]"
    using PDict.prems by (auto split: sum.splits)
  then have "list_all2 (\<lambda>p m. ?f p = Inr m) d ms" by (simp add: all_ok_Inr list_all2_map1)
  then have "list_all2 reads_member d ms"
  proof (rule list.rel_mono_strong)
    fix p m
    assume p: "p \<in> set d" "?f p = Inr m"
    then obtain t where "json_dumps fmt (snd p) = Inr t" "m = json_string (fst p) @ '': '' @ t" by (auto split: sum.splits)
    with PDict.IH [of p "snd p" t] PDict.prems p(1) show "reads_member p m" unfolding reads_member_def by (cases p) auto
  qed
  with ms reads_dict PDict.prems show ?case by simp
next
  case (PBool b)
  then show ?case using reads_const by (cases b) auto
qed (use reads_const in auto)

lemma json_parse_dumps:
  assumes "json_dumps fmt v = Inr s" "json_plain v" "list_all json_space w1" "list_all json_space w2"
  shows "json_parse (w1 @ s @ w2) = Some (json_norm v)"
proof -
  have r: "reads v s" by (rule dumps_reads [OF assms(1,2)])
  then have "skip_ws (w1 @ s @ w2) = s @ w2"
    using assms(3) skip_ws_head [of s w2] by (induction w1) (auto simp: reads_def)
  moreover have "json_stop w2" using assms(4) by (cases w2) (auto simp: json_stop_def json_space_def is_digit_def)
  then have "parse_value (2 * length (w1 @ s @ w2) + 2) (s @ w2) = Some (json_norm v, w2)"
    by (intro reads_parse [OF r]) auto
  moreover have "skip_ws w2 = []" using assms(4) by (simp add: list_all_iff dropWhile_eq_Nil_conv)
  ultimately show ?thesis by (simp add: json_parse_def)
qed

end
