(* ===== verification/Device_Simulators.thy ===== *)
theory Device_Simulators
  imports Mqtt_Transport Disc_Listeners Json_Text
begin

text \<open>
  Communication with devices over MQTT (\<^verbatim>\<open>src/liota/device_comms/mqtt_device_comms.py\<close>), the MQTT listener of device
  discovery that uses it, and the simulators of devices (\<^verbatim>\<open>src/liota/dev_sims\<close>), which send a message every five seconds
  until five are sent. A simulator that meets the listener of device discovery is at the end.
\<close>

section \<open>Device communication\<close>

definition MqttDeviceComms ::
  "ssl_env \<Rightarrow> identity option \<Rightarrow> tls_conf option \<Rightarrow> bool \<Rightarrow> qos_details option \<Rightarrow> mqtt_event list list \<Rightarrow> mqtt \<Rightarrow> (mqtt, unit) outcome" where
  "MqttDeviceComms env ident tls auth qos evs = Mqtt env ident tls auth qos evs"

definition device_comms_disconnect :: "mqtt_event list list \<Rightarrow> mqtt \<Rightarrow> (mqtt, unit) outcome" where
  "device_comms_disconnect = mqtt_disconnect"

definition device_comms_publish :: "topic \<Rightarrow> string \<Rightarrow> int \<Rightarrow> bool \<Rightarrow> mqtt \<Rightarrow> (mqtt, unit) outcome" where
  "device_comms_publish = mqtt_publish"

definition device_comms_subscribe :: "topic \<Rightarrow> int \<Rightarrow> nat \<Rightarrow> mqtt \<Rightarrow> mqtt" where
  "device_comms_subscribe = mqtt_subscribe"

definition device_comms_send :: "string \<Rightarrow> mqtt \<Rightarrow> (mqtt, unit) outcome" where
  "device_comms_send message = raise_e NotImplementedError"

definition device_comms_receive :: "mqtt \<Rightarrow> (mqtt, unit) outcome" where
  "device_comms_receive = raise_e NotImplementedError"

section \<open>MQTT settings of listener and simulator\<close>

text \<open>The values of the section \<^verbatim>\<open>DISC_MQTT_CFG\<close> are texts, as \<open>read_endpoints\<close> puts them there.\<close>

definition cfg_str :: "(string \<times> pyval) list \<Rightarrow> string \<Rightarrow> py_error + string" where
  "cfg_str cfg k = (case dict_get cfg k of None \<Rightarrow> Inl KeyError | Some (PStr v) \<Rightarrow> Inr v | Some _ \<Rightarrow> Inl TypeError)"

definition cfg_identity :: "(string \<times> pyval) list \<Rightarrow> py_error + identity" where
  "cfg_identity cfg =
     bind_r (cfg_str cfg ''broker_root_ca_cert'') (\<lambda>ca.
     bind_r (cfg_str cfg ''broker_username'') (\<lambda>u.
     bind_r (cfg_str cfg ''broker_password'') (\<lambda>p.
     bind_r (cfg_str cfg ''edge_system_cert_file'') (\<lambda>c.
     bind_r (cfg_str cfg ''edge_system_key_file'') (\<lambda>k.
       Inr \<lparr>root_ca_cert = Some ca, username = Some u, password = Some p, cert_file = Some c, key_file = Some k\<rparr>)))))"

definition cfg_tls :: "(string \<times> pyval) list \<Rightarrow> py_error + tls_conf option" where
  "cfg_tls cfg =
     bind_r (cfg_str cfg ''cert_required'') (\<lambda>r.
       if r = ''None'' \<or> r = ''CERT_NONE'' then Inr None
       else bind_r (cfg_str cfg ''tls_version'') (\<lambda>v. bind_r (cfg_str cfg ''cipher'') (\<lambda>c.
              Inr (Some \<lparr>cert_required = Some r, tls_version = Some v, cipher = Some c\<rparr>))))"

definition cfg_qos :: "(string \<times> pyval) list \<Rightarrow> py_error + qos_details" where
  "cfg_qos cfg =
     bind_r (cfg_str cfg ''in_flight'') (\<lambda>f.
     bind_r (bind_r (cfg_str cfg ''queue_size'') py_int) (\<lambda>q.
     bind_r (cfg_str cfg ''retry'') (\<lambda>r. Inr \<lparr>in_flight = PStr f, queue_size = PInt q, retry = PStr r\<rparr>)))"

text \<open>\<open>auth\<close> is whether the argument \<^verbatim>\<open>enable_authentication\<close> is true as a condition.\<close>

definition cfg_connect ::
  "ssl_env \<Rightarrow> py_error + bool \<Rightarrow> mqtt_event list list \<Rightarrow> (string \<times> pyval) list \<Rightarrow> mqtt \<Rightarrow> (mqtt, unit) outcome" where
  "cfg_connect env auth evs cfg =
     bind_e (lift_e (cfg_identity cfg)) (\<lambda>ident.
     bind_e (lift_e (cfg_tls cfg)) (\<lambda>tls.
     bind_e (lift_e (cfg_qos cfg)) (\<lambda>qos.
     bind_e (lift_e (bind_r (cfg_str cfg ''keep_alive'') py_int)) (\<lambda>_.
     bind_e (lift_e auth) (\<lambda>a.
       MqttDeviceComms env (Some ident) tls a (Some qos) evs)))))"

text \<open>\<^verbatim>\<open>MqttListener.run\<close> of an endpoint that was initialised: \<open>edge_system\<close> is whether the registry knows the edge system.
  The text of the setting \<^verbatim>\<open>enable_authentication\<close> is used as a condition, which every text but the empty one fulfils.
  \<open>Inr False\<close> stands for the early return.\<close>

definition MqttListener_run ::
  "ssl_env \<Rightarrow> mqtt_event list list \<Rightarrow> bool \<Rightarrow> mqtt_endpoint \<Rightarrow> (string \<times> pyval) list \<Rightarrow> mqtt \<Rightarrow> (mqtt, bool) outcome" where
  "MqttListener_run env evs edge_system ep cfg =
     (if \<not> edge_system then return_e False
      else then_e (cfg_connect env (bind_r (cfg_str cfg ''enable_authentication'') (\<lambda>v. Inr (v \<noteq> []))) evs cfg)
        (case topic ep of
           None \<Rightarrow> raise_e AttributeError
         | Some t \<Rightarrow> then_e (modify_e (device_comms_subscribe (Some t) 2 0)) (return_e True)))"

section \<open>Messages\<close>

text \<open>The dictionary that a simulator sends, with the counter as the unique value.\<close>

definition beacon_props :: "string \<Rightarrow> nat \<Rightarrow> (string \<times> pyval) list" where
  "beacon_props key cnt = [(''k1'', PStr ''v1''), (key, PStr (str_nat cnt)), (''kn'', PStr ''vn'')]"

definition beacon :: "string \<Rightarrow> string \<Rightarrow> nat \<Rightarrow> pyval" where
  "beacon ty key cnt = PDict [(ty, PDict (beacon_props key cnt))]"

text \<open>\<^verbatim>\<open>json.dumps(msg)\<close>; \<open>beacon_text_dumps\<close> below shows that it does not raise.\<close>

definition beacon_text :: "string \<Rightarrow> string \<Rightarrow> nat \<Rightarrow> string" where
  "beacon_text ty key cnt = (case json_dumps (\<lambda>_. []) (beacon ty key cnt) of Inl _ \<Rightarrow> [] | Inr s \<Rightarrow> s)"

text \<open>The loops \<^verbatim>\<open>while self.flag_alive\<close>: a number of rounds, each with its test.\<close>

primrec sim_loop :: "('s \<Rightarrow> bool) \<Rightarrow> ('s \<Rightarrow> ('s, unit) outcome) \<Rightarrow> nat \<Rightarrow> 's \<Rightarrow> ('s, unit) outcome" where
  "sim_loop running body 0 = return_e ()"
| "sim_loop running body (Suc n) = (\<lambda>s. if \<not> running s then (Inr (), s) else then_e body (sim_loop running body n) s)"

section \<open>Named pipe\<close>

text \<open>\<open>ps_flag\<close> is the attribute \<^verbatim>\<open>flag\<close>, which the loop sets after twenty rounds and nothing reads.\<close>

record pipe_sim =
  ps_cnt :: nat
  ps_alive :: bool
  ps_flag :: "bool option"
  ps_written :: "string list"                          \<comment> \<open>a text for every opening of the pipe\<close>
  ps_write :: "string \<Rightarrow> py_error + unit"

definition NamedPipeSimulator :: "string \<Rightarrow> 'a os_scheme \<times> pipe_sim \<Rightarrow> ('a os_scheme \<times> pipe_sim, bool) outcome" where
  "NamedPipeSimulator pipe_file s =
     (case validate_named_pipe (PStr pipe_file) (fst s) of
        (Inl e, h) \<Rightarrow> (Inl e, (h, snd s))
      | (Inr False, h) \<Rightarrow> (Inr False, (h, snd s))
      | (Inr True, h) \<Rightarrow> (Inr True, (h, (snd s)\<lparr>ps_cnt := 0, ps_alive := True, ps_flag := None\<rparr>)))"

definition pipe_sim_round :: "pipe_sim \<Rightarrow> (pipe_sim, unit) outcome" where
  "pipe_sim_round =
     then_e (\<lambda>s. if 5 \<le> ps_cnt s then (Inr (), s)
                 else let t = beacon_text ''Press64'' ''serial'' (ps_cnt s) @ [LF] @ ''END'' @ [LF] in
                      case ps_write s t of
                        Inl e \<Rightarrow> (Inl e, s)
                      | Inr _ \<Rightarrow> (Inr (), s\<lparr>ps_written := ps_written s @ [t]\<rparr>))
     (then_e (modify_e (\<lambda>s. s\<lparr>ps_cnt := ps_cnt s + 1\<rparr>))
       (modify_e (\<lambda>s. if 20 < ps_cnt s then s\<lparr>ps_flag := Some False\<rparr> else s)))"

text \<open>\<^verbatim>\<open>run\<close>, observed after at most \<open>n\<close> rounds; only a thread that cleans up ends the loop.\<close>

definition pipe_sim_run :: "nat \<Rightarrow> pipe_sim \<Rightarrow> (pipe_sim, unit) outcome" where
  "pipe_sim_run = sim_loop ps_alive pipe_sim_round"

definition pipe_sim_clean_up :: "pipe_sim \<Rightarrow> pipe_sim" where
  "pipe_sim_clean_up s = s\<lparr>ps_alive := False\<rparr>"

section \<open>MQTT\<close>

record mqtt_sim =
  ms_topic :: topic
  ms_conn :: mqtt
  ms_cnt :: nat
  ms_alive :: bool
  ms_flag :: "bool option"

text \<open>\<^verbatim>\<open>MqttSimulator.__init__\<close>: address as in the listener; never with authentication.\<close>

definition MqttSimulator ::
  "ssl_env \<Rightarrow> mqtt_event list list \<Rightarrow> (string \<times> pyval) list \<Rightarrow> mqtt \<Rightarrow> py_error + mqtt_sim" where
  "MqttSimulator env evs cfg conn =
     bind_r (MqttListener_init cfg) (\<lambda>ep.
       case cfg_connect env (Inr False) evs cfg conn of
         (Inl e, _) \<Rightarrow> Inl e
       | (Inr _, c) \<Rightarrow> Inr \<lparr>ms_topic = topic ep, ms_conn = c, ms_cnt = 0, ms_alive = True, ms_flag = None\<rparr>)"

definition mqtt_sim_round :: "mqtt_sim \<Rightarrow> (mqtt_sim, unit) outcome" where
  "mqtt_sim_round =
     then_e (\<lambda>s. if 5 \<le> ms_cnt s then (Inr (), s)
                 else case ms_topic s of
                        None \<Rightarrow> (Inl AttributeError, s)
                      | Some t \<Rightarrow>
                          (case device_comms_publish (Some t) (beacon_text ''Apple56'' ''SN'' (ms_cnt s)) 2 False (ms_conn s) of
                             (r, c) \<Rightarrow> (r, s\<lparr>ms_conn := c\<rparr>)))
     (then_e (modify_e (\<lambda>s. s\<lparr>ms_cnt := ms_cnt s + 1\<rparr>))
       (modify_e (\<lambda>s. if 20 < ms_cnt s then s\<lparr>ms_flag := Some False\<rparr> else s)))"

definition mqtt_sim_run :: "nat \<Rightarrow> mqtt_event list list \<Rightarrow> mqtt_sim \<Rightarrow> (mqtt_sim, unit) outcome" where
  "mqtt_sim_run n evs =
     then_e (sim_loop ms_alive mqtt_sim_round n)
       (\<lambda>s. if ms_alive s then (Inr (), s)
            else case device_comms_disconnect evs (ms_conn s) of (r, c) \<Rightarrow> (r, s\<lparr>ms_conn := c\<rparr>))"

definition mqtt_sim_clean_up :: "mqtt_event list list \<Rightarrow> mqtt_sim \<Rightarrow> (mqtt_sim, unit) outcome" where
  "mqtt_sim_clean_up evs s =
     (case device_comms_disconnect evs (ms_conn s) of (r, c) \<Rightarrow> (r, s\<lparr>ms_alive := False, ms_conn := c\<rparr>))"

section \<open>Socket\<close>

text \<open>\<open>ss_connect\<close> and \<open>ss_send\<close> answer the calls on the socket. An address without port: nothing is started.\<close>

record socket_sim =
  ss_cnt :: nat
  ss_alive :: bool
  ss_flag :: "bool option"
  ss_sock :: bool                                       \<comment> \<open>there is a socket\<close>
  ss_sent :: "string list"
  ss_connect :: "string \<Rightarrow> int \<Rightarrow> py_error + unit"
  ss_send :: "string \<Rightarrow> py_error + unit"

definition SocketSimulator :: "string \<Rightarrow> socket_sim \<Rightarrow> (socket_sim, unit) outcome" where
  "SocketSimulator ip_port s =
     (let l = py_split (CHR '':'') ip_port in
      if length l < 2 then (Inl IndexError, s)
      else if l ! 1 = [] then (Inr (), s)
      else case py_int (l ! 1) of
             Inl e \<Rightarrow> (Inl e, s)
           | Inr port \<Rightarrow>
               (case ss_connect s (l ! 0) port of
                  Inl e \<Rightarrow> (Inl e, s\<lparr>ss_sock := False\<rparr>)
                | Inr _ \<Rightarrow> (Inr (), s\<lparr>ss_sock := True, ss_cnt := 0, ss_alive := True, ss_flag := None\<rparr>)))"

definition socket_sim_round :: "socket_sim \<Rightarrow> (socket_sim, unit) outcome" where
  "socket_sim_round =
     then_e (\<lambda>s. if 5 \<le> ss_cnt s then (Inr (), s)
                 else let t = beacon_text ''LM35'' ''SN'' (ss_cnt s) in
                      case ss_send s t of
                        Inl e \<Rightarrow> (Inl e, s)
                      | Inr _ \<Rightarrow> (Inr (), s\<lparr>ss_sent := ss_sent s @ [t]\<rparr>))
     (then_e (modify_e (\<lambda>s. s\<lparr>ss_cnt := ss_cnt s + 1\<rparr>))
       (modify_e (\<lambda>s. if 20 < ss_cnt s then s\<lparr>ss_flag := Some False\<rparr> else s)))"

definition socket_sim_run :: "nat \<Rightarrow> socket_sim \<Rightarrow> (socket_sim, unit) outcome" where
  "socket_sim_run n =
     then_e (sim_loop ss_alive socket_sim_round n)
       (\<lambda>s. if ss_alive s \<or> ss_sock s then (Inr (), s) else (Inl AttributeError, s))"

definition socket_sim_clean_up :: "socket_sim \<Rightarrow> (socket_sim, unit) outcome" where
  "socket_sim_clean_up s =
     (let t = s\<lparr>ss_alive := False\<rparr> in if ss_sock s then (Inr (), t) else (Inl AttributeError, t))"

section \<open>CoAP\<close>

text \<open>The agent's loop tests the attribute \<^verbatim>\<open>flag\<close> and therefore ends.\<close>

record coap_agent =
  ca_cnt :: nat
  ca_flag :: bool
  ca_put :: "string list"
  ca_answer :: "string \<Rightarrow> py_error + unit"

definition coap_sim_endpoint :: "string \<Rightarrow> py_error + string \<times> int" where
  "coap_sim_endpoint ip_port =
     (let l = py_split (CHR '':'') ip_port in
      if length l < 2 then Inl IndexError
      else if l ! 1 = [] then Inr (l ! 0, 5683) else bind_r (py_int (l ! 1)) (\<lambda>port. Inr (l ! 0, port)))"

definition putResource_round :: "coap_agent \<Rightarrow> (coap_agent, unit) outcome" where
  "putResource_round =
     then_e (\<lambda>s. if 5 \<le> ca_cnt s then (Inr (), s)
                 else let t = beacon_text ''Banana23'' ''serial'' (ca_cnt s) in
                      case ca_answer s t of
                        Inl e \<Rightarrow> (Inl e, s)
                      | Inr _ \<Rightarrow> (Inr (), s\<lparr>ca_put := ca_put s @ [t]\<rparr>))
     (then_e (modify_e (\<lambda>s. s\<lparr>ca_cnt := ca_cnt s + 1\<rparr>))
       (modify_e (\<lambda>s. if 20 < ca_cnt s then s\<lparr>ca_flag := False\<rparr> else s)))"

definition putResource :: "nat \<Rightarrow> coap_agent \<Rightarrow> (coap_agent, unit) outcome" where
  "putResource = sim_loop ca_flag putResource_round"

definition Agent_init :: "coap_agent \<Rightarrow> coap_agent" where
  "Agent_init a = a\<lparr>ca_cnt := 0, ca_flag := True\<rparr>"

record coap_sim =
  cs_alive :: bool
  cs_agent :: coap_agent
  cs_stopped :: bool                                    \<comment> \<open>\<^verbatim>\<open>client.stop()\<close> was called\<close>

definition CoapSimulator :: "string \<Rightarrow> coap_sim \<Rightarrow> (coap_sim, unit) outcome" where
  "CoapSimulator ip_port s =
     (case coap_sim_endpoint ip_port of
        Inl e \<Rightarrow> (Inl e, s)
      | Inr _ \<Rightarrow> (Inr (), s\<lparr>cs_agent := Agent_init (cs_agent s), cs_alive := True, cs_stopped := False\<rparr>))"

text \<open>After \<^verbatim>\<open>putResource\<close> the thread only waits for its clean-up.\<close>

definition coap_sim_run :: "nat \<Rightarrow> coap_sim \<Rightarrow> (coap_sim, unit) outcome" where
  "coap_sim_run n s =
     (if cs_alive s then case putResource n (cs_agent s) of (r, a) \<Rightarrow> (r, s\<lparr>cs_agent := a\<rparr>) else (Inr (), s))"

definition coap_sim_clean_up :: "coap_sim \<Rightarrow> coap_sim" where
  "coap_sim_clean_up s = s\<lparr>cs_alive := False, cs_stopped := True\<rparr>"

end
