(* ===== verification/Simulator_Properties.thy ===== *)
theory Simulator_Properties
  imports Device_Simulators
begin

text \<open>
  What the simulators send, and what becomes of it in device discovery: the interface \<open>beacon_loop\<close> has the lemma on the
  loops, which all four simulators share; the messages of the simulator on the named pipe, read by the listener on the
  same pipe, register their devices.
\<close>

section \<open>Loops that send five messages\<close>

locale beacon_loop =
  fixes running :: "'s \<Rightarrow> bool" and body :: "'s \<Rightarrow> ('s, unit) outcome" and cnt :: "'s \<Rightarrow> nat"
    and sent :: "'s \<Rightarrow> string list" and msg :: "nat \<Rightarrow> string" and good :: "'s \<Rightarrow> bool" and more :: "nat \<Rightarrow> bool"
  assumes test: "good s \<Longrightarrow> running s \<longleftrightarrow> more (cnt s)"
    and step: "good s \<Longrightarrow> running s \<Longrightarrow> \<exists>t. body s = (Inr (), t) \<and> good t \<and> cnt t = Suc (cnt s) \<and>
      sent t = sent s @ (if cnt s < 5 then [msg (cnt s)] else [])"
begin

lemma rounds:
  assumes "good s" "\<forall>i<n. more (cnt s + i)"
  shows "\<exists>t. sim_loop running body n s = (Inr (), t) \<and> good t \<and> cnt t = cnt s + n \<and>
    sent t = sent s @ map msg [cnt s..<min 5 (cnt s + n)]"
  using assms
proof (induction n arbitrary: s)
  case (Suc n)
  then have "running s" using test [of s] by force
  then obtain t where t: "body s = (Inr (), t)" "good t" "cnt t = Suc (cnt s)"
    "sent t = sent s @ (if cnt s < 5 then [msg (cnt s)] else [])"
    using step Suc.prems by blast
  have "\<forall>i<n. more (cnt t + i)" using Suc.prems t(3) by force
  then obtain u where "sim_loop running body n t = (Inr (), u)" "good u" "cnt u = cnt s + Suc n"
    "sent u = sent t @ map msg [Suc (cnt s)..<min 5 (cnt s + Suc n)]"
    using Suc.IH [OF t(2)] t(3) by auto
  moreover have "[cnt s..<min 5 (cnt s + Suc n)] = (if cnt s < 5 then [cnt s] else []) @ [Suc (cnt s)..<min 5 (cnt s + Suc n)]"
    by (auto simp: upt_conv_Cons)
  ultimately show ?case using t \<open>running s\<close> by (auto simp: then_e_def bind_e_def)
qed (simp add: return_e_def)

lemma ends:
  assumes "good s" "\<forall>i<m. more (cnt s + i)" "\<not> more (cnt s + m)"
  shows "sim_loop running body (m + k) s = sim_loop running body m s"
  using assms
proof (induction m arbitrary: s)
  case 0
  then have "\<not> running s" using test by simp
  then show ?case by (cases k) (simp_all add: return_e_def)
next
  case (Suc m)
  then have r: "running s" using test [of s] by force
  then obtain t where t: "body s = (Inr (), t)" "good t" "cnt t = Suc (cnt s)" using step Suc.prems by blast
  have "sim_loop running body (m + k) t = sim_loop running body m t"
    using Suc.IH [OF t(2)] Suc.prems(2,3) t(3) by force
  with r t(1) show ?case by (simp add: then_e_def bind_e_def)
qed

end

definition pipe_message :: "nat \<Rightarrow> string" where
  "pipe_message i = beacon_text ''Press64'' ''serial'' i @ [LF] @ ''END'' @ [LF]"

interpretation pipe_loop: beacon_loop ps_alive pipe_sim_round ps_cnt ps_written pipe_message
  "\<lambda>s. ps_alive s \<and> (\<forall>t. ps_write s t = Inr ())" "\<lambda>_. True"
  by unfold_locales (auto simp: pipe_sim_round_def outcome_simps Let_def pipe_message_def)

interpretation socket_loop: beacon_loop ss_alive socket_sim_round ss_cnt ss_sent "beacon_text ''LM35'' ''SN''"
  "\<lambda>s. ss_alive s \<and> (\<forall>t. ss_send s t = Inr ())" "\<lambda>_. True"
  by unfold_locales (auto simp: socket_sim_round_def outcome_simps Let_def)

interpretation coap_loop: beacon_loop ca_flag putResource_round ca_cnt ca_put "beacon_text ''Banana23'' ''serial''"
  "\<lambda>s. (ca_flag s \<longleftrightarrow> ca_cnt s \<le> 20) \<and> (\<forall>t. ca_answer s t = Inr ())" "\<lambda>c. c \<le> 20"
  by unfold_locales (auto simp: putResource_round_def outcome_simps Let_def)

definition published :: "paho_call list \<Rightarrow> string list" where
  "published calls = concat (map (\<lambda>c. case c of Paho_publish t m q r \<Rightarrow> [m] | _ \<Rightarrow> []) calls)"

interpretation mqtt_loop: beacon_loop ms_alive mqtt_sim_round ms_cnt "\<lambda>s. published (paho_log (ms_conn s))"
  "beacon_text ''Apple56'' ''SN''"
  "\<lambda>s. ms_alive s \<and> ms_topic s \<noteq> None \<and> (\<forall>h t m q r. paho_answer (ms_conn s) h (Paho_publish t m q r) = Inr 0)" "\<lambda>_. True"
  by unfold_locales (auto simp: mqtt_sim_round_def outcome_simps published_def device_comms_publish_def mqtt_publish_def paho_do_def)

text \<open>The agent for CoAP ends after twenty-one rounds; the other loops only with \<^verbatim>\<open>clean_up\<close>.\<close>

lemma putResource_ends:
  assumes "ca_flag s" "ca_cnt s = 0" "\<forall>t. ca_answer s t = Inr ()" "21 \<le> n"
  shows "\<exists>t. putResource n s = (Inr (), t) \<and> \<not> ca_flag t \<and> ca_put t = ca_put s @ map (beacon_text ''Banana23'' ''serial'') [0..<5]"
proof -
  have g: "(ca_flag s \<longleftrightarrow> ca_cnt s \<le> 20) \<and> (\<forall>t. ca_answer s t = Inr ())" using assms by simp
  have "sim_loop ca_flag putResource_round (21 + (n - 21)) s = sim_loop ca_flag putResource_round 21 s"
    by (rule coap_loop.ends [OF g]) (use assms(2) in auto)
  moreover obtain t where "sim_loop ca_flag putResource_round 21 s = (Inr (), t)" "ca_flag t \<longleftrightarrow> ca_cnt t \<le> 20" "ca_cnt t = 21"
    "ca_put t = ca_put s @ map (beacon_text ''Banana23'' ''serial'') [0..<5]"
    using coap_loop.rounds [OF g, of 21] assms(2) by auto
  ultimately show ?thesis using assms(4) by (simp add: putResource_def)
qed

section \<open>Messages are read back\<close>

lemma json_char_no_LF: "LF \<notin> set (json_char c)"
proof (cases "of_char c < (32::nat)")
  case True
  have "list_all (\<lambda>c. LF \<notin> set (json_char c)) (map char_of [0..<32::nat])" by code_simp
  then show ?thesis using char_less_32 [OF True] unfolding list_all_iff by blast
qed (auto simp: json_char_def)

lemma json_string_no_LF: "LF \<notin> set (json_string s)"
  by (auto simp: json_string_def json_char_no_LF)

lemma beacon_text_dumps: "json_dumps fmt (beacon ty key i) = Inr (beacon_text ty key i)" "LF \<notin> set (beacon_text ty key i)"
  using json_string_no_LF by (auto simp: beacon_text_def beacon_def beacon_props_def all_ok_def)

lemma beacon_text_parse:
  assumes "key \<noteq> ''k1''" "key \<noteq> ''kn''" "list_all json_space w"
  shows "json_parse (beacon_text ty key i @ w) = Some (beacon ty key i)"
proof -
  have "json_plain (beacon ty key i)" using assms(1,2) by (simp add: beacon_def beacon_props_def)
  from json_parse_dumps [OF beacon_text_dumps(1) this, of "[]" w] assms(3) show ?thesis
    by (simp add: beacon_def beacon_props_def)
qed

lemma pipe_message_lines: "pipe_lines json_parse (readlines (pipe_message i)) [] = [beacon ''Press64'' ''serial'' i]"
proof -
  have "pipe_message i = pipe_text [[beacon_text ''Press64'' ''serial'' i]]" by (simp add: pipe_message_def pipe_text_def end_line_def)
  moreover have "beacon_text ''Press64'' ''serial'' i \<noteq> ''END''"
    by (simp add: beacon_text_def beacon_def all_ok_def beacon_props_def)
  ultimately show ?thesis using beacon_text_dumps(2) [of "''Press64''" "''serial''" i]
      pipe_messages [of "[[beacon_text ''Press64'' ''serial'' i]]" json_parse] beacon_text_parse [of "''serial''" "[LF]"]
    by (simp add: json_space_def)
qed

section \<open>Simulated devices are discovered\<close>

text \<open>A message about one device leaves the entries of other devices, the settings and the environment as they are.\<close>

definition only_device :: "string \<Rightarrow> disc \<Rightarrow> disc \<Rightarrow> bool" where
  "only_device name s t \<longleftrightarrow>
     (\<forall>n. n \<noteq> name \<longrightarrow> dict_get (d_devices t) n = dict_get (d_devices s) n) \<and>
     (system_uuid (d_uuid s) \<noteq> [] \<longrightarrow> d_uuid t = d_uuid s) \<and> d_answer t = d_answer s \<and> d_config t = d_config s \<and>
     d_files t = d_files s \<and> d_resources t = d_resources s"

lemma only_device_refl [simp]: "only_device name s s"
  by (simp add: only_device_def)

lemma only_device_trans: "only_device name a b \<Longrightarrow> only_device name b c \<Longrightarrow> only_device name a c"
  by (auto simp: only_device_def)

lemma only_device_bind:
  "preserves (only_device name) m \<Longrightarrow> (\<And>x. preserves (only_device name) (f x)) \<Longrightarrow> preserves (only_device name) (bind_e m f)"
  by (rule preserves_bind) (auto intro: only_device_trans)

lemma reg_device_only: "preserves (only_device name) (reg_device pkg edge n ty ps)"
  unfolding preserves_def
proof
  fix s :: disc
  obtain uid ue where u: "get_uuid n (d_uuid s) = (uid, ue)" by (metis prod.collapse)
  then have "system_uuid (d_uuid s) \<noteq> [] \<longrightarrow> ue = d_uuid s" by (auto simp: get_uuid_def get_system_uuid_def Let_def)
  then have "only_device name s (s\<lparr>d_uuid := ue, d_calls := cs\<rparr>)" for cs by (simp add: only_device_def)
  then show "only_device name s (snd (reg_device pkg edge n ty ps s))"
    by (simp add: reg_device_def u dcc_do_def outcome_simps Let_def split: sum.split)
qed

lemma update_devinfo_only: "preserves (only_device name) (update_devinfo name r)"
  by (auto simp: preserves_def update_devinfo_def only_device_def split: option.splits)

lemma reg_with_dccs_only: "preserves (only_device name) (reg_with_dccs name ty props dccs)"
proof (induction dccs)
  case (Cons pkg dccs)
  have "preserves (only_device name) (\<lambda>s. bind_e (lift_e (r s)) (\<lambda>ps. bind_e (reg_device pkg (pkg @ ''_edge_system'') name ty ps) (\<lambda>dev.
      then_e (case dev of None \<Rightarrow> return_e () | Some d \<Rightarrow> update_devinfo name (pkg, d)) (reg_with_dccs name ty props dccs))) s)"
    for r :: "disc \<Rightarrow> py_error + (string \<times> pyval) list"
  proof -
    have "preserves (only_device name) (bind_e (reg_device pkg (pkg @ ''_edge_system'') name ty ps) (\<lambda>dev.
        then_e (case dev of None \<Rightarrow> return_e () | Some d \<Rightarrow> update_devinfo name (pkg, d)) (reg_with_dccs name ty props dccs)))" for ps
      unfolding then_e_def
      by (intro only_device_bind reg_device_only Cons) (auto simp: update_devinfo_only preserves_pure split: option.splits)
    then show ?thesis unfolding preserves_def bind_e_def lift_e_def by (auto split: sum.splits)
  qed
  from this [of "\<lambda>s. if sublist ''iotcc'' (lower pkg) then add_organization_properties ''iotcc'' props s else Inr props"]
  show ?case unfolding preserves_def by (simp only: reg_with_dccs.simps simp_thms)
qed (simp add: preserves_def)

lemma device_msg_only:
  assumes "class_match type_char ty" "dict_get (c_type_dcc_map (d_config s)) ty = Some dccs" "dccs \<noteq> []"
    "dict_get (c_type_key_map (d_config s)) ty = Some uk" "check_properties uk props [] = Inr (Some uv)"
  shows "only_device (ty @ ''_'' @ uv) s (device_msg_process (PDict [(ty, PDict props)]) s)"
proof -
  let ?n = "ty @ ''_'' @ uv"
  have "only_device ?n s (save_devinfo ?n ty s)" by (simp add: only_device_def save_devinfo_def)
  moreover have "only_device ?n (save_devinfo ?n ty s) (snd (reg_with_dccs ?n ty props dccs (save_devinfo ?n ty s)))"
    using reg_with_dccs_only by (simp add: preserves_def)
  ultimately have "only_device ?n s (snd (reg_with_dccs ?n ty props dccs (save_devinfo ?n ty s)))" by (rule only_device_trans)
  then show ?thesis using assms by (auto simp: device_msg_process_def outcome_simps Let_def split: prod.splits sum.splits)
qed

definition sim_device :: "disc \<Rightarrow> nat \<Rightarrow> device" where
  "sim_device s i = \<lparr>dev_name = ''Press64_'' @ str_nat i,
     dev_id = uuid5 (d_uuid s) (system_uuid (d_uuid s)) (''Press64_'' @ str_nat i), dev_type = ''Press64''\<rparr>"

text \<open>What discovery needs for the type \<^verbatim>\<open>Press64\<close>.\<close>

definition knows_press :: "string list \<Rightarrow> disc \<Rightarrow> bool" where
  "knows_press dccs s \<longleftrightarrow>
     dict_get (c_type_dcc_map (d_config s)) ''Press64'' = Some dccs \<and> dccs \<noteq> [] \<and>
     dict_get (c_type_key_map (d_config s)) ''Press64'' = Some ''serial'' \<and> all_answer s \<and> set dccs \<subseteq> set (d_resources s) \<and>
     system_uuid (d_uuid s) \<noteq> [] \<and> (\<forall>props. \<exists>org. add_organization_properties ''iotcc'' props s = Inr org)"

lemma digit_alnum: "is_digit c \<Longrightarrow> is_alnum c"
  by (auto simp: is_digit_def is_alnum_def)

lemma beacon_properties: "check_properties ''serial'' (beacon_props ''serial'' i) [] = Inr (Some (str_nat i))"
proof -
  have "list_all val_char (str_nat i)" using str_nat_digits [of i] digit_alnum by (auto simp: list_all_iff val_char_def)
  then have "class_match val_char (str_nat i)" by (simp add: class_match_def)
  moreover have "class_match type_char ''serial''" "class_match type_char ''k1''" "class_match type_char ''kn''"
    "class_match val_char ''v1''" "class_match val_char ''vn''" by code_simp+
  ultimately show ?thesis by (simp add: beacon_props_def)
qed

lemma beacon_registers:
  assumes "knows_press dccs s" and t_def: "t = device_msg_process (beacon ''Press64'' ''serial'' i) s"
  shows "dict_get (d_devices t) (''Press64_'' @ str_nat i) = Some (''Press64'', map (\<lambda>p. (p, sim_device s i)) dccs)"
    "only_device (''Press64_'' @ str_nat i) s t" "knows_press dccs t"
proof -
  have c: "class_match type_char ''Press64''" by code_simp
  obtain org where org: "add_organization_properties ''iotcc'' (beacon_props ''serial'' i) s = Inr org"
    using assms(1) unfolding knows_press_def by blast
  show "dict_get (d_devices t) (''Press64_'' @ str_nat i) = Some (''Press64'', map (\<lambda>p. (p, sim_device s i)) dccs)"
    using device_registered_everywhere(2) [OF c _ _ _ beacon_properties _ _ _ org, of dccs "sim_device s i"] assms(1)
    by (simp add: t_def beacon_def knows_press_def sim_device_def)
  show o: "only_device (''Press64_'' @ str_nat i) s t"
    using device_msg_only [OF c _ _ _ beacon_properties, of s dccs] assms(1) by (simp add: t_def beacon_def knows_press_def)
  then show "knows_press dccs t" using assms(1) add_organization_cong [of t s]
    by (simp add: knows_press_def only_device_def all_answer_def)
qed

lemma beacons_register:
  assumes "knows_press dccs s"
  shows "knows_press dccs (foldl (\<lambda>s p. device_msg_process p s) s (map (beacon ''Press64'' ''serial'') is)) \<and>
    d_uuid (foldl (\<lambda>s p. device_msg_process p s) s (map (beacon ''Press64'' ''serial'') is)) = d_uuid s \<and>
    (\<forall>i\<in>set is. dict_get (d_devices (foldl (\<lambda>s p. device_msg_process p s) s (map (beacon ''Press64'' ''serial'') is)))
       (''Press64_'' @ str_nat i) = Some (''Press64'', map (\<lambda>p. (p, sim_device s i)) dccs))"
  using assms
proof (induction "is" rule: rev_induct)
  case (snoc j js)
  let ?s = "foldl (\<lambda>s p. device_msg_process p s) s (map (beacon ''Press64'' ''serial'') js)"
  let ?t = "device_msg_process (beacon ''Press64'' ''serial'' j) ?s"
  have k: "knows_press dccs ?s" "d_uuid ?s = d_uuid s" and d: "\<forall>i\<in>set js. dict_get (d_devices ?s) (''Press64_'' @ str_nat i) =
      Some (''Press64'', map (\<lambda>p. (p, sim_device s i)) dccs)" using snoc by auto
  have u: "sim_device ?s = sim_device s" using k(2) by (simp add: sim_device_def fun_eq_iff)
  have "system_uuid (d_uuid ?s) \<noteq> []" using k(1) by (simp add: knows_press_def)
  then have t: "knows_press dccs ?t" "d_uuid ?t = d_uuid s"
    "dict_get (d_devices ?t) (''Press64_'' @ str_nat j) = Some (''Press64'', map (\<lambda>p. (p, sim_device s j)) dccs)"
    "\<forall>n. n \<noteq> ''Press64_'' @ str_nat j \<longrightarrow> dict_get (d_devices ?t) n = dict_get (d_devices ?s) n"
    using beacon_registers [OF k(1) refl, of j] u k(2) by (auto simp: only_device_def)
  have "dict_get (d_devices ?t) (''Press64_'' @ str_nat i) = Some (''Press64'', map (\<lambda>p. (p, sim_device s i)) dccs)"
    if "i \<in> set (js @ [j])" for i
  proof (cases "i = j")
    case False
    then have "str_nat i \<noteq> str_nat j" using str_nat_inj by blast
    with t(4) d that False show ?thesis by auto
  qed (use t(3) in simp)
  with t(1,2) show ?case by simp
qed simp

text \<open>The five messages of the simulator, read from the pipe.\<close>

lemma simulated_devices_discovered:
  assumes "knows_press dccs s" "5 \<le> n" "ps_alive p" "ps_cnt p = 0" "ps_written p = []" "\<forall>t. ps_write p t = Inr ()"
  shows "\<exists>p'. sim_loop ps_alive pipe_sim_round n p = (Inr (), p') \<and> ps_alive p' \<and>
    (\<forall>i<5. dict_get (d_devices (pipe_listener_run json_parse (ps_written p') s)) (''Press64_'' @ str_nat i) =
       Some (''Press64'', map (\<lambda>p. (p, sim_device s i)) dccs))"
proof -
  obtain p' where p: "sim_loop ps_alive pipe_sim_round n p = (Inr (), p')" "ps_alive p'" "ps_written p' = map pipe_message [0..<5]"
    using pipe_loop.rounds [of p n] assms by auto
  have "concat (map (\<lambda>c. pipe_lines json_parse (readlines c) []) (map pipe_message [0..<5])) =
      map (beacon ''Press64'' ''serial'') [0..<5]"
    by (simp add: comp_def pipe_message_lines del: upt_Suc)
  then have "pipe_listener_run json_parse (ps_written p') s =
      foldl (\<lambda>s p. device_msg_process p s) s (map (beacon ''Press64'' ''serial'') [0..<5])"
    by (simp add: pipe_listener_run_def p(3))
  with beacons_register [OF assms(1), of "[0..<5]"] p show ?thesis by auto
qed

end
