(* ===== verification/Simulated_Devices.thy ===== *)
theory Simulated_Devices
  imports Liota_Config Registered_Metric
begin

text \<open>
  Edge systems and devices (\<^verbatim>\<open>src/liota/entities/edge_systems\<close>, \<^verbatim>\<open>src/liota/entities/devices\<close>): the constructors, and the two
  simulated devices, a bicycle and a thermistor, whose threads change their state at random every few seconds. The random
  numbers and the clock are arguments. Floats are rationals; \<^verbatim>\<open>math.pi\<close> is the double it is.
\<close>

section \<open>Constructors\<close>

type_synonym entity = "string \<times> string \<times> string"        \<comment> \<open>name, identifier, type\<close>

text \<open>The subclasses make the identifier from the name; a name that is no string has no \<^verbatim>\<open>encode\<close>.\<close>

definition named_entity :: "pyval \<Rightarrow> pyval \<Rightarrow> uuid_env \<Rightarrow> (uuid_env, entity) outcome" where
  "named_entity name ty u =
     (case name of
        PStr n \<Rightarrow> (case get_uuid n u of (i, u') \<Rightarrow> (Entity_init name i ty, u'))
      | _ \<Rightarrow> (Inl AttributeError, u))"

definition EdgeSystem_type :: pyval where "EdgeSystem_type = PStr ''EdgeSystem''"

definition Dell5KEdgeSystem :: "pyval \<Rightarrow> uuid_env \<Rightarrow> (uuid_env, entity) outcome" where
  "Dell5KEdgeSystem name = named_entity name EdgeSystem_type"

definition Dk300EdgeSystem :: "pyval \<Rightarrow> uuid_env \<Rightarrow> (uuid_env, entity) outcome" where
  "Dk300EdgeSystem name = named_entity name EdgeSystem_type"

definition GeneralEdgeSystem :: "pyval \<Rightarrow> uuid_env \<Rightarrow> (uuid_env, entity) outcome" where
  "GeneralEdgeSystem name = named_entity name EdgeSystem_type"

definition SimulatedEdgeSystem :: "pyval \<Rightarrow> uuid_env \<Rightarrow> (uuid_env, entity) outcome" where
  "SimulatedEdgeSystem name = named_entity name EdgeSystem_type"

definition SimulatedDevice :: "pyval \<Rightarrow> pyval \<Rightarrow> uuid_env \<Rightarrow> (uuid_env, entity) outcome" where
  "SimulatedDevice name ty = named_entity name ty"

section \<open>Bicycle\<close>

definition math_pi :: rat where "math_pi = 884279719003555 / 281474976710656"

record bike =
  slope :: rat
  radius_wheel :: rat
  weight_bike :: rat
  weight_rider :: rat
  weight_load :: rat
  revolution :: rat
  bike_area :: rat
  bike_interval :: rat
  time_last :: "rat option"

definition BikeSimulated :: "rat \<Rightarrow> rat \<Rightarrow> rat \<Rightarrow> rat \<Rightarrow> rat \<Rightarrow> bike" where
  "BikeSimulated wheel m_bike m_rider m_load intv =
     \<lparr>slope = 0, radius_wheel = wheel, weight_bike = m_bike, weight_rider = m_rider, weight_load = m_load, revolution = 0,
      bike_area = 1, bike_interval = intv, time_last = None\<rparr>"

text \<open>One round of the endless loop \<^verbatim>\<open>simulate\<close>, with the values of \<^verbatim>\<open>random.uniform(-0.01, 0.01)\<close>, \<^verbatim>\<open>random.uniform(-2.0, 5.0)\<close>,
  \<^verbatim>\<open>time.time()\<close> and \<^verbatim>\<open>random.randrange(0, 50)\<close>.\<close>

record bike_random =
  r_slope :: rat
  r_revolution :: rat
  r_time :: rat
  r_load :: nat

definition bike_random_ok :: "bike_random \<Rightarrow> bool" where
  "bike_random_ok r \<longleftrightarrow> -1/100 \<le> r_slope r \<and> r_slope r \<le> 1/100 \<and> -2 \<le> r_revolution r \<and> r_revolution r \<le> 5 \<and> r_load r < 50"

definition bike_simulate :: "bike_random \<Rightarrow> bike \<Rightarrow> bike" where
  "bike_simulate r b =
     (let b1 = b\<lparr>slope := min (max (slope b + r_slope r * bike_interval b) (- math_pi / 16)) (math_pi / 16)\<rparr>;
          b2 = b1\<lparr>revolution := min (max (revolution b1 + r_revolution r * bike_interval b1) 0) 40\<rparr>
      in case time_last b2 of
           None \<Rightarrow> b2\<lparr>time_last := Some (r_time r)\<rparr>
         | Some t \<Rightarrow>
             if 30 \<le> r_time r - t then b2\<lparr>weight_load := of_nat (r_load r), time_last := Some (r_time r)\<rparr> else b2)"

section \<open>Thermistor\<close>

text \<open>The voltage is a float, as the default \<^verbatim>\<open>5.0\<close> is.\<close>

record thermistor =
  th_u :: rat
  th_r0 :: rat
  th_ux :: rat
  th_c1 :: rat
  th_c2 :: rat
  th_c3 :: rat
  th_interval :: rat

definition ThermistorSimulated :: "rat \<Rightarrow> rat \<Rightarrow> rat \<Rightarrow> thermistor" where
  "ThermistorSimulated u r0 intv =
     \<lparr>th_u = u, th_r0 = r0, th_ux = u / 2, th_c1 = 140 / 100000, th_c2 = 237 / 1000000, th_c3 = 990 / 10000000000, th_interval = intv\<rparr>"

definition thermistor_simulate :: "rat \<Rightarrow> thermistor \<Rightarrow> thermistor" where
  "thermistor_simulate d t = t\<lparr>th_ux := min (max (th_ux t + d * th_interval t) (3/2)) (7/2)\<rparr>"

section \<open>The state stays in its range\<close>

definition bike_ok :: "bike \<Rightarrow> bool" where
  "bike_ok b \<longleftrightarrow> \<bar>slope b\<bar> \<le> math_pi / 16 \<and> 0 \<le> revolution b \<and> revolution b \<le> 40"

lemma BikeSimulated_ok: "bike_ok (BikeSimulated w mb mr ml i)"
  by (simp add: bike_ok_def BikeSimulated_def math_pi_def)

lemma clamp_abs: "0 \<le> (a::rat) \<Longrightarrow> \<bar>min (max x (- a)) a\<bar> \<le> a"
  by (auto simp: min_def max_def abs_le_iff)

lemma bike_simulate_ok: "bike_ok (bike_simulate r b)"
proof -
  have "slope (bike_simulate r b) = min (max (slope b + r_slope r * bike_interval b) (- (math_pi / 16))) (math_pi / 16)"
    by (simp add: bike_simulate_def Let_def split: option.split)
  then have "\<bar>slope (bike_simulate r b)\<bar> \<le> math_pi / 16" using clamp_abs [of "math_pi / 16"] by (simp add: math_pi_def)
  moreover have "revolution (bike_simulate r b) = min (max (revolution b + r_revolution r * bike_interval b) 0) 40"
    by (simp add: bike_simulate_def Let_def split: option.split)
  ultimately show ?thesis by (simp add: bike_ok_def)
qed

text \<open>What does not change, and that time and load change together, at most every 30 seconds.\<close>

lemma bike_simulate_frame:
  "radius_wheel (bike_simulate r b) = radius_wheel b \<and> weight_bike (bike_simulate r b) = weight_bike b \<and>
   weight_rider (bike_simulate r b) = weight_rider b \<and> bike_area (bike_simulate r b) = bike_area b \<and>
   bike_interval (bike_simulate r b) = bike_interval b"
  by (simp add: bike_simulate_def Let_def split: option.split)

lemma bike_load_changes:
  assumes "weight_load (bike_simulate r b) \<noteq> weight_load b"
  shows "\<exists>t. time_last b = Some t \<and> 30 \<le> r_time r - t \<and> weight_load (bike_simulate r b) = of_nat (r_load r)"
  using assms by (auto simp: bike_simulate_def Let_def split: option.splits if_splits)

definition bike_run :: "bike_random list \<Rightarrow> bike \<Rightarrow> bike" where
  "bike_run rs b = fold bike_simulate rs b"

lemma bike_run_ok:
  "bike_ok b \<Longrightarrow> bike_ok (bike_run rs b) \<and> radius_wheel (bike_run rs b) = radius_wheel b \<and> weight_bike (bike_run rs b) = weight_bike b \<and>
     weight_rider (bike_run rs b) = weight_rider b"
proof (induction rs arbitrary: b)
  case (Cons r rs)
  from Cons.IH [OF bike_simulate_ok [of r b]] bike_simulate_frame [of r b] show ?case by (simp add: bike_run_def)
qed (simp add: bike_run_def)

lemma bike_run_load:
  "0 \<le> weight_load b \<Longrightarrow> \<forall>r\<in>set rs. bike_random_ok r \<Longrightarrow> 0 \<le> weight_load (bike_run rs b) \<and>
     (weight_load (bike_run rs b) = weight_load b \<or> weight_load (bike_run rs b) < 50)"
proof (induction rs arbitrary: b)
  case (Cons r rs)
  have "weight_load (bike_simulate r b) = weight_load b \<or> weight_load (bike_simulate r b) = of_nat (r_load r)"
    using bike_load_changes by blast
  moreover have "r_load r < 50" using Cons.prems(2) by (simp add: bike_random_ok_def)
  ultimately show ?case using Cons.IH [of "bike_simulate r b"] Cons.prems by (auto simp: bike_run_def)
qed (simp add: bike_run_def)

text \<open>The temperature of the thermistor, the sampling function of the packages for it
  (\<^verbatim>\<open>src/packages/examples/graphite_thermistor_simulated.py\<close>), over the real numbers: \<open>None\<close> for a division by zero or a
  logarithm outside its domain. In degrees Celsius.\<close>

definition get_rx :: "real \<Rightarrow> real \<Rightarrow> real \<Rightarrow> real option" where
  "get_rx u r0 ux = (if u - ux = 0 then None else Some (r0 * ux / (u - ux)))"

definition get_temperature :: "real \<Rightarrow> real \<Rightarrow> real \<Rightarrow> real \<Rightarrow> real option" where
  "get_temperature c1 c2 c3 rx =
     (if rx \<le> 0 then None
      else let d = c1 + c2 * ln rx + c3 * ln rx ^ 3 in if d = 0 then None else Some (1 / d))"

definition get_thermistor_temperature :: "thermistor \<Rightarrow> real option" where
  "get_thermistor_temperature t =
     Option.bind (get_rx (of_rat (th_u t)) (of_rat (th_r0 t)) (of_rat (th_ux t)))
       (\<lambda>rx. map_option (\<lambda>k. k - 273.15) (get_temperature (of_rat (th_c1 t)) (of_rat (th_c2 t)) (of_rat (th_c3 t)) rx))"

definition thermistor_run :: "rat list \<Rightarrow> thermistor \<Rightarrow> thermistor" where
  "thermistor_run ds t = fold thermistor_simulate ds t"

lemma thermistor_run_frame:
  "th_u (thermistor_run ds t) = th_u t \<and> th_r0 (thermistor_run ds t) = th_r0 t \<and> th_c1 (thermistor_run ds t) = th_c1 t \<and>
   th_c2 (thermistor_run ds t) = th_c2 t \<and> th_c3 (thermistor_run ds t) = th_c3 t"
  by (induction ds arbitrary: t) (simp_all add: thermistor_run_def thermistor_simulate_def)

lemma thermistor_run_range:
  "3/2 \<le> th_ux t \<Longrightarrow> th_ux t \<le> 7/2 \<Longrightarrow> 3/2 \<le> th_ux (thermistor_run ds t) \<and> th_ux (thermistor_run ds t) \<le> 7/2"
proof (induction ds arbitrary: t)
  case (Cons d ds)
  have "3/2 \<le> th_ux (thermistor_simulate d t)" "th_ux (thermistor_simulate d t) \<le> 7/2"
    by (auto simp: thermistor_simulate_def min_def max_def)
  from Cons.IH [OF this] show ?case by (simp add: thermistor_run_def)
qed (simp add: thermistor_run_def)

text \<open>With the default voltage and resistance the temperature can always be computed, and lies above absolute zero.\<close>

lemma thermistor_temperature_defined:
  assumes "t = thermistor_run ds (ThermistorSimulated 5 3000 i)"
  shows "\<exists>c. get_thermistor_temperature t = Some c \<and> -273.15 < c"
proof -
  have r: "3/2 \<le> th_ux t" "th_ux t \<le> 7/2" and f: "th_u t = 5" "th_r0 t = 3000" "th_c1 t = 140 / 100000"
    "th_c2 t = 237 / 1000000" "th_c3 t = 990 / 10000000000"
    using thermistor_run_range [of "ThermistorSimulated 5 3000 i" ds] thermistor_run_frame [of ds "ThermistorSimulated 5 3000 i"]
      assms by (simp_all add: ThermistorSimulated_def)
  define x where "x = (of_rat (th_ux t) :: real)"
  have x: "3/2 \<le> x" "x \<le> 7/2"
    using of_rat_less_eq [of "3/2" "th_ux t", where 'a = real] of_rat_less_eq [of "th_ux t" "7/2", where 'a = real] r
    by (simp_all add: x_def of_rat_divide)
  define rx where "rx = 3000 * x / (5 - x)"
  have rx: "1 < rx" using x by (simp add: rx_def field_simps)
  then have l: "0 < ln rx" by simp
  then have "0 < 140 / 100000 + 237 / 1000000 * ln rx + 990 / 10000000000 * ln rx ^ 3" by (simp add: add_pos_pos)
  moreover have "of_rat (th_c1 t) = (140 / 100000 :: real)" "of_rat (th_c2 t) = (237 / 1000000 :: real)"
    "of_rat (th_c3 t) = (990 / 10000000000 :: real)" unfolding f by (simp_all add: of_rat_divide)
  ultimately have "0 < of_rat (th_c1 t) + of_rat (th_c2 t) * ln rx + of_rat (th_c3 t) * ln rx ^ 3" by (simp only:)
  then show ?thesis using rx x f(1,2)
    by (simp add: get_thermistor_temperature_def get_rx_def get_temperature_def Let_def x_def [symmetric] rx_def [symmetric]
        of_rat_divide)
qed

end
