(* ===== verification/Discovery_Simulator.thy ===== *)
theory Discovery_Simulator
  imports Simulated_Devices Disc_Listeners
begin

text \<open>
  The thread that runs simulated devices (\<^verbatim>\<open>src/liota/core/discovery_simulator.py\<close>). It reads the same configuration file as
  device discovery and has the same attributes, so the record \<open>disc\<close> is its state too, with the simulators in the place
  of the listeners; where the two modules have the same text (the loops over the sections, the loop that starts threads,
  the clean-up, the pipe reader) they share the definitions of \<^verbatim>\<open>Device_Discovery\<close>.
\<close>

section \<open>Configuration\<close>

definition sim_read_paths :: "conf \<Rightarrow> disc \<Rightarrow> (disc, unit) outcome" where
  "sim_read_paths c =
     bind_e (lift_e (config_get (\<lambda>n. n) c ''IOTCC_PATH'' ''dev_file_path'')) (\<lambda>dev.
     then_e (modify_e (\<lambda>s. s\<lparr>d_dev_path := Some dev\<rparr>))
      (\<lambda>s. if os_exists dev s then (Inr (), s)
           else case makedirs dev s of
                  (Inl _, s') \<Rightarrow> if os_exists dev s' \<and> os_isdir dev s' then (Inr (), s') else (Inl SystemExit, s')
                | (Inr _, s') \<Rightarrow> (Inr (), s')))"

definition sim_read_mappings :: "conf \<Rightarrow> disc \<Rightarrow> (disc, unit) outcome" where
  "sim_read_mappings c =
     bind_e (lift_e (config_get (\<lambda>n. n) c ''DEVSIM_CFG'' ''devsim_cmd_msg_pipe'')) (\<lambda>pipe.
     then_e (modify_e (\<lambda>s. s\<lparr>d_cmd_pipe := Some (abspath (os_cwd s) pipe)\<rparr>))
     (bind_e (lift_e (config_get (\<lambda>n. n) c ''PKG_CFG'' ''pkg_path'')) (\<lambda>pkg.
      then_e (modify_e (\<lambda>s. s\<lparr>d_package_path := Some (abspath (os_cwd s) pkg)\<rparr>))
      (bind_e (lift_e (config_items (\<lambda>n. n) c ''DISC_ENDPOINT_LIST'')) (\<lambda>eps.
       then_e (read_endpoints c eps)
       (bind_e (lift_e (config_items (\<lambda>n. n) c ''DEVICE_TYPE_TO_UNIQUEKEY_MAPPING'')) (\<lambda>keys.
        then_e (modify_e (read_type_keys keys))
        (bind_e (lift_e (config_items (\<lambda>n. n) c ''DEVICE_TYPE_TO_DCC_MAPPING'')) read_type_dccs))))))))"

definition sim_get_config_from_file :: "disc \<Rightarrow> (disc, unit) outcome" where
  "sim_get_config_from_file s0 =
     (let s = LiotaConfigPath s0 in
      case (if get_liota_fullpath s = [] then (Inr (), s)
            else case h_conf s (get_liota_fullpath s) of
                   Conf_Unreadable \<Rightarrow> (Inl IOError, s)
                 | Conf_Malformed \<Rightarrow> (Inl ConfigError, s)
                 | Conf c \<Rightarrow> then_e (sim_read_paths c) (sim_read_mappings c) s) of
        (Inl e, s') \<Rightarrow> (Inl e, s')
      | (Inr _, s') \<Rightarrow> if d_cmd_pipe s' = None then (Inl AssertionError, s') else (Inr (), s'))"

definition sim_executable_check :: "disc \<Rightarrow> (disc, unit) outcome" where
  "sim_executable_check s =
     (case validate_named_pipe (case d_cmd_pipe s of None \<Rightarrow> PNone | Some p \<Rightarrow> PStr p) s of
        (Inl e, s') \<Rightarrow> (Inl e, s') | (Inr _, s') \<Rightarrow> (Inr (), s'))"

text \<open>The paths are attributes only once they are read; there is no path of the organization.\<close>

definition sim_save_config :: "disc \<Rightarrow> (disc, unit) outcome" where
  "sim_save_config s =
     (case (d_package_path s, d_dev_path s) of
        (Some pkg, Some dev) \<Rightarrow>
          (Inr (), s\<lparr>d_config := \<lparr>c_cmd_msg_pipe = d_cmd_pipe s, c_endpoint_list = d_endpoints s,
             c_type_dcc_map = d_type_dcc s, c_type_key_map = d_type_key s, c_type_tuple = d_type_tuple s,
             c_package_path = Some pkg, c_dev_file_path = Some dev, c_org_file_path = []\<rparr>\<rparr>)
      | _ \<Rightarrow> (Inl AttributeError, s))"

text \<open>The edge system named in \<^verbatim>\<open>sampleProp.conf\<close>.\<close>

definition sim_edge_system :: "(string \<Rightarrow> py_error + pyval) \<Rightarrow> disc \<Rightarrow> (disc, entity) outcome" where
  "sim_edge_system literal_eval s =
     (case c_package_path (d_config s) of
        None \<Rightarrow> (Inl TypeError, s)
      | Some p \<Rightarrow>
          (case read_user_config literal_eval (p @ ''/sampleProp.conf'') s of
             Inl e \<Rightarrow> (Inl e, s)
           | Inr cfg \<Rightarrow>
               (case dict_get cfg ''EdgeSystemName'' of
                  None \<Rightarrow> (Inl KeyError, s)
                | Some name \<Rightarrow> (case Dell5KEdgeSystem name (d_uuid s) of (r, u) \<Rightarrow> (r, s\<lparr>d_uuid := u\<rparr>)))))"

definition SimulatorThread :: "(string \<Rightarrow> py_error + pyval) \<Rightarrow> disc \<Rightarrow> (disc, unit) outcome" where
  "SimulatorThread literal_eval =
     then_e (modify_e (\<lambda>s. s\<lparr>d_cmd_pipe := None, d_endpoints := [], d_type_dcc := [], d_type_key := [], d_type_tuple := [],
       d_package_path := None, d_dev_path := None\<rparr>))
     (then_e sim_get_config_from_file
     (then_e sim_executable_check
     (then_e sim_save_config
     (then_e (sim_edge_system literal_eval)
       (modify_e (\<lambda>s. s\<lparr>d_listeners := [], d_alive := True\<rparr>))))))"

section \<open>Commands\<close>

definition sim_cmd_handler_list :: "(pyval \<Rightarrow> string) \<Rightarrow> thread_info list \<Rightarrow> string \<Rightarrow> disc \<Rightarrow> py_error + string" where
  "sim_cmd_handler_list fmt threads parameter s =
     (if parameter = ''configurations'' \<or> parameter = ''cfg'' then Inr (list_configurations fmt (d_config s))
      else if parameter = ''threads'' \<or> parameter = ''th'' then
        bind_r (thread_lines (sort_key ident_key threads)) (\<lambda>ls. Inr (''Active threads - '' @ [TAB] @ py_join [TAB] ls))
      else Inr ''Unsupported list'')"

definition sim_cmd_handler_stat :: "thread_info list \<Rightarrow> string \<Rightarrow> string" where
  "sim_cmd_handler_stat threads parameter =
     (if parameter = ''threads'' \<or> parameter = ''th'' then ''Count of active threads: '' @ str_nat (length threads)
      else ''Unsupported stat'')"

definition sim_terminate_all :: "disc \<Rightarrow> (disc, bool) outcome" where
  "sim_terminate_all s =
     (let s1 = (if d_messenger_alive s then s\<lparr>d_pipe_written := d_pipe_written s @ [terminate_messenger @ [LF]]\<rparr> else s)
      in case clean_up_all (dict_keys (d_listeners s1)) s1 of
           (Inl e, s2) \<Rightarrow> (Inl e, s2) | (Inr _, s2) \<Rightarrow> (Inr True, s2))"

definition sim_dispatch :: "(pyval \<Rightarrow> string) \<Rightarrow> thread_info list \<Rightarrow> string list \<Rightarrow> disc \<Rightarrow> (disc, string) outcome" where
  "sim_dispatch fmt threads msg s =
     (case msg of
        [] \<Rightarrow> (Inl IndexError, s)
      | command # args \<Rightarrow>
          if command = ''list'' then
            (if length msg \<noteq> 2 then (Inr (''Invalid format of command: '' @ command), s)
             else (sim_cmd_handler_list fmt threads (msg ! 1) s, s))
          else if command = ''stat'' then
            (if length msg \<noteq> 2 then (Inr (''Invalid format of command: '' @ command), s)
             else (Inr (sim_cmd_handler_stat threads (msg ! 1)), s))
          else if command = ''terminate'' then
            (case sim_terminate_all s of
               (Inl e, s') \<Rightarrow> (Inl e, s')
             | (Inr ok, s') \<Rightarrow> (Inr [], if ok then s'\<lparr>d_alive := False\<rparr> else s'))
          else (Inr ''Unsupported command is dropped'', s))"

primrec sim_cmd_loop :: "(pyval \<Rightarrow> string) \<Rightarrow> thread_info list \<Rightarrow> string list list \<Rightarrow> disc \<Rightarrow> (disc, string list) outcome" where
  "sim_cmd_loop fmt threads [] s = (Inr [], s)"
| "sim_cmd_loop fmt threads (msg # msgs) s =
     (if \<not> d_alive s then (Inr [], s)
      else bind_e (sim_dispatch fmt threads msg) (\<lambda>out.
             bind_e (sim_cmd_loop fmt threads msgs) (\<lambda>outs. return_e (out # outs))) s)"

text \<open>\<^verbatim>\<open>run\<close>: the kinds of listeners stand for the simulators of the same kind.\<close>

definition sim_run :: "(pyval \<Rightarrow> string) \<Rightarrow> thread_info list \<Rightarrow> string list list \<Rightarrow> disc \<Rightarrow> (disc, string list) outcome" where
  "sim_run fmt threads msgs s =
     then_e (start_listeners (c_endpoint_list (d_config s)))
     (then_e (modify_e (\<lambda>s. s\<lparr>d_messenger_alive := True\<rparr>))
       (sim_cmd_loop fmt threads msgs)) s"

text \<open>\<^verbatim>\<open>initialize\<close>, with the flag \<^verbatim>\<open>is_discovery_simulator_initialized\<close>.\<close>

definition sim_initialize :: "(string \<Rightarrow> py_error + pyval) \<Rightarrow> bool \<times> disc \<Rightarrow> (bool \<times> disc, unit) outcome" where
  "sim_initialize literal_eval s =
     (if fst s then (Inr (), s)
      else case SimulatorThread literal_eval (snd s) of
             (Inl e, t) \<Rightarrow> (Inl e, (False, t))
           | (Inr _, t) \<Rightarrow> (Inr (), (True, t)))"

section \<open>Simulator and discovery agree\<close>

text \<open>What the two threads read from the sections they share depends on the same parts of the state.\<close>

definition agree :: "disc \<Rightarrow> disc \<Rightarrow> bool" where
  "agree a b \<longleftrightarrow> os_cwd a = os_cwd b \<and> d_endpoints a = d_endpoints b \<and> d_type_dcc a = d_type_dcc b \<and>
     d_type_key a = d_type_key b \<and> d_type_tuple a = d_type_tuple b"

lemma read_endpoints_agree:
  "agree a b \<Longrightarrow> fst (read_endpoints c eps a) = fst (read_endpoints c eps b) \<and>
     agree (snd (read_endpoints c eps a)) (snd (read_endpoints c eps b))"
proof (induction eps arbitrary: a b)
  case (Cons kv eps)
  have up: "agree (a\<lparr>d_endpoints := dict_set k v (d_endpoints a)\<rparr>) (b\<lparr>d_endpoints := dict_set k v (d_endpoints b)\<rparr>)" for k v
    using Cons.prems by (simp add: agree_def)
  have "os_cwd a = os_cwd b" using Cons.prems by (simp add: agree_def)
  with Cons.prems show ?case by (auto simp: Let_def Cons.IH up split: sum.split)
qed simp

lemma read_type_keys_agree: "agree a b \<Longrightarrow> agree (read_type_keys kvs a) (read_type_keys kvs b)"
proof (induction kvs arbitrary: a b)
  case (Cons kv kvs)
  have "agree (a\<lparr>d_type_key := dict_set k v (d_type_key a)\<rparr>) (b\<lparr>d_type_key := dict_set k v (d_type_key b)\<rparr>)" for k v
    using Cons.prems by (simp add: agree_def)
  with Cons show ?case by simp
qed simp

lemma read_type_dccs_agree:
  "agree a b \<Longrightarrow> fst (read_type_dccs kvs a) = fst (read_type_dccs kvs b) \<and> agree (snd (read_type_dccs kvs a)) (snd (read_type_dccs kvs b))"
proof (induction kvs arbitrary: a b)
  case (Cons kv kvs)
  have up: "agree (a\<lparr>d_type_dcc := dict_set k l (d_type_dcc a), d_type_tuple := dict_set k x (d_type_tuple a)\<rparr>)
      (b\<lparr>d_type_dcc := dict_set k l (d_type_dcc b), d_type_tuple := dict_set k x (d_type_tuple b)\<rparr>)"
    "agree (a\<lparr>d_type_dcc := dict_set k l (d_type_dcc a)\<rparr>) (b\<lparr>d_type_dcc := dict_set k l (d_type_dcc b)\<rparr>)" for k l x
    using Cons.prems by (simp_all add: agree_def)
  have "d_type_key a = d_type_key b" using Cons.prems by (simp add: agree_def)
  with Cons.prems show ?case by (auto simp: Let_def Cons.IH up split: option.split)
qed simp

text \<open>The sections after the paths of pipe and packages.\<close>

definition read_sections :: "conf \<Rightarrow> disc \<Rightarrow> (disc, unit) outcome" where
  "read_sections c =
     bind_e (lift_e (config_items (\<lambda>n. n) c ''DISC_ENDPOINT_LIST'')) (\<lambda>eps.
       then_e (read_endpoints c eps)
       (bind_e (lift_e (config_items (\<lambda>n. n) c ''DEVICE_TYPE_TO_UNIQUEKEY_MAPPING'')) (\<lambda>keys.
        then_e (modify_e (read_type_keys keys))
        (bind_e (lift_e (config_items (\<lambda>n. n) c ''DEVICE_TYPE_TO_DCC_MAPPING'')) read_type_dccs))))"

lemma read_sections_agree:
  assumes "agree a b" "read_sections c a = (Inr (), a')" "read_sections c b = (Inr (), b')"
  shows "agree a' b'"
proof -
  obtain eps keys dccs a1 b1 where r: "read_endpoints c eps a = (Inr (), a1)" "read_endpoints c eps b = (Inr (), b1)"
    "read_type_dccs dccs (read_type_keys keys a1) = (Inr (), a')" "read_type_dccs dccs (read_type_keys keys b1) = (Inr (), b')"
    using assms(2,3) unfolding read_sections_def then_e_def by (auto simp: bind_e_Inr lift_e_def modify_e_def)
  have "agree a1 b1" using read_endpoints_agree [OF assms(1), of c eps] r by simp
  from read_type_dccs_agree [OF read_type_keys_agree [OF this, of keys], of dccs] r show ?thesis by simp
qed

lemma mappings_sections:
  "read_mappings c s = (Inr (), t) \<Longrightarrow> \<exists>p q. read_sections c (s\<lparr>d_cmd_pipe := p, d_package_path := q\<rparr>) = (Inr (), t)"
  "sim_read_mappings c s = (Inr (), t) \<Longrightarrow> \<exists>p q. read_sections c (s\<lparr>d_cmd_pipe := p, d_package_path := q\<rparr>) = (Inr (), t)"
  unfolding read_mappings_def sim_read_mappings_def unfolding read_sections_def [symmetric] unfolding then_e_def
  by (auto simp: bind_e_Inr lift_e_def modify_e_def)

text \<open>The directories do not matter for it.\<close>

lemma agree_refl [simp]: "agree s s"
  by (simp add: agree_def)

lemma makedirs_agree: "makedirs p s = (r, t) \<Longrightarrow> agree s t"
  by (auto simp: makedirs_def agree_def split: if_splits)

lemma agree_trans: "agree a b \<Longrightarrow> agree b c \<Longrightarrow> agree a c" "agree a b \<Longrightarrow> agree b a"
  by (simp_all add: agree_def)

lemma paths_agree: "read_paths c s = (r, t) \<Longrightarrow> agree s t" "sim_read_paths c s = (r, t) \<Longrightarrow> agree s t"
proof -
  have d: "agree s (s\<lparr>d_dev_path := x\<rparr>)" "agree s (s\<lparr>d_dev_path := x, d_org_path := y\<rparr>)" for x y s by (simp_all add: agree_def)
  show "read_paths c s = (r, t) \<Longrightarrow> agree s t"
    by (auto simp: read_paths_def outcome_simps d split: sum.splits prod.splits if_splits
        dest!: makedirs_agree intro: agree_trans(1) [OF d(2)])
  show "sim_read_paths c s = (r, t) \<Longrightarrow> agree s t"
    by (auto simp: sim_read_paths_def outcome_simps d split: sum.splits prod.splits if_splits
        dest!: makedirs_agree intro: agree_trans(1) [OF d(1)])
qed

lemma config_sections:
  assumes "(if get_liota_fullpath s = [] then (Inr (), s)
      else case h_conf s (get_liota_fullpath s) of
        Conf_Unreadable \<Rightarrow> (Inl IOError, s) | Conf_Malformed \<Rightarrow> (Inl ConfigError, s) | Conf c \<Rightarrow> then_e (paths c) (maps c) s) = (Inr (), t)"
    and "d_cmd_pipe s = None" "d_cmd_pipe t \<noteq> None"
  obtains c s1 where "h_conf s (get_liota_fullpath s) = Conf c" "paths c s = (Inr (), s1)" "maps c s1 = (Inr (), t)"
  using assms by (auto simp: then_e_def bind_e_Inr split: if_splits conf_file.splits)

lemma get_config_agree:
  assumes "get_config_from_file a = (Inr (), a')" "sim_get_config_from_file b = (Inr (), b')" "agree a b"
    "d_cmd_pipe a = None" "d_cmd_pipe b = None" "h_conf a = h_conf b" "LiotaConfigPath a = a\<lparr>path_liota_config := f\<rparr>"
    "LiotaConfigPath b = b\<lparr>path_liota_config := f\<rparr>"
  shows "agree a' b'"
proof -
  have r: "(if get_liota_fullpath (LiotaConfigPath a) = [] then (Inr (), LiotaConfigPath a)
      else case h_conf (LiotaConfigPath a) (get_liota_fullpath (LiotaConfigPath a)) of
        Conf_Unreadable \<Rightarrow> (Inl IOError, LiotaConfigPath a) | Conf_Malformed \<Rightarrow> (Inl ConfigError, LiotaConfigPath a)
      | Conf c \<Rightarrow> then_e (read_paths c) (read_mappings c) (LiotaConfigPath a)) = (Inr (), a')" "d_cmd_pipe a' \<noteq> None"
    "(if get_liota_fullpath (LiotaConfigPath b) = [] then (Inr (), LiotaConfigPath b)
      else case h_conf (LiotaConfigPath b) (get_liota_fullpath (LiotaConfigPath b)) of
        Conf_Unreadable \<Rightarrow> (Inl IOError, LiotaConfigPath b) | Conf_Malformed \<Rightarrow> (Inl ConfigError, LiotaConfigPath b)
      | Conf c \<Rightarrow> then_e (sim_read_paths c) (sim_read_mappings c) (LiotaConfigPath b)) = (Inr (), b')" "d_cmd_pipe b' \<noteq> None"
    using assms(1,2) unfolding get_config_from_file_def sim_get_config_from_file_def Let_def
    by (auto split: prod.splits sum.splits if_splits)
  obtain c a1 where c: "h_conf a f = Conf c" "read_paths c (LiotaConfigPath a) = (Inr (), a1)" "read_mappings c a1 = (Inr (), a')"
    using config_sections [OF r(1) _ r(2)] assms(4,7) by (auto simp: get_liota_fullpath_def)
  obtain d b1 where d: "h_conf b f = Conf d" "sim_read_paths d (LiotaConfigPath b) = (Inr (), b1)" "sim_read_mappings d b1 = (Inr (), b')"
    using config_sections [OF r(3) _ r(4)] assms(5,8) by (auto simp: get_liota_fullpath_def)
  have "d = c" using c d assms(6) by simp
  have "agree (LiotaConfigPath a) (LiotaConfigPath b)" using assms(3,7,8) by (simp add: agree_def)
  then have "agree a1 b1" using paths_agree(1) [OF c(2)] paths_agree(2) [OF d(2)] agree_trans by blast
  then have g: "agree (a1\<lparr>d_cmd_pipe := p, d_package_path := q\<rparr>) (b1\<lparr>d_cmd_pipe := p', d_package_path := q'\<rparr>)" for p q p' q'
    by (simp add: agree_def)
  obtain p q p' q' where "read_sections c (a1\<lparr>d_cmd_pipe := p, d_package_path := q\<rparr>) = (Inr (), a')"
    "read_sections c (b1\<lparr>d_cmd_pipe := p', d_package_path := q'\<rparr>) = (Inr (), b')"
    using mappings_sections(1) [OF c(3)] mappings_sections(2) [OF d(3)] \<open>d = c\<close> by blast
  then show ?thesis by (rule read_sections_agree [OF g])
qed

lemma find_path_in_update: "\<exists>f. find_path_in locs h = h\<lparr>path_liota_config := f\<rparr>"
proof (induction locs)
  case Nil
  show ?case by (rule exI [of _ "path_liota_config h"]) simp
next
  case (Cons loc locs)
  then show ?case by (cases loc) (auto simp: Let_def)
qed

lemma LiotaConfigPath_update: "LiotaConfigPath h = h\<lparr>path_liota_config := path_liota_config (LiotaConfigPath h)\<rparr>"
proof (cases "path_liota_config h = []")
  case True
  obtain f where "find_path h = h\<lparr>path_liota_config := f\<rparr>" unfolding find_path_def using find_path_in_update by blast
  with True show ?thesis by (simp add: LiotaConfigPath_def)
qed (simp add: LiotaConfigPath_def)

lemma validate_agree: "validate_named_pipe p s = (r, t) \<Longrightarrow> agree s t"
  by (auto simp: validate_named_pipe_def makedirs_def mkfifo_def agree_def split: pyval.splits if_splits prod.splits sum.splits)

text \<open>Started on the same host, both threads have the same endpoints and the same tables of device types.\<close>

lemma simulator_agrees:
  assumes "DiscoveryThread pc s = (Inr (), t)" "SimulatorThread le s = (Inr (), t')"
  shows "c_endpoint_list (d_config t') = c_endpoint_list (d_config t) \<and> c_type_dcc_map (d_config t') = c_type_dcc_map (d_config t) \<and>
    c_type_key_map (d_config t') = c_type_key_map (d_config t) \<and> c_type_tuple (d_config t') = c_type_tuple (d_config t)"
proof -
  let ?a = "s\<lparr>d_cmd_pipe := None, d_endpoints := [], d_type_dcc := [], d_type_key := [], d_type_tuple := [],
       d_package_path := pc, d_dev_path := None, d_org_path := None\<rparr>"
  let ?b = "s\<lparr>d_cmd_pipe := None, d_endpoints := [], d_type_dcc := [], d_type_key := [], d_type_tuple := [],
       d_package_path := None, d_dev_path := None\<rparr>"
  obtain a1 a2 a3 where a: "get_config_from_file ?a = (Inr (), a1)" "executable_check a1 = (Inr (), a2)" "save_config a2 = (Inr (), a3)"
    "t = a3\<lparr>d_listeners := [], d_devices := [], d_alive := True\<rparr>"
    using assms(1) unfolding DiscoveryThread_def then_e_def by (auto simp: bind_e_Inr modify_e_def)
  obtain b1 b2 b3 b4 e where b: "sim_get_config_from_file ?b = (Inr (), b1)" "sim_executable_check b1 = (Inr (), b2)"
    "sim_save_config b2 = (Inr (), b3)" "sim_edge_system le b3 = (Inr e, b4)" "t' = b4\<lparr>d_listeners := [], d_alive := True\<rparr>"
    using assms(2) unfolding SimulatorThread_def then_e_def by (auto simp: bind_e_Inr modify_e_def)
  have f: "path_liota_config (LiotaConfigPath ?b) = path_liota_config (LiotaConfigPath ?a)"
    by (simp add: LiotaConfigPath_def find_path_candidates config_candidates_def os_exists_def os_isdir_def os_isfifo_def
        split: option.split)
  have "agree a1 b1"
  proof (rule get_config_agree [OF a(1) b(1)])
    show "LiotaConfigPath ?a = ?a\<lparr>path_liota_config := path_liota_config (LiotaConfigPath ?a)\<rparr>" by (rule LiotaConfigPath_update)
    show "LiotaConfigPath ?b = ?b\<lparr>path_liota_config := path_liota_config (LiotaConfigPath ?a)\<rparr>"
      using LiotaConfigPath_update [of ?b] unfolding f .
  qed (simp_all add: agree_def)
  moreover have "agree a1 a2" "agree b1 b2"
    using a(2) b(2) validate_agree by (auto simp: executable_check_def sim_executable_check_def split: prod.splits sum.splits)
  ultimately have g: "agree a2 b2" using agree_trans by blast
  have "d_config t' = d_config b3" using b(4,5)
    by (auto simp: sim_edge_system_def split: option.splits sum.splits prod.splits)
  with g a(3,4) b(3) show ?thesis
    by (auto simp: agree_def save_config_def sim_save_config_def split: option.splits)
qed

end
