(* ===== verification/Data_Filters.thy ===== *)
theory Data_Filters
  imports Py_Values
begin

text \<open>
  Filters on collected values (\<^verbatim>\<open>src/liota/lib/utilities/filters\<close>): \<^verbatim>\<open>RangeFilter\<close> and
  \<^verbatim>\<open>WindowingScheme\<close>, which wraps any filter. The abstract class \<^verbatim>\<open>Filter\<close> is the locale
  \<open>value_filter\<close>: a filter returns the value or \<^verbatim>\<open>None\<close>. Range filters are compared with intervals of
  numbers.
\<close>

section \<open>RangeFilter\<close>

datatype filter_type =
    CLOSED | OPEN | CLOSED_OPEN | OPEN_CLOSED
  | CLOSED_REJECT | OPEN_REJECT | CLOSED_OPEN_REJECT | OPEN_CLOSED_REJECT
  | LESS_THAN | AT_MOST | GREATER_THAN | AT_LEAST

record range_filter =
  rf_type :: filter_type
  lower_bound :: pyval
  upper_bound :: pyval

definition is_number :: "pyval \<Rightarrow> bool" where
  "is_number v = (is_int v \<or> is_float v)"

text \<open>\<^verbatim>\<open>_validate\<close>.\<close>

definition validate :: "filter_type \<Rightarrow> pyval \<Rightarrow> pyval \<Rightarrow> py_error + unit" where
  "validate t lo up =
     (if t \<in> {CLOSED, OPEN, CLOSED_OPEN, OPEN_CLOSED, CLOSED_REJECT, OPEN_REJECT, CLOSED_OPEN_REJECT, OPEN_CLOSED_REJECT}
         \<and> (\<not> is_number lo \<or> \<not> is_number up) then Inl TypeError
      else if t \<in> {LESS_THAN, AT_MOST} \<and> \<not> is_number lo then Inl TypeError
      else if t \<in> {GREATER_THAN, AT_LEAST} \<and> \<not> is_number up then Inl TypeError
      else Inr ())"

text \<open>\<^verbatim>\<open>RangeFilter.__init__\<close>; \<open>None\<close> stands for an argument that is not in the enumeration.\<close>

definition RangeFilter :: "filter_type option \<Rightarrow> pyval \<Rightarrow> pyval \<Rightarrow> py_error + range_filter" where
  "RangeFilter ft lo up =
     (case ft of
        None \<Rightarrow> Inl TypeError
      | Some t \<Rightarrow>
          (case validate t lo up of
             Inl e \<Rightarrow> Inl e
           | Inr _ \<Rightarrow> Inr \<lparr>rf_type = t, lower_bound = lo, upper_bound = up\<rparr>))"

definition range_filter_value :: "range_filter \<Rightarrow> pyval \<Rightarrow> pyval" where
  "range_filter_value f v =
     (let lo = number_of (lower_bound f); up = number_of (upper_bound f); x = number_of v; t = rf_type f in
      if \<not> is_number v then v
      else if t = CLOSED \<and> (lo \<le> x \<and> x \<le> up) then v
      else if t = OPEN \<and> (lo < x \<and> x < up) then v
      else if t = CLOSED_OPEN \<and> (lo \<le> x \<and> x < up) then v
      else if t = OPEN_CLOSED \<and> (lo < x \<and> x \<le> up) then v
      else if t = CLOSED_REJECT \<and> \<not> (lo \<le> x \<and> x \<le> up) then v
      else if t = OPEN_REJECT \<and> \<not> (lo < x \<and> x < up) then v
      else if t = CLOSED_OPEN_REJECT \<and> \<not> (lo \<le> x \<and> x < up) then v
      else if t = OPEN_CLOSED_REJECT \<and> \<not> (lo < x \<and> x \<le> up) then v
      else if t = LESS_THAN \<and> x < lo then v
      else if t = AT_MOST \<and> x \<le> lo then v
      else if t = GREATER_THAN \<and> x > up then v
      else if t = AT_LEAST \<and> x \<ge> up then v
      else PNone)"

text \<open>The filter method with the clock and the filter object as arguments, as every filter has it.\<close>

definition range_filt :: "int \<Rightarrow> pyval \<Rightarrow> range_filter \<Rightarrow> pyval \<times> range_filter" where
  "range_filt now v f = (range_filter_value f v, f)"

section \<open>WindowingScheme\<close>

record 's window =
  filter_obj :: 's
  window_size_sec :: rat
  sample_passed :: bool
  next_window_time :: rat

text \<open>\<^verbatim>\<open>WindowingScheme.__init__\<close>; the first argument is \<open>None\<close> if it is no filter.\<close>

definition WindowingScheme :: "int \<Rightarrow> 's option \<Rightarrow> pyval \<Rightarrow> py_error + 's window" where
  "WindowingScheme now fobj wsize =
     (case fobj of
        None \<Rightarrow> Inl TypeError
      | Some f \<Rightarrow>
          if \<not> is_number wsize \<or> number_of wsize < 0 then Inl ValueError
          else Inr \<lparr>filter_obj = f, window_size_sec = number_of wsize, sample_passed = False,
                    next_window_time = of_int now + number_of wsize * 1000\<rparr>)"

definition set_next_window_time :: "'s window \<Rightarrow> 's window" where
  "set_next_window_time w =
     w\<lparr>next_window_time := next_window_time w + window_size_sec w * 1000, sample_passed := False\<rparr>"

definition window_value :: "int \<Rightarrow> pyval \<Rightarrow> pyval \<Rightarrow> 's window \<Rightarrow> pyval \<times> 's window" where
  "window_value now collected filtered w =
     (if next_window_time w \<le> of_int now then
        (if \<not> sample_passed w \<and> filtered = PNone then (collected, set_next_window_time w)
         else (filtered, set_next_window_time w))
      else (filtered, if filtered \<noteq> PNone then w\<lparr>sample_passed := True\<rparr> else w))"

definition window_filt ::
  "(int \<Rightarrow> pyval \<Rightarrow> 's \<Rightarrow> pyval \<times> 's) \<Rightarrow> int \<Rightarrow> pyval \<Rightarrow> 's window \<Rightarrow> pyval \<times> 's window" where
  "window_filt filt now v w =
     (case filt now v (filter_obj w) of (x, f) \<Rightarrow> window_value now v x (w\<lparr>filter_obj := f\<rparr>))"

section \<open>The contract of filters\<close>

locale value_filter =
  fixes filt :: "int \<Rightarrow> pyval \<Rightarrow> 's \<Rightarrow> pyval \<times> 's"
  assumes selects: "fst (filt now v s) = PNone \<or> fst (filt now v s) = v"
begin

lemma window_selects: "fst (window_filt filt now v w) = PNone \<or> fst (window_filt filt now v w) = v"
  using selects [of now v "filter_obj w"] by (auto simp: window_filt_def window_value_def split: prod.splits)

lemma window_end:
  assumes "next_window_time w \<le> of_int now" "v \<noteq> PNone" "\<not> sample_passed w"
  shows "fst (window_filt filt now v w) = v"
  using assms selects [of now v "filter_obj w"] by (auto simp: window_filt_def window_value_def split: prod.splits)

end

text \<open>The outputs of a filter on a stream of samples with their times.\<close>

primrec filter_stream ::
  "(int \<Rightarrow> pyval \<Rightarrow> 's \<Rightarrow> pyval \<times> 's) \<Rightarrow> (int \<times> pyval) list \<Rightarrow> 's \<Rightarrow> pyval list \<times> 's" where
  "filter_stream filt [] s = ([], s)"
| "filter_stream filt (p # ps) s =
     (case filt (fst p) (snd p) s of
        (x, s1) \<Rightarrow> (case filter_stream filt ps s1 of (xs, s2) \<Rightarrow> (x # xs, s2)))"

lemma filter_stream_append:
  "filter_stream filt (ps @ qs) s =
     (fst (filter_stream filt ps s) @ fst (filter_stream filt qs (snd (filter_stream filt ps s))),
      snd (filter_stream filt qs (snd (filter_stream filt ps s))))"
  by (induction ps arbitrary: s) (auto split: prod.splits)

context value_filter
begin

lemma window_inside:
  assumes "\<forall>p\<in>set ps. of_int (fst p) < next_window_time w"
  shows "sample_passed (snd (filter_stream (window_filt filt) ps w)) \<longleftrightarrow>
      sample_passed w \<or> (\<exists>x\<in>set (fst (filter_stream (window_filt filt) ps w)). x \<noteq> PNone)"
    and "next_window_time (snd (filter_stream (window_filt filt) ps w)) = next_window_time w"
proof -
  have "(sample_passed (snd (filter_stream (window_filt filt) ps w)) \<longleftrightarrow>
      sample_passed w \<or> (\<exists>x\<in>set (fst (filter_stream (window_filt filt) ps w)). x \<noteq> PNone)) \<and>
    next_window_time (snd (filter_stream (window_filt filt) ps w)) = next_window_time w"
    using assms
  proof (induction ps arbitrary: w)
    case (Cons p ps)
    obtain x f where f: "filt (fst p) (snd p) (filter_obj w) = (x, f)" by (metis prod.collapse)
    obtain w1 where w1: "window_filt filt (fst p) (snd p) w = (x, w1)" "next_window_time w1 = next_window_time w"
      "sample_passed w1 \<longleftrightarrow> sample_passed w \<or> x \<noteq> PNone"
      using Cons.prems f by (auto simp: window_filt_def window_value_def)
    with Cons.IH [of w1] Cons.prems show ?case by (auto split: prod.splits)
  qed simp
  then show "sample_passed (snd (filter_stream (window_filt filt) ps w)) \<longleftrightarrow>
      sample_passed w \<or> (\<exists>x\<in>set (fst (filter_stream (window_filt filt) ps w)). x \<noteq> PNone)"
    "next_window_time (snd (filter_stream (window_filt filt) ps w)) = next_window_time w" by auto
qed

text \<open>A window with samples inside it and one at or after its end lets at least one value through.\<close>

lemma window_passes_one:
  assumes "\<forall>p\<in>set ps. of_int (fst p) < next_window_time w" "next_window_time w \<le> of_int now" "v \<noteq> PNone"
    "\<not> sample_passed w"
  shows "\<exists>x\<in>set (fst (filter_stream (window_filt filt) (ps @ [(now, v)]) w)). x \<noteq> PNone"
proof (cases "\<exists>x\<in>set (fst (filter_stream (window_filt filt) ps w)). x \<noteq> PNone")
  case True
  then show ?thesis by (auto simp: filter_stream_append)
next
  case False
  let ?w = "snd (filter_stream (window_filt filt) ps w)"
  have "\<not> sample_passed ?w" "next_window_time ?w = next_window_time w"
    using window_inside [OF assms(1)] False assms(4) by auto
  then have "fst (window_filt filt now v ?w) = v" using window_end [of ?w now v] assms(2,3) by simp
  then show ?thesis using assms(3) by (auto simp: filter_stream_append split: prod.splits)
qed

end

interpretation rf: value_filter range_filt
  by unfold_locales (auto simp: range_filt_def range_filter_value_def Let_def)

text \<open>A windowing scheme around a range filter is again a filter, so schemes nest.\<close>

interpretation wf: value_filter "window_filt range_filt"
  by unfold_locales (rule rf.window_selects)

section \<open>Range filters as intervals\<close>

definition range_set :: "filter_type \<Rightarrow> rat \<Rightarrow> rat \<Rightarrow> rat set" where
  "range_set t lo up =
     (case t of
        CLOSED \<Rightarrow> {lo..up} | OPEN \<Rightarrow> {lo<..<up} | CLOSED_OPEN \<Rightarrow> {lo..<up} | OPEN_CLOSED \<Rightarrow> {lo<..up}
      | CLOSED_REJECT \<Rightarrow> - {lo..up} | OPEN_REJECT \<Rightarrow> - {lo<..<up} | CLOSED_OPEN_REJECT \<Rightarrow> - {lo..<up}
      | OPEN_CLOSED_REJECT \<Rightarrow> - {lo<..up}
      | LESS_THAN \<Rightarrow> {..<lo} | AT_MOST \<Rightarrow> {..lo} | GREATER_THAN \<Rightarrow> {up<..} | AT_LEAST \<Rightarrow> {up..})"

lemma range_filter_set:
  "is_number v \<Longrightarrow> range_filter_value f v =
     (if number_of v \<in> range_set (rf_type f) (number_of (lower_bound f)) (number_of (upper_bound f)) then v else PNone)"
  by (cases "rf_type f") (auto simp: range_filter_value_def range_set_def Let_def)

end
