(* ===== verification/Web_Socket.thy ===== *)
theory Web_Socket
  imports Mqtt_Transport
begin

text \<open>
  The web socket transport (\<^verbatim>\<open>src/liota/lib/transports/web_socket.py\<close>) and the layers for data center components over web
  sockets and BSD sockets (\<^verbatim>\<open>src/liota/dcc_comms/websocket_dcc_comms.py\<close>, \<^verbatim>\<open>socket_comms.py\<close>). The client library and the socket
  are represented by the log of the calls made on them and a function that answers a call from the calls before it. What
  arrives is a list of messages or exceptions of \<^verbatim>\<open>recv\<close>.
\<close>

section \<open>Web socket\<close>

text \<open>\<^verbatim>\<open>create_connection\<close> with \<^verbatim>\<open>CERT_NONE\<close>, or with \<^verbatim>\<open>CERT_REQUIRED\<close> and the certificate of the authority.\<close>

datatype ws_call = Ws_connect_insecure | Ws_connect_verified string | Ws_send string | Ws_close

record websocket =
  ws_open :: bool                                     \<comment> \<open>\<^verbatim>\<open>self.ws\<close> is not \<^verbatim>\<open>None\<close>\<close>
  ws_verify_cert :: bool
  ws_identity :: "identity option"
  ws_queue :: "string list"
  ws_log :: "ws_call list"
  ws_answer :: "ws_call list \<Rightarrow> ws_call \<Rightarrow> py_error + unit"
  ws_exists :: "string \<Rightarrow> bool"
  ws_isfile :: "string \<Rightarrow> bool"

definition ws_do :: "ws_call \<Rightarrow> websocket \<Rightarrow> (websocket, unit) outcome" where
  "ws_do c s = (ws_answer s (ws_log s) c, s\<lparr>ws_log := ws_log s @ [c]\<rparr>)"

definition create_connection :: "ws_call \<Rightarrow> websocket \<Rightarrow> (websocket, unit) outcome" where
  "create_connection c = then_e (ws_do c) (modify_e (\<lambda>s. s\<lparr>ws_open := True\<rparr>))"

text \<open>An \<^verbatim>\<open>ssl.SSLError\<close> becomes a plain exception here already, which makes no difference to \<^verbatim>\<open>connect_soc\<close>, its only caller.\<close>

definition WebSocketConnection :: "websocket \<Rightarrow> (websocket, unit) outcome" where
  "WebSocketConnection s0 =
     (let s = s0\<lparr>ws_open := False\<rparr> in
      if \<not> ws_verify_cert s then create_connection Ws_connect_insecure s
      else case ws_identity s of
             None \<Rightarrow> (Inl ValueError, s)
           | Some i \<Rightarrow>
               if \<not> given (root_ca_cert i) then (Inl ValueError, s)
               else if \<not> ws_exists s (the (root_ca_cert i)) then (Inl ValueError, s)
               else if ws_isfile s (the (root_ca_cert i))
               then create_connection (Ws_connect_verified (the (root_ca_cert i))) s
               else (Inl IOError, s))"

text \<open>\<^verbatim>\<open>connect_soc\<close> turns every exception into a plain one.\<close>

definition ws_connect_soc :: "websocket \<Rightarrow> (websocket, unit) outcome" where
  "ws_connect_soc s =
     (case WebSocketConnection s of (Inl _, t) \<Rightarrow> (Inl GenericException, t) | (Inr _, t) \<Rightarrow> (Inr (), t))"

definition WebSocket :: "bool \<Rightarrow> identity option \<Rightarrow> websocket \<Rightarrow> (websocket, unit) outcome" where
  "WebSocket verify_cert ident s = ws_connect_soc (s\<lparr>ws_verify_cert := verify_cert, ws_identity := ident\<rparr>)"

definition ws_close_soc :: "websocket \<Rightarrow> (websocket, unit) outcome" where
  "ws_close_soc s = (if ws_open s then ws_do Ws_close s else (Inr (), s))"

definition ws_raw_send :: "string \<Rightarrow> websocket \<Rightarrow> (websocket, unit) outcome" where
  "ws_raw_send msg s = (if ws_open s then ws_do (Ws_send msg) s else (Inl AttributeError, s))"

text \<open>\<^verbatim>\<open>receive\<close>: an exception, or the empty message of a closed stream, closes the socket. At the end of the list the thread is
  still waiting.\<close>

primrec ws_receive :: "(py_error + string) list \<Rightarrow> websocket \<Rightarrow> (websocket, unit) outcome" where
  "ws_receive [] s = (if ws_open s then (Inr (), s) else ws_close_soc s)"
| "ws_receive (x # xs) s =
     (if \<not> ws_open s then ws_close_soc s
      else case x of
             Inl _ \<Rightarrow> ws_close_soc s
           | Inr msg \<Rightarrow> if msg = [] then ws_close_soc s else ws_receive xs (s\<lparr>ws_queue := ws_queue s @ [msg]\<rparr>))"

text \<open>The retries of \<^verbatim>\<open>send\<close>: \<open>k\<close> attempts are left.\<close>

primrec ws_retry :: "nat \<Rightarrow> string \<Rightarrow> websocket \<Rightarrow> (websocket, unit) outcome" where
  "ws_retry 0 msg s = (Inr (), s)"
| "ws_retry (Suc k) msg s =
     (case then_e ws_connect_soc (ws_raw_send msg) s of
        (Inr _, t) \<Rightarrow> (Inr (), t)
      | (Inl _, t) \<Rightarrow>
          if k = 0 then then_e ws_close_soc (raise_e GenericException) t
          else then_e ws_close_soc (ws_retry k msg) t)"

definition ws_send :: "string \<Rightarrow> websocket \<Rightarrow> (websocket, unit) outcome" where
  "ws_send msg s = (case ws_raw_send msg s of (Inr _, t) \<Rightarrow> (Inr (), t) | (Inl _, t) \<Rightarrow> ws_retry 3 msg t)"

section \<open>Layers for data center components\<close>

definition WebSocketDccComms :: "bool \<Rightarrow> identity option \<Rightarrow> websocket \<Rightarrow> (websocket, unit) outcome" where
  "WebSocketDccComms verify_cert ident s = WebSocket verify_cert ident (s\<lparr>ws_queue := []\<rparr>)"

definition ws_comms_disconnect :: "websocket \<Rightarrow> (websocket, unit) outcome" where
  "ws_comms_disconnect = raise_e NotImplementedError"

definition ws_comms_send :: "string \<Rightarrow> websocket \<Rightarrow> (websocket, unit) outcome" where
  "ws_comms_send = ws_send"

definition ws_comms_receive :: "(py_error + string) list \<Rightarrow> websocket \<Rightarrow> (websocket, unit) outcome" where
  "ws_comms_receive = ws_receive"

datatype soc_call = Soc_connect string int | Soc_sendall string | Soc_close

record socket_comms =
  soc_client :: bool
  soc_log :: "soc_call list"
  soc_answer :: "soc_call list \<Rightarrow> soc_call \<Rightarrow> py_error + unit"

definition soc_do :: "soc_call \<Rightarrow> socket_comms \<Rightarrow> (socket_comms, unit) outcome" where
  "soc_do c s = (soc_answer s (soc_log s) c, s\<lparr>soc_log := soc_log s @ [c]\<rparr>)"

definition SocketDccComms :: "string \<Rightarrow> int \<Rightarrow> socket_comms \<Rightarrow> (socket_comms, unit) outcome" where
  "SocketDccComms ip port s =
     (case soc_do (Soc_connect ip port) (s\<lparr>soc_client := True\<rparr>) of
        (Inr _, t) \<Rightarrow> (Inr (), t)
      | (Inl e, t) \<Rightarrow> then_e (soc_do Soc_close) (then_e (modify_e (\<lambda>s. s\<lparr>soc_client := False\<rparr>)) (raise_e e)) t)"

definition soc_comms_disconnect :: "socket_comms \<Rightarrow> (socket_comms, unit) outcome" where
  "soc_comms_disconnect = raise_e NotImplementedError"

definition soc_comms_send :: "string \<Rightarrow> socket_comms \<Rightarrow> (socket_comms, unit) outcome" where
  "soc_comms_send msg s = (if soc_client s then soc_do (Soc_sendall msg) s else (Inr (), s))"

definition soc_comms_receive :: "socket_comms \<Rightarrow> (socket_comms, unit) outcome" where
  "soc_comms_receive = raise_e NotImplementedError"

section \<open>Sending ends\<close>

text \<open>A stretch of calls with at most \<open>n\<close> connections and \<open>m\<close> sends, all of the message, in which a connection is verified
  if certificates are to be verified.\<close>

definition connect_ok :: "websocket \<Rightarrow> ws_call \<Rightarrow> bool" where
  "connect_ok s c \<longleftrightarrow>
     (case c of
        Ws_connect_insecure \<Rightarrow> \<not> ws_verify_cert s
      | Ws_connect_verified ca \<Rightarrow> (\<exists>i. ws_identity s = Some i \<and> root_ca_cert i = Some ca \<and> ws_exists s ca)
      | _ \<Rightarrow> True)"

definition is_connect :: "ws_call \<Rightarrow> bool" where
  "is_connect c \<longleftrightarrow> (case c of Ws_connect_insecure \<Rightarrow> True | Ws_connect_verified _ \<Rightarrow> True | _ \<Rightarrow> False)"

definition ws_calls :: "nat \<Rightarrow> nat \<Rightarrow> string \<Rightarrow> websocket \<Rightarrow> websocket \<Rightarrow> bool" where
  "ws_calls n m msg s t \<longleftrightarrow>
     (\<exists>cs p. t = s\<lparr>ws_open := p, ws_log := ws_log s @ cs\<rparr> \<and> length (filter is_connect cs) \<le> n \<and>
        length (filter (\<lambda>c. c = Ws_send msg) cs) \<le> m \<and>
        (\<forall>c\<in>set cs. connect_ok s c \<and> (\<forall>x. c = Ws_send x \<longrightarrow> x = msg)))"

lemma ws_callsI:
  "t = s\<lparr>ws_open := p, ws_log := ws_log s @ cs\<rparr> \<Longrightarrow> length (filter is_connect cs) \<le> n \<Longrightarrow>
   length (filter (\<lambda>c. c = Ws_send msg) cs) \<le> m \<Longrightarrow> \<forall>c\<in>set cs. connect_ok s c \<and> (\<forall>x. c = Ws_send x \<longrightarrow> x = msg) \<Longrightarrow> ws_calls n m msg s t"
  unfolding ws_calls_def by blast

lemma ws_calls_refl [simp]: "ws_calls 0 0 msg s s"
  by (rule ws_callsI [where cs = "[]" and p = "ws_open s"]) simp_all

lemma ws_calls_trans:
  assumes "ws_calls n m msg a b" "ws_calls n' m' msg b c"
  shows "ws_calls (n + n') (m + m') msg a c"
proof -
  obtain cs p where b: "b = a\<lparr>ws_open := p, ws_log := ws_log a @ cs\<rparr>" "length (filter is_connect cs) \<le> n"
    "length (filter (\<lambda>c. c = Ws_send msg) cs) \<le> m" "\<forall>c\<in>set cs. connect_ok a c \<and> (\<forall>x. c = Ws_send x \<longrightarrow> x = msg)"
    using assms(1) unfolding ws_calls_def by blast
  obtain ds q where c: "c = b\<lparr>ws_open := q, ws_log := ws_log b @ ds\<rparr>" "length (filter is_connect ds) \<le> n'"
    "length (filter (\<lambda>c. c = Ws_send msg) ds) \<le> m'" "\<forall>c\<in>set ds. connect_ok b c \<and> (\<forall>x. c = Ws_send x \<longrightarrow> x = msg)"
    using assms(2) unfolding ws_calls_def by blast
  have "connect_ok b = connect_ok a" by (simp add: b(1) connect_ok_def fun_eq_iff split: ws_call.split)
  with b c show ?thesis by (intro ws_callsI [where cs = "cs @ ds" and p = q]) auto
qed

lemma create_connection_calls: "\<exists>p. snd (create_connection c s) = s\<lparr>ws_open := p, ws_log := ws_log s @ [c]\<rparr>"
proof (cases "ws_answer s (ws_log s) c")
  case (Inl e)
  then show ?thesis by (intro exI [of _ "ws_open s"]) (simp add: create_connection_def ws_do_def outcome_simps)
next
  case (Inr x)
  then show ?thesis by (intro exI [of _ True]) (simp add: create_connection_def ws_do_def outcome_simps)
qed

lemma WebSocketConnection_calls:
  "snd (WebSocketConnection s) = s\<lparr>ws_open := False\<rparr> \<or>
   (\<exists>c p. connect_ok s c \<and> is_connect c \<and> snd (WebSocketConnection s) = s\<lparr>ws_open := p, ws_log := ws_log s @ [c]\<rparr>)"
proof (cases "ws_verify_cert s")
  case False
  obtain p where "snd (create_connection Ws_connect_insecure (s\<lparr>ws_open := False\<rparr>)) = s\<lparr>ws_open := p, ws_log := ws_log s @ [Ws_connect_insecure]\<rparr>"
    using create_connection_calls [of Ws_connect_insecure "s\<lparr>ws_open := False\<rparr>"] by auto
  with False show ?thesis
    by (intro disjI2 exI [of _ Ws_connect_insecure] exI [of _ p]) (simp add: WebSocketConnection_def connect_ok_def is_connect_def)
next
  case True
  show ?thesis
  proof (cases "\<exists>i ca. ws_identity s = Some i \<and> root_ca_cert i = Some ca \<and> ca \<noteq> [] \<and> ws_exists s ca \<and> ws_isfile s ca")
    case False
    with True show ?thesis by (auto simp: WebSocketConnection_def Let_def given_def split: option.split)
  next
    case True
    then obtain i ca where i: "ws_identity s = Some i" "root_ca_cert i = Some ca" "ca \<noteq> []" "ws_exists s ca" "ws_isfile s ca" by blast
    obtain p where "snd (create_connection (Ws_connect_verified ca) (s\<lparr>ws_open := False\<rparr>)) =
        s\<lparr>ws_open := p, ws_log := ws_log s @ [Ws_connect_verified ca]\<rparr>"
      using create_connection_calls [of "Ws_connect_verified ca" "s\<lparr>ws_open := False\<rparr>"] by auto
    with i \<open>ws_verify_cert s\<close> show ?thesis
      by (intro disjI2 exI [of _ "Ws_connect_verified ca"] exI [of _ p])
         (simp add: WebSocketConnection_def connect_ok_def is_connect_def given_def)
  qed
qed

lemma ws_calls_mono: "ws_calls n m msg s t \<Longrightarrow> n \<le> n' \<Longrightarrow> m \<le> m' \<Longrightarrow> ws_calls n' m' msg s t"
  unfolding ws_calls_def by (elim exE conjE, intro exI conjI) auto

lemma ws_connect_calls: "ws_calls (Suc 0) 0 msg s (snd (ws_connect_soc s))"
proof -
  have "snd (ws_connect_soc s) = snd (WebSocketConnection s)" by (simp add: ws_connect_soc_def split: prod.split sum.split)
  moreover have "ws_calls (Suc 0) 0 msg s (s\<lparr>ws_open := p\<rparr>)" for p by (rule ws_callsI [where cs = "[]" and p = p]) simp_all
  moreover have "ws_calls (Suc 0) 0 msg s (s\<lparr>ws_open := p, ws_log := ws_log s @ [c]\<rparr>)" if "connect_ok s c" "is_connect c" for c p
    using that by (intro ws_callsI [where cs = "[c]" and p = p]) (auto simp: is_connect_def split: ws_call.splits)
  ultimately show ?thesis using WebSocketConnection_calls [of s] by auto
qed

lemma ws_do_calls:
  assumes "\<not> is_connect c" "\<forall>x. c = Ws_send x \<longrightarrow> x = msg"
  shows "ws_calls 0 (if c = Ws_send msg then Suc 0 else 0) msg s (snd (ws_do c s))"
proof (rule ws_callsI [where cs = "[c]" and p = "ws_open s"])
  show "\<forall>d\<in>set [c]. connect_ok s d \<and> (\<forall>x. d = Ws_send x \<longrightarrow> x = msg)"
    using assms by (cases c) (simp_all add: connect_ok_def is_connect_def)
qed (use assms(1) in \<open>simp_all add: ws_do_def\<close>)

lemma ws_raw_send_calls: "ws_calls 0 (Suc 0) msg s (snd (ws_raw_send msg s))"
proof (cases "ws_open s")
  case True
  then show ?thesis using ws_do_calls [of "Ws_send msg" msg s] by (simp add: ws_raw_send_def is_connect_def)
qed (rule ws_callsI [where cs = "[]" and p = "ws_open s"], simp_all add: ws_raw_send_def)

lemma ws_close_calls: "ws_calls 0 0 msg s (snd (ws_close_soc s))"
  using ws_do_calls [of Ws_close msg s] by (simp add: ws_close_soc_def is_connect_def)

lemma ws_calls_then:
  assumes "\<And>s. ws_calls n m msg s (snd (f s))" "\<And>s. ws_calls n' m' msg s (snd (g s))"
  shows "ws_calls (n + n') (m + m') msg s (snd (then_e f g s))"
proof -
  obtain r t where f: "f s = (r, t)" by (metis prod.collapse)
  show ?thesis
  proof (cases r)
    case (Inl e)
    have "ws_calls n m msg s t" using assms(1) [of s] f by simp
    then have "ws_calls (n + n') (m + m') msg s t" by (rule ws_calls_mono) simp_all
    with f Inl show ?thesis by (simp add: then_e_def bind_e_def)
  next
    case (Inr x)
    with f assms(1) [of s] assms(2) [of t] ws_calls_trans show ?thesis by (fastforce simp: then_e_def bind_e_def)
  qed
qed

lemma ws_attempt_calls: "ws_calls (Suc 0) (Suc 0) msg s (snd (then_e ws_connect_soc (ws_raw_send msg) s))"
  using ws_calls_then [OF ws_connect_calls ws_raw_send_calls, of msg s] by simp

text \<open>\<open>k\<close> attempts make at most \<open>k\<close> connections and send the message at most \<open>k\<close> times.\<close>

lemma ws_retry_calls: "ws_calls k k msg s (snd (ws_retry k msg s))"
proof (induction k arbitrary: s)
  case (Suc k)
  obtain r t where a: "then_e ws_connect_soc (ws_raw_send msg) s = (r, t)" by (metis prod.collapse)
  then have c: "ws_calls (Suc 0) (Suc 0) msg s t" using ws_attempt_calls [of msg s] by simp
  have "ws_calls 0 0 msg u (snd (then_e ws_close_soc (raise_e GenericException :: websocket \<Rightarrow> (websocket, unit) outcome) u))"
    "ws_calls k k msg u (snd (then_e ws_close_soc (ws_retry k msg) u))" for u :: websocket
    using ws_calls_then [OF ws_close_calls, of 0 0 msg "raise_e GenericException :: websocket \<Rightarrow> (websocket, unit) outcome" u]
      ws_calls_then [OF ws_close_calls Suc.IH, of u] by (simp_all add: raise_e_def)
  note rest = this [of t]
  have "ws_calls (Suc 0 + k) (Suc 0 + k) msg s (snd (if k = 0 then then_e ws_close_soc (raise_e GenericException) t
      else then_e ws_close_soc (ws_retry k msg) t))"
    using ws_calls_trans [OF c rest(1)] ws_calls_trans [OF c rest(2)] by simp
  with a c show ?case by (cases r) (auto intro: ws_calls_mono)
qed simp

lemma ws_send_calls: "ws_calls 3 4 msg s (snd (ws_send msg s))"
proof -
  obtain r t where a: "ws_raw_send msg s = (r, t)" by (metis prod.collapse)
  then have c: "ws_calls 0 (Suc 0) msg s t" using ws_raw_send_calls [of msg s] by simp
  show ?thesis
  proof (cases r)
    case (Inl e)
    with a ws_calls_trans [OF c ws_retry_calls [of 3 msg t]] show ?thesis by (simp add: ws_send_def)
  next
    case (Inr x)
    with a c show ?thesis by (auto simp: ws_send_def intro: ws_calls_mono)
  qed
qed

text \<open>Success means that the client accepted the message, with the last call.\<close>

definition accepted :: "string \<Rightarrow> websocket \<Rightarrow> bool" where
  "accepted msg t \<longleftrightarrow> (\<exists>h. ws_log t = h @ [Ws_send msg] \<and> ws_answer t h (Ws_send msg) = Inr ())"

lemma ws_raw_send_accepted: "ws_raw_send msg s = (Inr (), t) \<Longrightarrow> accepted msg t"
  by (auto simp: ws_raw_send_def ws_do_def accepted_def split: if_splits)

lemma ws_retry_accepted: "ws_retry k msg s = (Inr (), t) \<Longrightarrow> 0 < k \<Longrightarrow> accepted msg t"
proof (induction k arbitrary: s)
  case (Suc k)
  obtain r u where a: "then_e ws_connect_soc (ws_raw_send msg) s = (r, u)" by (metis prod.collapse)
  show ?case
  proof (cases r)
    case (Inl e)
    with a Suc show ?thesis by (cases "k = 0") (auto simp: then_e_def bind_e_Inr raise_e_def)
  next
    case (Inr x)
    with a Suc.prems have "t = u" by simp
    with a Inr ws_raw_send_accepted show ?thesis by (auto simp: then_e_def bind_e_Inr)
  qed
qed simp

lemma ws_send_accepted: "ws_send msg s = (Inr (), t) \<Longrightarrow> accepted msg t"
  using ws_raw_send_accepted ws_retry_accepted [of 3] by (auto simp: ws_send_def split: prod.splits sum.splits)

end
