(* ===== verification/Si_Units.thy ===== *)
theory Si_Units
  imports Py_Values "HOL-Library.Multiset"
begin

text \<open>
  Names of units (\<^verbatim>\<open>src/liota/lib/utilities/si_unit.py\<close>). The text of a unit, as the library pint prints it, is turned into
  the name of the SI standard by regular expressions. The part of \<^verbatim>\<open>re\<close> that the module uses is modelled: characters,
  \<^verbatim>\<open>\\s\<close>, \<^verbatim>\<open>\\d\<close>, \<^verbatim>\<open>\\b\<close> and one group of alternatives, with \<^verbatim>\<open>search\<close> and \<^verbatim>\<open>sub\<close> (leftmost, not overlapping). The dictionaries
  of rules are keyed by pattern objects, whose hashes are addresses, so their order is an argument. The registry of units
  of pint is an argument, too. Floats are rationals.
\<close>

section \<open>Regular expressions\<close>

datatype re_char = Lit char | Space | Digit | WordB

record re_pat =
  p_before :: "re_char list"
  p_group :: "re_char list list"                      \<comment> \<open>the alternatives of the group\<close>
  p_after :: "re_char list"

abbreviation lits :: "string \<Rightarrow> re_char list" where "lits s \<equiv> map Lit s"

definition is_word_char :: "char \<Rightarrow> bool" where
  "is_word_char c = (is_alnum c \<or> c = CHR ''_'')"

definition is_digit_char :: "char \<Rightarrow> bool" where
  "is_digit_char c = (c \<in> set ''0123456789'')"

text \<open>\<^verbatim>\<open>\\b\<close> between the character before and the text that follows.\<close>

definition word_boundary :: "char option \<Rightarrow> string \<Rightarrow> bool" where
  "word_boundary prev s =
     ((case prev of None \<Rightarrow> False | Some c \<Rightarrow> is_word_char c) \<noteq> (case s of [] \<Rightarrow> False | c # _ \<Rightarrow> is_word_char c))"

text \<open>A match is the text consumed and the rest.\<close>

fun match_chars :: "re_char list \<Rightarrow> char option \<Rightarrow> string \<Rightarrow> (string \<times> string) option" where
  "match_chars [] prev s = Some ([], s)"
| "match_chars (WordB # ms) prev s = (if word_boundary prev s then match_chars ms prev s else None)"
| "match_chars (m # ms) prev [] = None"
| "match_chars (m # ms) prev (x # xs) =
     (if (case m of Lit c \<Rightarrow> x = c | Space \<Rightarrow> is_space x | Digit \<Rightarrow> is_digit_char x | WordB \<Rightarrow> False)
      then map_option (\<lambda>(u, r). (x # u, r)) (match_chars ms (Some x) xs) else None)"

definition last_char :: "char option \<Rightarrow> string \<Rightarrow> char option" where
  "last_char prev u = (if u = [] then prev else Some (last u))"

text \<open>The first alternative with which the rest of the pattern matches; the result has the text of the group, of the whole
  match, and the rest.\<close>

primrec match_group ::
  "re_char list list \<Rightarrow> re_char list \<Rightarrow> char option \<Rightarrow> string \<Rightarrow> (string \<times> string \<times> string) option" where
  "match_group [] after prev s = None"
| "match_group (alt # alts) after prev s =
     (case match_chars alt prev s of
        None \<Rightarrow> match_group alts after prev s
      | Some (g, r) \<Rightarrow>
          (case match_chars after (last_char prev g) r of
             None \<Rightarrow> match_group alts after prev s
           | Some (w, r') \<Rightarrow> Some (g, g @ w, r')))"

definition re_match :: "re_pat \<Rightarrow> char option \<Rightarrow> string \<Rightarrow> (string \<times> string \<times> string) option" where
  "re_match p prev s =
     (case match_chars (p_before p) prev s of
        None \<Rightarrow> None
      | Some (u, r) \<Rightarrow>
          (case match_group (p_group p) (p_after p) (last_char prev u) r of
             None \<Rightarrow> None | Some (g, w, r') \<Rightarrow> Some (g, u @ w, r')))"

fun re_search_from :: "re_pat \<Rightarrow> char option \<Rightarrow> string \<Rightarrow> bool" where
  "re_search_from p prev [] = (re_match p prev [] \<noteq> None)"
| "re_search_from p prev (x # xs) = (re_match p prev (x # xs) \<noteq> None \<or> re_search_from p (Some x) xs)"

definition re_search :: "re_pat \<Rightarrow> string \<Rightarrow> bool" where
  "re_search p s = re_search_from p None s"

lemma match_chars_append: "match_chars ms prev s = Some (u, r) \<Longrightarrow> s = u @ r"
  by (induction ms prev s arbitrary: u r rule: match_chars.induct) (auto split: if_splits)

lemma match_group_append: "match_group alts after prev s = Some (g, w, r) \<Longrightarrow> s = w @ r \<and> set g \<subseteq> set s"
  by (induction alts) (auto split: option.splits dest!: match_chars_append)

lemma re_match_append: "re_match p prev s = Some (g, m, r) \<Longrightarrow> s = m @ r \<and> set g \<subseteq> set s"
  by (auto simp: re_match_def split: option.splits dest!: match_chars_append match_group_append)

text \<open>\<^verbatim>\<open>sub\<close>: the replacement may use the group. No pattern of the module matches the empty text, which is skipped here.\<close>

function re_sub_from :: "re_pat \<Rightarrow> (string \<Rightarrow> string) \<Rightarrow> char option \<Rightarrow> string \<Rightarrow> string" where
  "re_sub_from p repl prev [] = []"
| "re_sub_from p repl prev (x # xs) =
     (case re_match p prev (x # xs) of
        None \<Rightarrow> x # re_sub_from p repl (Some x) xs
      | Some (g, m, r) \<Rightarrow>
          if m = [] then x # re_sub_from p repl (Some x) xs else repl g @ re_sub_from p repl (Some (last m)) r)"
  by pat_completeness auto
termination
proof (relation "measure (\<lambda>(p, repl, prev, s). length s)")
  fix p :: re_pat and repl :: "string \<Rightarrow> string" and prev x xs y g z m r
  assume "re_match p prev (x # xs) = Some y" "(g, z) = y" "(m, r) = z" "m \<noteq> []"
  then have "x # xs = m @ r" using re_match_append by blast
  with \<open>m \<noteq> []\<close> show "((p, repl, Some (last m), r), (p, repl, prev, x # xs)) \<in> measure (\<lambda>(p, repl, prev, s). length s)"
    by (cases m) auto
qed auto

definition re_sub :: "re_pat \<Rightarrow> (string \<Rightarrow> string) \<Rightarrow> string \<Rightarrow> string" where
  "re_sub p repl s = re_sub_from p repl None s"

text \<open>\<^verbatim>\<open>sub\<close> with \<^verbatim>\<open>count=1\<close>.\<close>

fun re_sub_once_from :: "re_pat \<Rightarrow> (string \<Rightarrow> string) \<Rightarrow> char option \<Rightarrow> string \<Rightarrow> string" where
  "re_sub_once_from p repl prev [] = []"
| "re_sub_once_from p repl prev (x # xs) =
     (case re_match p prev (x # xs) of
        None \<Rightarrow> x # re_sub_once_from p repl (Some x) xs
      | Some (g, m, r) \<Rightarrow> repl g @ r)"

definition re_sub_once :: "re_pat \<Rightarrow> (string \<Rightarrow> string) \<Rightarrow> string \<Rightarrow> string" where
  "re_sub_once p repl s = re_sub_once_from p repl None s"

section \<open>Tables\<close>

definition prefixes :: "(rat \<times> string) list" where
  "prefixes =
     [(10, ''deca''), (1/10, ''deci''), (10^2, ''hecto''), (1/10^2, ''centi''), (10^3, ''kilo''), (1/10^3, ''milli''),
      (10^6, ''mega''), (1/10^6, ''micro''), (10^9, ''giga''), (1/10^9, ''nano''), (10^12, ''tera''), (1/10^12, ''pico''),
      (10^15, ''peta''), (1/10^15, ''femto''), (10^18, ''exa''), (1/10^18, ''atto''), (10^21, ''zetta''), (1/10^21, ''zepto''),
      (10^24, ''yotta''), (1/10^24, ''yocto'')]"

definition prefixes_long :: "string list" where
  "prefixes_long = map snd prefixes"

text \<open>A rule is a pattern and its replacement.\<close>

type_synonym re_rule = "re_pat \<times> (string \<Rightarrow> string)"

definition plain_pat :: "re_char list \<Rightarrow> re_pat" where
  "plain_pat ms = \<lparr>p_before = ms, p_group = [[]], p_after = []\<rparr>"

definition re_obj_replaces :: "re_rule list" where
  "re_obj_replaces =
     [(plain_pat ([WordB] @ lits ''meter'' @ [WordB]), \<lambda>_. ''metre''),
      (plain_pat ([WordB] @ lits ''degC'' @ [WordB]), \<lambda>_. ''degree Celsius''),
      (plain_pat (lits ''Bq'' @ [WordB]), \<lambda>_. ''becquerel''),
      (plain_pat (lits ''Gy'' @ [WordB]), \<lambda>_. ''gray''),
      (plain_pat (lits ''**'' @ [Space, Lit CHR ''2'', WordB]), \<lambda>_. ''squared''),
      (plain_pat (lits ''**'' @ [Space, Lit CHR ''3'', WordB]), \<lambda>_. ''cubed''),
      (plain_pat (lits ''**'' @ [Space, Lit CHR ''4'', WordB]), \<lambda>_. ''to the fourth power''),
      (\<lparr>p_before = [WordB, Lit CHR ''1'', Space, Lit CHR ''/'', Space], p_group = [lits ''meter'', lits ''metre''], p_after = []\<rparr>,
         \<lambda>g. ''reciprocal '' @ g),
      (plain_pat [Space, Lit CHR ''*'', Space], \<lambda>_. '' '')]"

definition kelvin_or_celsius :: "re_char list list" where
  "kelvin_or_celsius = [lits ''kelvin'', lits ''degree'' @ [Space] @ lits ''Celsius'']"

definition re_obj_patches :: "re_rule list" where
  "re_obj_patches =
     [(plain_pat (lits ''metre'' @ [Space] @ lits ''squared''), \<lambda>_. ''square metre''),
      (plain_pat (lits ''metre'' @ [Space] @ lits ''cubed''), \<lambda>_. ''cubic metre''),
      (\<lparr>p_before = [], p_group = kelvin_or_celsius, p_after = [Space] @ lits ''kilogram''\<rparr>, \<lambda>g. ''kilogram '' @ g),
      (\<lparr>p_before = [], p_group = kelvin_or_celsius, p_after = [Space] @ lits ''metre''\<rparr>, \<lambda>g. ''metre '' @ g),
      (\<lparr>p_before = [], p_group = kelvin_or_celsius, p_after = [Space] @ lits ''mole''\<rparr>, \<lambda>g. ''mole '' @ g),
      (plain_pat (lits ''metre'' @ [Space] @ lits ''newton''), \<lambda>_. ''newton metre'')]"

section \<open>Names\<close>

definition apply_rules :: "re_rule list \<Rightarrow> string \<Rightarrow> string" where
  "apply_rules rules s = fold (\<lambda>r t. re_sub (fst r) (snd r) t) rules s"

definition power_pat :: re_pat where
  "power_pat = \<lparr>p_before = lits ''**'' @ [Space], p_group = [lits ''-'', []], p_after = [Digit]\<rparr>"

definition slash_pat :: re_pat where
  "slash_pat = plain_pat [Space, Lit CHR ''/'', Space]"

text \<open>\<^verbatim>\<open>_get_unit_name\<close> of the text of a unit; \<^verbatim>\<open>UnsupportedUnitError\<close> is a \<open>ValueError\<close>.\<close>

definition get_unit_name :: "re_rule list \<Rightarrow> re_rule list \<Rightarrow> string option \<Rightarrow> py_error + string option" where
  "get_unit_name replaces patches u =
     (case u of
        None \<Rightarrow> Inr None
      | Some s \<Rightarrow>
          if s = ''dimensionless'' then Inr None
          else
            let t = apply_rules replaces s in
            if re_search power_pat t then Inl ValueError
            else if re_search (plain_pat [Digit]) t then Inl ValueError
            else
              let t1 = re_sub_once slash_pat (\<lambda>_. '' per '') t;
                  t2 = re_sub_once slash_pat (\<lambda>_. '' '') t1
              in Inr (Some (apply_rules patches t2)))"

text \<open>What the module uses of the registry: the text of a unit, the name of the default system, units by name, the factor and
  the base units of a unit, equality.\<close>

record 'u unit_registry =
  ur_str :: "'u \<Rightarrow> string"
  ur_default_system :: string
  ur_attr :: "string \<Rightarrow> py_error + 'u"
  ur_base :: "'u \<Rightarrow> py_error + rat \<times> 'u"
  ur_dimensionless :: "'u \<Rightarrow> bool"

text \<open>\<^verbatim>\<open>re_obj_prefixed\<close>: no prefix is the beginning of another one. \<^verbatim>\<open>$\<close> matches before a line feed at the end.\<close>

definition prefixed :: "string \<Rightarrow> (string \<times> string) option" where
  "prefixed s =
     (case List.find (\<lambda>p. startswith s p \<and> class_match (\<lambda>c. \<not> is_space c) (drop (length p) s)) prefixes_long of
        None \<Rightarrow> None
      | Some p \<Rightarrow> Some (p, takeWhile (\<lambda>c. \<not> is_space c) (drop (length p) s)))"

definition get_prefix :: "rat \<Rightarrow> py_error + string" where
  "get_prefix multiplier = (case dict_get prefixes multiplier of None \<Rightarrow> Inl KeyError | Some p \<Rightarrow> Inr p)"

text \<open>The second part of \<^verbatim>\<open>parse_unit\<close>, by conversion to base units.\<close>

definition parse_by_base ::
  "re_rule list \<Rightarrow> re_rule list \<Rightarrow> 'u unit_registry \<Rightarrow> 'u \<Rightarrow> py_error + string option \<times> string option" where
  "parse_by_base replaces patches ur u =
     bind_r (ur_base ur u) (\<lambda>(factor, base).
       if factor = 1 then
         bind_r (get_unit_name replaces patches (if ur_dimensionless ur base then None else Some (ur_str ur u)))
           (\<lambda>n. Inr (None, n))
       else case get_prefix factor of
              Inl _ \<Rightarrow> Inl ValueError
            | Inr p \<Rightarrow>
                if re_search (plain_pat [Digit]) (ur_str ur base) then Inl ValueError
                else bind_r (get_unit_name replaces patches (Some (ur_str ur base))) (\<lambda>n. Inr (Some p, n)))"

definition si_parse_unit ::
  "re_rule list \<Rightarrow> re_rule list \<Rightarrow> 'u unit_registry \<Rightarrow> 'u option \<Rightarrow> py_error + string option \<times> string option" where
  "si_parse_unit replaces patches ur unit =
     (case unit of
        None \<Rightarrow> Inr (None, None)
      | Some u \<Rightarrow>
          if ur_default_system ur \<noteq> ''mks'' then Inl AssertionError
          else case prefixed (ur_str ur u) of
                 None \<Rightarrow> parse_by_base replaces patches ur u
               | Some (p, name) \<Rightarrow>
                   bind_r (ur_attr ur name) (\<lambda>v.
                   bind_r (ur_base ur v) (\<lambda>(factor, base).
                     if factor = 1 then bind_r (get_unit_name replaces patches (Some (ur_str ur v))) (\<lambda>n. Inr (Some p, n))
                     else parse_by_base replaces patches ur u)))"

section \<open>Names have no digits\<close>

text \<open>Rules bring only characters of the text and of their replacements.\<close>

lemma re_sub_from_set:
  "c \<in> set (re_sub_from p repl prev s) \<Longrightarrow> c \<in> set s \<or> (\<exists>g. set g \<subseteq> set s \<and> c \<in> set (repl g))"
proof (induction p repl prev s rule: re_sub_from.induct)
  case (2 p repl prev x xs)
  show ?case
  proof (cases "\<exists>g m r. re_match p prev (x # xs) = Some (g, m, r) \<and> m \<noteq> []")
    case True
    then obtain g m r where m: "re_match p prev (x # xs) = Some (g, m, r)" "m \<noteq> []" by blast
    then have "x # xs = m @ r" "set g \<subseteq> set (x # xs)" using re_match_append by blast+
    then have sub: "set r \<subseteq> set (x # xs)" "set g \<subseteq> set (x # xs)" by auto
    have "c \<in> set (repl g) \<or> c \<in> set (re_sub_from p repl (Some (last m)) r)" using 2(4) m by simp
    then show ?thesis
    proof
      assume "c \<in> set (re_sub_from p repl (Some (last m)) r)"
      with 2(3) [OF m(1) refl refl m(2)] sub show ?thesis by blast
    qed (use sub in blast)
  next
    case False
    then have "re_match p prev (x # xs) = None \<or> (\<exists>g r. re_match p prev (x # xs) = Some (g, [], r))"
      by (cases "re_match p prev (x # xs)") auto
    then have "c = x \<or> c \<in> set (re_sub_from p repl (Some x) xs)" using 2(4) by (auto split: option.splits)
    moreover have "c \<in> set (re_sub_from p repl (Some x) xs) \<longrightarrow> c \<in> set xs \<or> (\<exists>g. set g \<subseteq> set xs \<and> c \<in> set (repl g))"
    proof
      assume c: "c \<in> set (re_sub_from p repl (Some x) xs)"
      show "c \<in> set xs \<or> (\<exists>g. set g \<subseteq> set xs \<and> c \<in> set (repl g))"
      proof (cases "re_match p prev (x # xs)")
        case None
        from 2(1) [OF None c] show ?thesis .
      next
        case (Some y)
        then obtain g r where y: "re_match p prev (x # xs) = Some (g, [], r)" using False by (cases y) auto
        from 2(2) [OF y refl refl refl c] show ?thesis .
      qed
    qed
    ultimately show ?thesis by auto
  qed
qed simp

lemma re_sub_once_from_set:
  "c \<in> set (re_sub_once_from p repl prev s) \<Longrightarrow> c \<in> set s \<or> (\<exists>g. set g \<subseteq> set s \<and> c \<in> set (repl g))"
proof (induction p repl prev s rule: re_sub_once_from.induct)
  case (2 p repl prev x xs)
  show ?case
  proof (cases "re_match p prev (x # xs)")
    case (Some y)
    then obtain g m r where y: "re_match p prev (x # xs) = Some (g, m, r)" by (cases y) auto
    then have "x # xs = m @ r" "set g \<subseteq> set (x # xs)" using re_match_append by blast+
    then have "set r \<subseteq> set (x # xs)" "set g \<subseteq> set (x # xs)" by auto
    moreover have "c \<in> set (repl g) \<or> c \<in> set r" using 2(2) y by simp
    ultimately show ?thesis by blast
  next
    case None
    with 2 show ?thesis by auto
  qed
qed simp

definition digit_free :: "string \<Rightarrow> bool" where
  "digit_free s \<longleftrightarrow> (\<forall>c\<in>set s. \<not> is_digit_char c)"

text \<open>A replacement without digits for a group without digits.\<close>

definition brings_no_digit :: "(string \<Rightarrow> string) \<Rightarrow> bool" where
  "brings_no_digit repl \<longleftrightarrow> (\<forall>g. digit_free g \<longrightarrow> digit_free (repl g))"

lemma digit_free_sub:
  assumes "digit_free s" "brings_no_digit repl"
  shows "digit_free (re_sub p repl s)" "digit_free (re_sub_once p repl s)"
proof -
  have "digit_free (repl g)" if "set g \<subseteq> set s" for g
    using that assms unfolding brings_no_digit_def digit_free_def by blast
  then show "digit_free (re_sub p repl s)" "digit_free (re_sub_once p repl s)"
    using assms(1) re_sub_from_set re_sub_once_from_set unfolding digit_free_def re_sub_def re_sub_once_def by blast+
qed

lemma digit_free_rules: "digit_free s \<Longrightarrow> \<forall>r\<in>set rules. brings_no_digit (snd r) \<Longrightarrow> digit_free (apply_rules rules s)"
  unfolding apply_rules_def by (induction rules arbitrary: s) (auto simp: digit_free_sub)

lemma patches_no_digit: "\<forall>r\<in>set re_obj_patches. brings_no_digit (snd r)"
  by (simp add: re_obj_patches_def brings_no_digit_def digit_free_def is_digit_char_def)

lemma search_digit: "re_search_from (plain_pat [Digit]) prev s \<longleftrightarrow> (\<exists>c\<in>set s. is_digit_char c)"
proof (induction s arbitrary: prev)
  case (Cons x s)
  then show ?case by (simp add: re_match_def plain_pat_def split: option.split)
qed (simp add: re_match_def plain_pat_def)

lemma unit_name_digit_free:
  assumes "get_unit_name rs ps u = Inr (Some n)" "set ps \<subseteq> set re_obj_patches"
  shows "digit_free n"
proof -
  obtain t where t: "\<not> re_search (plain_pat [Digit]) t"
    "n = apply_rules ps (re_sub_once slash_pat (\<lambda>_. '' '') (re_sub_once slash_pat (\<lambda>_. '' per '') t))"
    using assms(1) by (auto simp: get_unit_name_def Let_def split: option.splits if_splits)
  have "digit_free t" using t(1) by (auto simp: re_search_def search_digit digit_free_def)
  moreover have "brings_no_digit (\<lambda>_. '' '')" "brings_no_digit (\<lambda>_. '' per '')"
    by (simp_all add: brings_no_digit_def digit_free_def is_digit_char_def)
  ultimately show ?thesis using t(2) assms(2) patches_no_digit by (auto intro!: digit_free_rules digit_free_sub)
qed

text \<open>A prefix is one of the standard, and stands for the factor between the unit and the one that is named.\<close>

lemma get_prefix_Inr: "get_prefix f = Inr p \<Longrightarrow> (f, p) \<in> set prefixes"
  by (auto simp: get_prefix_def split: option.splits dest: map_of_SomeD)

lemma prefixed_Some: "prefixed s = Some (p, n) \<Longrightarrow> p \<in> set prefixes_long \<and> (s = p @ n \<or> s = p @ n @ [LF])"
proof -
  assume a: "prefixed s = Some (p, n)"
  let ?P = "\<lambda>p. startswith s p \<and> class_match (\<lambda>c. \<not> is_space c) (drop (length p) s)"
  have f: "List.find ?P prefixes_long = Some p" and n: "n = takeWhile (\<lambda>c. \<not> is_space c) (drop (length p) s)"
    using a by (auto simp: prefixed_def split: option.splits)
  then have p: "p \<in> set prefixes_long" "startswith s p" "class_match (\<lambda>c. \<not> is_space c) (drop (length p) s)"
    unfolding find_Some_iff by auto
  obtain t where t: "s = p @ t" using p(2) by (auto simp: startswith_prefix)
  show ?thesis
  proof (cases "list_all (\<lambda>c. \<not> is_space c) t")
    case True
    then have "n = t" using n t by (simp add: list_all_iff takeWhile_eq_all_conv)
    with p t show ?thesis by simp
  next
    case False
    then have "t = butlast t @ [LF]" "list_all (\<lambda>c. \<not> is_space c) (butlast t)"
      using p(3) t by (auto simp: class_match_def) (metis append_butlast_last_id list.size(3) not_numeral_le_zero)
    then have "n = butlast t"
      using n t takeWhile_append [of "\<lambda>c. \<not> is_space c" "butlast t" "[LF]"]
      by (simp add: list_all_iff is_space_def takeWhile_eq_all_conv)
    with p t \<open>t = butlast t @ [LF]\<close> show ?thesis by metis
  qed
qed

lemma parse_by_base_Inr:
  assumes "parse_by_base rs ps ur u = Inr (p, n)" "set ps \<subseteq> set re_obj_patches"
  shows "(\<forall>x. n = Some x \<longrightarrow> digit_free x) \<and>
    (\<forall>x. p = Some x \<longrightarrow> (\<exists>f base. (f, x) \<in> set prefixes \<and> ur_base ur u = Inr (f, base)))"
  using assms
  by (auto simp: parse_by_base_def bind_r_Inr split: if_splits sum.splits option.splits
      dest!: get_prefix_Inr dest: unit_name_digit_free)

lemma parse_unit_Inr:
  assumes "si_parse_unit rs ps ur (Some u) = Inr (p, n)" "set ps \<subseteq> set re_obj_patches"
  shows "(\<forall>x. n = Some x \<longrightarrow> digit_free x) \<and>
    (\<forall>x. p = Some x \<longrightarrow> (\<exists>f base. (f, x) \<in> set prefixes \<and> ur_base ur u = Inr (f, base)) \<or>
       (x \<in> set prefixes_long \<and> (\<exists>name v base. startswith (ur_str ur u) (x @ name) \<and> ur_attr ur name = Inr v \<and> ur_base ur v = Inr (1, base))))"
proof (cases "prefixed (ur_str ur u)")
  case None
  then show ?thesis using assms parse_by_base_Inr [of rs ps ur u p n] by (auto simp: si_parse_unit_def split: if_splits)
next
  case (Some pn)
  obtain q name where q: "prefixed (ur_str ur u) = Some (q, name)" using Some by (cases pn) auto
  have s: "q \<in> set prefixes_long" "startswith (ur_str ur u) (q @ name)"
    using prefixed_Some [OF q] by (auto simp: startswith_prefix)
  show ?thesis using assms parse_by_base_Inr [of rs ps ur u p n] s q unit_name_digit_free
    by (auto simp: si_parse_unit_def bind_r_Inr split: if_splits)
qed

section \<open>The order of the rules\<close>

abbreviation apply_all :: "('a \<Rightarrow> 'a) list \<Rightarrow> 'a \<Rightarrow> 'a" where "apply_all fs \<equiv> fold (\<lambda>f. f) fs"

text \<open>Functions that commute on a set they do not leave may be applied in any order.\<close>

lemma fold_commute_one:
  assumes "\<forall>g\<in>set gs. \<forall>x\<in>C. g x \<in> C \<and> f (g x) = g (f x)" "\<forall>x\<in>C. f x \<in> C" "x \<in> C"
  shows "apply_all gs (f x) = f (apply_all gs x) \<and> apply_all gs x \<in> C"
  using assms(1,3)
proof (induction gs arbitrary: x)
  case (Cons g gs)
  then have "g x \<in> C" "g (f x) = f (g x)" by auto
  with Cons.IH [of "g x"] Cons.prems(1) show ?case by simp
qed simp

lemma fold_any_order:
  assumes "\<forall>f\<in>set fs. \<forall>x\<in>C. f x \<in> C" "\<forall>f\<in>set fs. \<forall>g\<in>set fs. \<forall>x\<in>C. f (g x) = g (f x)" "mset gs = mset fs" "x \<in> C"
  shows "apply_all gs x = apply_all fs x"
  using assms
proof (induction fs arbitrary: gs x)
  case (Cons f fs)
  have "f \<in> set gs" using Cons.prems(3) by (metis list.set_intros(1) set_mset_mset)
  then obtain us vs where gs: "gs = us @ f # vs" by (auto simp: in_set_conv_decomp)
  have m: "mset (us @ vs) = mset fs" using Cons.prems(3) gs by simp
  have "set us \<subseteq> set fs" using m by (metis Un_upper1 set_append set_mset_mset)
  then have "\<forall>g\<in>set us. \<forall>x\<in>C. g x \<in> C \<and> f (g x) = g (f x)" using Cons.prems(1,2) by auto
  then have "apply_all us (f x) = f (apply_all us x)" using fold_commute_one [of us C f x] Cons.prems(1,4) by auto
  then have "apply_all gs x = apply_all (us @ vs) (f x)" using gs by simp
  moreover have "apply_all (us @ vs) (f x) = apply_all fs (f x)" by (rule Cons.IH) (use Cons.prems m in auto)
  ultimately show ?case by simp
qed simp

text \<open>A check for it: the texts that arise, and the rules that change any of them.\<close>

definition rule_fun :: "re_rule \<Rightarrow> string \<Rightarrow> string" where
  "rule_fun r = re_sub (fst r) (snd r)"

primrec reached :: "(string \<Rightarrow> string) list \<Rightarrow> string list \<Rightarrow> string list" where
  "reached [] xs = xs"
| "reached (f # fs) xs = reached fs (remdups (xs @ map f xs))"

definition order_free :: "(string \<Rightarrow> string) list \<Rightarrow> string list \<Rightarrow> bool" where
  "order_free fs xs \<longleftrightarrow>
     (let act = filter (\<lambda>f. list_ex (\<lambda>x. f x \<noteq> x) xs) fs in
      list_all (\<lambda>f. list_all (\<lambda>x. f x \<in> set xs) xs) act \<and>
      sorted_wrt (\<lambda>f g. list_all (\<lambda>x. f (g x) = g (f x)) xs) act)"

lemma sorted_wrt_all: "sorted_wrt P fs \<Longrightarrow> (\<And>f. P f f) \<Longrightarrow> (\<And>f g. P f g \<Longrightarrow> P g f) \<Longrightarrow> \<forall>f\<in>set fs. \<forall>g\<in>set fs. P f g"
  by (induction fs) auto

lemma order_free_fold:
  assumes "order_free fs xs" "mset gs = mset fs" "x \<in> set xs"
  shows "apply_all gs x = apply_all fs x"
proof (rule fold_any_order [where C = "set xs"])
  define act where "act = filter (\<lambda>f. list_ex (\<lambda>x. f x \<noteq> x) xs) fs"
  have a: "\<forall>f\<in>set act. \<forall>x\<in>set xs. f x \<in> set xs" "\<forall>f\<in>set act. \<forall>g\<in>set act. \<forall>x\<in>set xs. f (g x) = g (f x)"
    using assms(1) sorted_wrt_all [of "\<lambda>f g. list_all (\<lambda>x. f (g x) = g (f x)) xs" act]
    unfolding order_free_def act_def [symmetric] Let_def by (simp_all add: list_all_iff)
  have n: "\<forall>x\<in>set xs. f x = x" if "f \<in> set fs" "f \<notin> set act" for f
    using that by (auto simp: act_def list_ex_iff)
  show c: "\<forall>f\<in>set fs. \<forall>x\<in>set xs. f x \<in> set xs" using a(1) n by (metis (no_types))
  show "\<forall>f\<in>set fs. \<forall>g\<in>set fs. \<forall>x\<in>set xs. f (g x) = g (f x)"
  proof (intro ballI)
    fix f g x
    assume "f \<in> set fs" "g \<in> set fs" "x \<in> set xs"
    then show "f (g x) = g (f x)" using a(2) n [of f] n [of g] c by (cases "f \<in> set act"; cases "g \<in> set act") auto
  qed
qed (use assms in auto)

lemma reached_start: "x \<in> set xs \<Longrightarrow> x \<in> set (reached fs xs)"
  by (induction fs arbitrary: xs) auto

definition after_slashes :: "string \<Rightarrow> string" where
  "after_slashes t = re_sub_once slash_pat (\<lambda>_. '' '') (re_sub_once slash_pat (\<lambda>_. '' per '') t)"

definition name_order_free :: "string \<Rightarrow> bool" where
  "name_order_free s \<longleftrightarrow>
     (let fs = map rule_fun re_obj_replaces; gs = map rule_fun re_obj_patches; t = after_slashes (apply_all fs s) in
      order_free fs (reached fs [s]) \<and> order_free gs (reached gs [t]))"

lemma apply_rules_fold: "apply_rules rs s = apply_all (map rule_fun rs) s"
  by (induction rs arbitrary: s) (simp_all add: apply_rules_def rule_fun_def)

lemma unit_name_any_order:
  assumes "name_order_free s" "mset rs = mset re_obj_replaces" "mset ps = mset re_obj_patches"
  shows "get_unit_name rs ps (Some s) = get_unit_name re_obj_replaces re_obj_patches (Some s)"
proof -
  have m: "mset (map rule_fun rs) = mset (map rule_fun re_obj_replaces)" "mset (map rule_fun ps) = mset (map rule_fun re_obj_patches)"
    using assms(2,3) by (metis mset_map)+
  have "apply_rules rs s = apply_rules re_obj_replaces s"
    unfolding apply_rules_fold by (rule order_free_fold [OF _ m(1), of "reached (map rule_fun re_obj_replaces) [s]"])
      (use assms(1) in \<open>auto simp: name_order_free_def Let_def intro: reached_start\<close>)
  moreover have "apply_rules ps (after_slashes (apply_rules re_obj_replaces s)) =
      apply_rules re_obj_patches (after_slashes (apply_rules re_obj_replaces s))"
    unfolding apply_rules_fold
    by (rule order_free_fold [OF _ m(2), of "reached (map rule_fun re_obj_patches)
          [after_slashes (apply_all (map rule_fun re_obj_replaces) s)]"])
      (use assms(1) in \<open>auto simp: name_order_free_def Let_def intro: reached_start\<close>)
  ultimately show ?thesis by (simp add: get_unit_name_def Let_def after_slashes_def)
qed

section \<open>The units of the standard\<close>

text \<open>For evaluation: a boundary is tested after the characters that follow it, white space by comparison.\<close>

lemma match_chars_code [code]:
  "match_chars [] prev s = Some ([], s)"
  "match_chars (WordB # ms) prev s =
     (case match_chars ms prev s of None \<Rightarrow> None | Some y \<Rightarrow> if word_boundary prev s then Some y else None)"
  "match_chars (Lit c # ms) prev s =
     (case s of [] \<Rightarrow> None | x # xs \<Rightarrow> if x = c then map_option (\<lambda>(u, r). (x # u, r)) (match_chars ms (Some x) xs) else None)"
  "match_chars (Space # ms) prev s =
     (case s of [] \<Rightarrow> None | x # xs \<Rightarrow> if is_space x then map_option (\<lambda>(u, r). (x # u, r)) (match_chars ms (Some x) xs) else None)"
  "match_chars (Digit # ms) prev s =
     (case s of [] \<Rightarrow> None | x # xs \<Rightarrow> if is_digit_char x then map_option (\<lambda>(u, r). (x # u, r)) (match_chars ms (Some x) xs) else None)"
  by (simp_all split: option.split list.split)

lemma is_space_code [code]: "is_space c = (c = CHR '' '' \<or> c = TAB \<or> c = LF \<or> c = CHR 0x0B \<or> c = CHR 0x0C \<or> c = CR)"
proof -
  have "is_space c = (of_char c \<in> {32, 9, 10, 11, 12, 13 :: nat})" by (auto simp: is_space_def Let_def)
  also have "{32, 9, 10, 11, 12, 13 :: nat} = of_char ` {CHR '' '', TAB, LF, CHR 0x0B, CHR 0x0C, CR}" by simp
  finally show ?thesis by (simp only: image_iff bex_simps of_char_eq_iff insert_iff empty_iff simp_thms)
qed

text \<open>The tables of the module: the units as pint prints them, each with its name in the standard.\<close>

definition units_table_1 :: "(string \<times> string) list" where
  "units_table_1 =
     [(''meter'', ''metre''), (''kilogram'', ''kilogram''), (''second'', ''second''), (''ampere'', ''ampere''),
      (''kelvin'', ''kelvin''), (''mole'', ''mole''), (''candela'', ''candela'')]"

definition units_table_2 :: "(string \<times> string) list" where
  "units_table_2 =
     [(''meter ** 2'', ''square metre''), (''meter ** 3'', ''cubic metre''),
      (''meter / second'', ''metre per second''), (''meter / second ** 2'', ''metre per second squared''),
      (''1 / meter'', ''reciprocal metre''), (''kilogram / meter ** 3'', ''kilogram per cubic metre''),
      (''kilogram / meter ** 2'', ''kilogram per square metre''),
      (''meter ** 3 / kilogram'', ''cubic metre per kilogram''),
      (''ampere / meter ** 2'', ''ampere per square metre''), (''ampere / meter'', ''ampere per metre''),
      (''mole / meter ** 3'', ''mole per cubic metre''), (''candela / meter ** 2'', ''candela per square metre'')]"

definition units_table_3 :: "(string \<times> string) list" where
  "units_table_3 =
     [(''radian'', ''radian''), (''steradian'', ''steradian''), (''hertz'', ''hertz''), (''newton'', ''newton''),
      (''pascal'', ''pascal''), (''joule'', ''joule''), (''watt'', ''watt''), (''coulomb'', ''coulomb''),
      (''volt'', ''volt''), (''farad'', ''farad''), (''ohm'', ''ohm''), (''siemens'', ''siemens''),
      (''weber'', ''weber''), (''tesla'', ''tesla''), (''henry'', ''henry''), (''lumen'', ''lumen''),
      (''lux'', ''lux''), (''sievert'', ''sievert''), (''degC'', ''degree Celsius''), (''Bq'', ''becquerel''),
      (''Gy'', ''gray''), (''mole / second'', ''mole per second'')]"

definition units_table_4 :: "(string \<times> string) list" where
  "units_table_4 =
     [(''pascal * second'', ''pascal second''), (''meter * newton'', ''newton metre''),
      (''newton / meter'', ''newton per metre''), (''radian / second'', ''radian per second''),
      (''radian / second ** 2'', ''radian per second squared''),
      (''watt / meter ** 2'', ''watt per square metre''), (''joule / kelvin'', ''joule per kelvin''),
      (''joule / kelvin / kilogram'', ''joule per kilogram kelvin''),
      (''joule / kilogram'', ''joule per kilogram''), (''watt / kelvin / meter'', ''watt per metre kelvin''),
      (''joule / meter ** 3'', ''joule per cubic metre''), (''volt / meter'', ''volt per metre''),
      (''coulomb / meter ** 3'', ''coulomb per cubic metre''),
      (''coulomb / meter ** 2'', ''coulomb per square metre''), (''farad / meter'', ''farad per metre''),
      (''henry / meter'', ''henry per metre''), (''joule / mole'', ''joule per mole''),
      (''joule / kelvin / mole'', ''joule per mole kelvin''), (''coulomb / kilogram'', ''coulomb per kilogram''),
      (''Gy / second'', ''gray per second''), (''watt / steradian'', ''watt per steradian''),
      (''watt / meter ** 2 / steradian'', ''watt per square metre steradian''),
      (''mole / meter ** 3 / second'', ''mole per cubic metre second'')]"

definition named_ok :: "string \<times> string \<Rightarrow> bool" where
  "named_ok x \<longleftrightarrow> name_order_free (fst x) \<and> get_unit_name re_obj_replaces re_obj_patches (Some (fst x)) = Inr (Some (snd x))"

lemma units_table_1_ok: "list_all named_ok units_table_1" and units_table_3_ok: "list_all named_ok units_table_3"
  by code_simp+

lemma units_table_2_ok: "list_all named_ok units_table_2"
proof -
  have "list_all named_ok (take 6 units_table_2)" by code_simp
  moreover have "list_all named_ok (drop 6 units_table_2)" by code_simp
  ultimately show ?thesis by (metis append_take_drop_id list_all_append)
qed

lemma units_table_4_ok: "list_all named_ok units_table_4"
proof -
  have "list_all named_ok (take 6 units_table_4)" by code_simp
  moreover have "list_all named_ok (take 6 (drop 6 units_table_4))" by code_simp
  moreover have "list_all named_ok (take 6 (drop 12 units_table_4))" by code_simp
  moreover have "list_all named_ok (drop 18 units_table_4)" by code_simp
  moreover have "units_table_4 = take 6 units_table_4 @ take 6 (drop 6 units_table_4) @ take 6 (drop 12 units_table_4) @ drop 18 units_table_4"
    by (simp add: units_table_4_def)
  ultimately show ?thesis by (metis list_all_append)
qed

end
