(* ===== verification/User_Packages.thy ===== *)
theory User_Packages
  imports Iotcc_Requests Device_Simulators Simulated_Devices Web_Socket
begin

text \<open>
  The packages that come with the framework (\<^verbatim>\<open>src/packages\<close>): edge systems, the packages that connect to Graphite and to the
  IoT control center, and the packages that register devices and metrics, with the retries of their connections and
  registrations. A package runs in a world: the registry it is given, the objects behind it, and the components it calls.
\<close>

section \<open>The world of a package\<close>

datatype pkg_obj =
    Obj_entity entity                                  \<comment> \<open>an edge system\<close>
  | Obj_iotcc                                          \<comment> \<open>the control center, whose state is \<open>w_iotcc\<close>\<close>
  | Obj_reg ic_reg
  | Obj_graphite
  | Obj_graphite_entity nat                            \<comment> \<open>a registered entity in \<open>w_graphite\<close>\<close>

record pkg_world =
  w_pp :: per_package
  w_reg :: registry
  w_objs :: "(nat, pkg_obj) dict"
  w_next :: nat
  w_uuid :: uuid_env
  w_host :: host
  w_iotcc :: iotcc
  w_comms :: "mqtt_comms option"                       \<comment> \<open>\<^verbatim>\<open>self.iotcc.comms\<close>, once \<^verbatim>\<open>self.iotcc\<close> is assigned\<close>
  w_edge :: "ic_reg option"                            \<comment> \<open>\<^verbatim>\<open>self.iotcc_edge_system\<close>, once assigned\<close>
  w_devices :: "ic_reg list"                           \<comment> \<open>\<^verbatim>\<open>self.reg_devices\<close>\<close>
  w_metrics :: "nat list"                              \<comment> \<open>\<^verbatim>\<open>self.metrics\<close>\<close>
  w_mh :: mh
  w_pool :: nat                                        \<comment> \<open>the setting \<^verbatim>\<open>collect_thread_pool_size\<close>\<close>
  w_conn :: nat                                        \<comment> \<open>connections tried so far\<close>
  w_client :: "nat \<Rightarrow> mqtt_event list list \<times> mqtt"      \<comment> \<open>the client of each connection, and what happens on it\<close>
  w_disc :: "mqtt_event list list"                     \<comment> \<open>what happens while disconnecting\<close>
  w_socket :: socket_comms
  w_graphite :: entities

text \<open>Operations of a component, and of the registry the package is given.\<close>

definition on_ic :: "(iotcc \<Rightarrow> (iotcc, 'a) outcome) \<Rightarrow> pkg_world \<Rightarrow> (pkg_world, 'a) outcome" where
  "on_ic m w = (case m (w_iotcc w) of (r, s) \<Rightarrow> (r, w\<lparr>w_iotcc := s\<rparr>))"

definition on_uuid :: "(uuid_env \<Rightarrow> (uuid_env, 'a) outcome) \<Rightarrow> pkg_world \<Rightarrow> (pkg_world, 'a) outcome" where
  "on_uuid m w = (case m (w_uuid w) of (r, u) \<Rightarrow> (r, w\<lparr>w_uuid := u\<rparr>))"

definition w_get :: "string \<Rightarrow> pkg_world \<Rightarrow> (pkg_world, resource) outcome" where
  "w_get name w = (pp_get (w_pp w) name (w_reg w), w)"

text \<open>Credentials and paths are texts.\<close>

definition w_get_str :: "string \<Rightarrow> pkg_world \<Rightarrow> (pkg_world, string) outcome" where
  "w_get_str name = bind_e (w_get name) (\<lambda>v. case v of RStr s \<Rightarrow> return_e s | RObj _ \<Rightarrow> raise_e TypeError)"

definition w_get_obj :: "string \<Rightarrow> pkg_world \<Rightarrow> (pkg_world, pkg_obj) outcome" where
  "w_get_obj name = bind_e (w_get name) (\<lambda>v w.
     case v of
       RStr _ \<Rightarrow> (Inl AttributeError, w)
     | RObj i \<Rightarrow> (case dict_get (w_objs w) i of None \<Rightarrow> (Inl AttributeError, w) | Some ob \<Rightarrow> (Inr ob, w)))"

definition w_get_entity :: "string \<Rightarrow> pkg_world \<Rightarrow> (pkg_world, entity) outcome" where
  "w_get_entity name = bind_e (w_get_obj name) (\<lambda>ob. case ob of Obj_entity e \<Rightarrow> return_e e | _ \<Rightarrow> raise_e AttributeError)"

definition w_get_reg :: "string \<Rightarrow> pkg_world \<Rightarrow> (pkg_world, ic_reg) outcome" where
  "w_get_reg name = bind_e (w_get_obj name) (\<lambda>ob. case ob of Obj_reg r \<Rightarrow> return_e r | _ \<Rightarrow> raise_e AttributeError)"

definition w_register :: "string \<Rightarrow> pkg_obj \<Rightarrow> pkg_world \<Rightarrow> (pkg_world, unit) outcome" where
  "w_register name ob w =
     (case pp_register (w_pp w) name (RObj (w_next w)) (w_reg w) of
        (r, reg) \<Rightarrow> (r, w\<lparr>w_reg := reg, w_objs := dict_set (w_next w) ob (w_objs w), w_next := Suc (w_next w)\<rparr>))"

definition ic_entity_of :: "entity \<Rightarrow> ic_entity" where
  "ic_entity_of e = \<lparr>ie_name = fst e, ie_type = snd (snd e), ie_id = fst (snd e)\<rparr>"

section \<open>Retries\<close>

text \<open>\<^verbatim>\<open>except Exception\<close> catches everything but the exit of the interpreter.\<close>

definition is_exception :: "py_error \<Rightarrow> bool" where
  "is_exception e = (e \<noteq> SystemExit)"

text \<open>\<^verbatim>\<open>while attempts <= retry_attempts\<close>: the exception of the last attempt is raised.\<close>

primrec retry_op :: "nat \<Rightarrow> ('s \<Rightarrow> ('s, 'a) outcome) \<Rightarrow> 's \<Rightarrow> ('s, 'a) outcome" where
  "retry_op 0 m s = m s"
| "retry_op (Suc n) m s =
     (case m s of (Inr x, t) \<Rightarrow> (Inr x, t) | (Inl e, t) \<Rightarrow> if is_exception e then retry_op n m t else (Inl e, t))"

text \<open>\<^verbatim>\<open>while attempts < retry_attempts\<close>: after the last attempt the package goes on.\<close>

primrec try_op :: "nat \<Rightarrow> ('s \<Rightarrow> ('s, unit) outcome) \<Rightarrow> 's \<Rightarrow> ('s, unit) outcome" where
  "try_op 0 m s = (Inr (), s)"
| "try_op (Suc n) m s =
     (case m s of (Inr x, t) \<Rightarrow> (Inr (), t) | (Inl e, t) \<Rightarrow> if is_exception e then try_op n m t else (Inl e, t))"

definition except_do :: "('s \<Rightarrow> ('s, 'a) outcome) \<Rightarrow> (py_error \<Rightarrow> 's \<Rightarrow> ('s, 'a) outcome) \<Rightarrow> 's \<Rightarrow> ('s, 'a) outcome" where
  "except_do m h s = (case m s of (Inr x, t) \<Rightarrow> (Inr x, t) | (Inl e, t) \<Rightarrow> if is_exception e then h e t else (Inl e, t))"

definition retry_attempts :: nat where "retry_attempts = 5"

section \<open>Edge systems\<close>

definition read_sample_prop :: "(string \<Rightarrow> py_error + pyval) \<Rightarrow> pkg_world \<Rightarrow> (pkg_world, (string \<times> pyval) list) outcome" where
  "read_sample_prop literal_eval =
     bind_e (w_get_str ''package_conf'') (\<lambda>path w. (read_user_config literal_eval (path @ ''/sampleProp.conf'') (w_host w), w))"

definition cfg_get :: "(string \<times> pyval) list \<Rightarrow> string \<Rightarrow> py_error + pyval" where
  "cfg_get cfg k = (case dict_get cfg k of None \<Rightarrow> Inl KeyError | Some v \<Rightarrow> Inr v)"

definition edge_system_run :: "(string \<Rightarrow> py_error + pyval) \<Rightarrow> pkg_world \<Rightarrow> (pkg_world, unit) outcome" where
  "edge_system_run literal_eval =
     bind_e (read_sample_prop literal_eval) (\<lambda>cfg.
     bind_e (lift_e (cfg_get cfg ''EdgeSystemName'')) (\<lambda>name.
     bind_e (on_uuid (Dell5KEdgeSystem name)) (\<lambda>es.
       w_register ''edge_system'' (Obj_entity es))))"

definition general_edge_system_run :: "pkg_world \<Rightarrow> (pkg_world, unit) outcome" where
  "general_edge_system_run =
     bind_e (on_uuid (GeneralEdgeSystem (PStr ''EdgeSystemName''))) (\<lambda>es. w_register ''edge_system'' (Obj_entity es))"

section \<open>Graphite\<close>

definition cfg_int :: "(string \<times> pyval) list \<Rightarrow> string \<Rightarrow> py_error + int" where
  "cfg_int cfg k = bind_r (cfg_get cfg k) (\<lambda>v. case v of PInt i \<Rightarrow> Inr i | _ \<Rightarrow> Inl TypeError)"

definition on_socket :: "(socket_comms \<Rightarrow> (socket_comms, 'a) outcome) \<Rightarrow> pkg_world \<Rightarrow> (pkg_world, 'a) outcome" where
  "on_socket m w = (case m (w_socket w) of (r, s) \<Rightarrow> (r, w\<lparr>w_socket := s\<rparr>))"

definition graphite_run :: "(string \<Rightarrow> py_error + pyval) \<Rightarrow> pkg_world \<Rightarrow> (pkg_world, unit) outcome" where
  "graphite_run literal_eval =
     bind_e (w_get_entity ''edge_system'') (\<lambda>es.
     bind_e (read_sample_prop literal_eval) (\<lambda>cfg.
     bind_e (lift_e (cfg_str cfg ''GraphiteIP'')) (\<lambda>ip.
     bind_e (lift_e (cfg_int cfg ''GraphitePort'')) (\<lambda>port.
     then_e (on_socket (SocketDccComms ip port))
     (bind_e (\<lambda>w. (Inr (w_next w), w\<lparr>w_graphite := graphite_register (w_next w) KEdgeSystem (fst es) (w_graphite w)\<rparr>)) (\<lambda>i.
      then_e (w_register ''graphite'' Obj_graphite)
        (w_register ''graphite_edge_system'' (Obj_graphite_entity i))))))))"

definition graphite_clean_up :: "pkg_world \<Rightarrow> (pkg_world, unit) outcome" where
  "graphite_clean_up = on_socket (soc_do Soc_close)"

section \<open>The control center: connection\<close>

text \<open>\<^verbatim>\<open>IotControlCenter(MqttDccComms(...))\<close> with authentication. The thread that the constructor starts subscribes.\<close>

definition text_of :: "string option \<Rightarrow> string" where
  "text_of x = (case x of None \<Rightarrow> [] | Some s \<Rightarrow> s)"

definition connect_iotcc ::
  "(string \<Rightarrow> py_error + pyval) \<Rightarrow> ssl_env \<Rightarrow> identity \<Rightarrow> tls_conf \<Rightarrow> string \<Rightarrow> string option \<Rightarrow> mqtt_msg_attr option \<Rightarrow>
   pkg_world \<Rightarrow> (pkg_world, unit) outcome" where
  "connect_iotcc literal_eval env ident tls name client_id attr w0 =
     (let w = w0\<lparr>w_conn := Suc (w_conn w0)\<rparr>; (evs, client) = w_client w0 (w_conn w0) in
      case MqttDccComms env (Some ident) (Some tls) True None evs client name client_id (map_option Inr attr) (w_uuid w) of
        (Inl e, u) \<Rightarrow> (Inl e, w\<lparr>w_uuid := u\<rparr>)
      | (Inr c, u) \<Rightarrow>
          (case IotControlCenter literal_eval (text_of (username ident)) (text_of (password ident)) (w_host w, w_iotcc w) of
             (Inl e, h, s) \<Rightarrow> (Inl e, w\<lparr>w_uuid := u, w_host := h, w_iotcc := s\<rparr>)
           | (Inr _, h, s) \<Rightarrow>
               (Inr (), w\<lparr>w_uuid := u, w_host := h, w_iotcc := s, w_comms := Some (mqtt_comms_receive None c)\<rparr>)))"

definition disconnect_iotcc :: "pkg_world \<Rightarrow> (pkg_world, unit) outcome" where
  "disconnect_iotcc w =
     (case w_comms w of
        None \<Rightarrow> (Inl AttributeError, w)
      | Some c \<Rightarrow> (case mqtt_disconnect (w_disc w) (mc_client c) of (r, m) \<Rightarrow> (r, w\<lparr>w_comms := Some (c\<lparr>mc_client := m\<rparr>)\<rparr>)))"

definition register_edge :: "entity \<Rightarrow> pkg_world \<Rightarrow> (pkg_world, unit) outcome" where
  "register_edge es = bind_e (on_ic (iotcc_register False None (ic_entity_of es))) (\<lambda>r. modify_e (\<lambda>w. w\<lparr>w_edge := Some r\<rparr>))"

definition self_edge :: "pkg_world \<Rightarrow> (pkg_world, ic_reg) outcome" where
  "self_edge w = (case w_edge w of None \<Rightarrow> (Inl AttributeError, w) | Some r \<Rightarrow> (Inr r, w))"

section \<open>The sample package for the control center\<close>

text \<open>\<^verbatim>\<open>src/packages/iotcc_mqtt.py\<close>: one connection; a failed registration is only reported.\<close>

definition cfg_opt :: "(string \<times> pyval) list \<Rightarrow> string \<Rightarrow> py_error + string option" where
  "cfg_opt cfg k = bind_r (cfg_get cfg k) (\<lambda>v. case v of PNone \<Rightarrow> Inr None | PStr s \<Rightarrow> Inr (Some s) | _ \<Rightarrow> Inl TypeError)"

definition sample_identity :: "(string \<times> pyval) list \<Rightarrow> py_error + identity" where
  "sample_identity cfg =
     bind_r (cfg_opt cfg ''broker_root_ca_cert'') (\<lambda>ca.
     bind_r (cfg_opt cfg ''broker_username'') (\<lambda>u.
     bind_r (cfg_opt cfg ''broker_password'') (\<lambda>p.
     bind_r (cfg_opt cfg ''edge_system_cert_file'') (\<lambda>c.
     bind_r (cfg_opt cfg ''edge_system_key_file'') (\<lambda>k.
       Inr \<lparr>root_ca_cert = ca, username = u, password = p, cert_file = c, key_file = k\<rparr>)))))"

definition sample_tls :: "(string \<times> pyval) list \<Rightarrow> py_error + tls_conf" where
  "sample_tls cfg =
     bind_r (cfg_opt cfg ''cert_required'') (\<lambda>r.
     bind_r (cfg_opt cfg ''tls_version'') (\<lambda>v.
     bind_r (cfg_opt cfg ''cipher'') (\<lambda>c. Inr \<lparr>cert_required = r, tls_version = v, cipher = c\<rparr>)))"

definition cfg_dict :: "(string \<times> pyval) list \<Rightarrow> string \<Rightarrow> py_error + (string \<times> pyval) list" where
  "cfg_dict cfg k = bind_r (cfg_get cfg k) (\<lambda>v. case v of PDict d \<Rightarrow> Inr d | _ \<Rightarrow> Inl TypeError)"

definition sample_register :: "entity \<Rightarrow> pkg_world \<Rightarrow> (pkg_world, unit) outcome" where
  "sample_register es w =
     (case then_e (register_edge es)
             (then_e (w_register ''iotcc_mqtt'' Obj_iotcc)
               (bind_e self_edge (\<lambda>r. w_register ''iotcc_mqtt_edge_system'' (Obj_reg r)))) w of
        (Inl RegistrationFailure, t) \<Rightarrow> (Inr (), t)
      | x \<Rightarrow> x)"

definition iotcc_mqtt_run :: "(string \<Rightarrow> py_error + pyval) \<Rightarrow> ssl_env \<Rightarrow> pkg_world \<Rightarrow> (pkg_world, unit) outcome" where
  "iotcc_mqtt_run literal_eval env =
     bind_e (read_sample_prop literal_eval) (\<lambda>cfg.
     bind_e (w_get_entity ''edge_system'') (\<lambda>es.
     bind_e (lift_e (sample_identity cfg)) (\<lambda>ident.
     bind_e (lift_e (sample_tls cfg)) (\<lambda>tls.
     then_e (lift_e (bind_r (cfg_get cfg ''BrokerIP'') (\<lambda>_. cfg_get cfg ''BrokerPort'')))
     (then_e (connect_iotcc literal_eval env ident tls (fst es) None None)
     (then_e (sample_register es)
     (bind_e self_edge (\<lambda>r.
      bind_e (lift_e (cfg_dict cfg ''SystemPropList'')) (\<lambda>props.
        on_ic (set_properties r props))))))))))"

definition iotcc_mqtt_clean_up :: "(string \<Rightarrow> py_error + pyval) \<Rightarrow> pkg_world \<Rightarrow> (pkg_world, unit) outcome" where
  "iotcc_mqtt_clean_up literal_eval =
     bind_e (read_sample_prop literal_eval) (\<lambda>cfg.
     bind_e (lift_e (cfg_get cfg ''ShouldUnregisterOnUnload'')) (\<lambda>v.
     then_e (if v = PStr ''True'' then bind_e self_edge (\<lambda>r. on_ic (unregister r)) else return_e ())
       disconnect_iotcc))"

section \<open>The user package for the control center\<close>

text \<open>\<^verbatim>\<open>src/packages/user_packages/iotcc_mqtt.py\<close>: credentials from the registry, retries of every step.\<close>

definition user_identity :: "pkg_world \<Rightarrow> (pkg_world, identity) outcome" where
  "user_identity =
     bind_e (w_get_str ''broker_root_ca_cert'') (\<lambda>ca.
     bind_e (w_get_str ''broker_username'') (\<lambda>u.
     bind_e (w_get_str ''broker_password'') (\<lambda>p.
     bind_e (w_get_str ''edge_system_cert_file'') (\<lambda>c.
     bind_e (w_get_str ''edge_system_key_file'') (\<lambda>k.
       return_e \<lparr>root_ca_cert = Some ca, username = Some u, password = Some p, cert_file = Some c, key_file = Some k\<rparr>)))))"

definition user_tls :: tls_conf where
  "user_tls = \<lparr>cert_required = Some ''CERT_REQUIRED'', tls_version = Some ''PROTOCOL_TLSv1_2'', cipher = None\<rparr>"

definition user_topics :: "pkg_world \<Rightarrow> (pkg_world, mqtt_msg_attr) outcome" where
  "user_topics =
     bind_e (w_get_str ''broker_username'') (\<lambda>u.
       on_uuid (MqttMessagingAttributes None (Some (''liota/'' @ u @ ''/request'')) (Some (''liota/'' @ u @ ''/response'')) 1 1 (Some False) None))"

definition user_connect ::
  "(string \<Rightarrow> py_error + pyval) \<Rightarrow> ssl_env \<Rightarrow> identity \<Rightarrow> mqtt_msg_attr \<Rightarrow> entity \<Rightarrow> pkg_world \<Rightarrow> (pkg_world, unit) outcome" where
  "user_connect literal_eval env ident attr es =
     then_e (w_get ''broker_ip'') (then_e (w_get ''broker_port'')
     (bind_e (w_get_str ''broker_username'') (\<lambda>u.
        connect_iotcc literal_eval env ident user_tls (fst es) (Some u) (Some attr))))"

definition location_props :: "(string \<times> pyval) list" where
  "location_props =
     [(''Country'', PStr ''USA-G''), (''State'', PStr ''California''), (''City'', PStr ''Palo Alto''),
      (''Location'', PStr ''VMware HQ''), (''Building'', PStr ''Promontory H Lab''), (''Floor'', PStr ''First Floor'')]"

definition user_register :: "entity \<Rightarrow> pkg_world \<Rightarrow> (pkg_world, unit) outcome" where
  "user_register es =
     then_e (retry_op retry_attempts (register_edge es))
     (then_e (w_register ''iotcc_mqtt'' Obj_iotcc)
     (bind_e self_edge (\<lambda>r.
      then_e (w_register ''iotcc_mqtt_edge_system'' (Obj_reg r))
        (try_op retry_attempts (on_ic (set_properties r location_props))))))"

definition user_iotcc_mqtt_run :: "(string \<Rightarrow> py_error + pyval) \<Rightarrow> ssl_env \<Rightarrow> pkg_world \<Rightarrow> (pkg_world, unit) outcome" where
  "user_iotcc_mqtt_run literal_eval env =
     bind_e (w_get_entity ''edge_system'') (\<lambda>es.
     bind_e user_identity (\<lambda>ident.
     bind_e user_topics (\<lambda>attr.
       except_do
         (then_e (retry_op retry_attempts (user_connect literal_eval env ident attr es)) (user_register es))
         (\<lambda>e. then_e disconnect_iotcc (raise_e e)))))"

definition user_iotcc_mqtt_clean_up :: "pkg_world \<Rightarrow> (pkg_world, unit) outcome" where
  "user_iotcc_mqtt_clean_up = then_e (bind_e self_edge (\<lambda>r. on_ic (unregister r))) disconnect_iotcc"

section \<open>Metrics of a package\<close>

text \<open>A metric that is created, registered, attached to \<open>par\<close> and started; \<open>w_next\<close> is its address.\<close>

definition new_metric :: "string \<Rightarrow> int \<Rightarrow> nat \<Rightarrow> pkg_world \<Rightarrow> (pkg_world, metric) outcome" where
  "new_metric name intv nargs w =
     (case get_uuid name (w_uuid w) of
        (i, u) \<Rightarrow> (Metric_init (\<lambda>_. i) (PStr name) (PStr ''Metric'') PNone (PInt intv) (PInt 1) nargs, w\<lparr>w_uuid := u\<rparr>))"

definition start_metric :: "parse_unit_fun \<Rightarrow> ic_reg \<Rightarrow> string \<Rightarrow> int \<Rightarrow> nat \<Rightarrow> pkg_world \<Rightarrow> (pkg_world, unit) outcome" where
  "start_metric parse_unit par name intv nargs =
     bind_e (new_metric name intv nargs) (\<lambda>m.
     bind_e (on_ic (iotcc_register True (m_unit m) \<lparr>ie_name = m_name m, ie_type = m_entity_type m, ie_id = m_entity_id m\<rparr>)) (\<lambda>c w.
       case iotcc_create_relationship parse_unit (Some par) (Some c) (w_iotcc w) of
         (Inl e, s, _) \<Rightarrow> (Inl e, w\<lparr>w_iotcc := s\<rparr>)
       | (Inr _, s, c') \<Rightarrow>
           (let rid = (case c' of Some r \<Rightarrow> (case ir_id r of PStr i \<Rightarrow> i | _ \<Rightarrow> []) | None \<Rightarrow> []);
                h = (w_mh w)\<lparr>metrics := dict_set (w_next w) (RegisteredMetric m rid) (metrics (w_mh w))\<rparr>
            in (Inr (), w\<lparr>w_iotcc := s, w_mh := start_collecting (w_pool w) (w_next w) h,
                         w_metrics := w_metrics w @ [w_next w], w_next := Suc (w_next w)\<rparr>))))"

definition stop_metrics :: "pkg_world \<Rightarrow> (pkg_world, unit) outcome" where
  "stop_metrics = modify_e (\<lambda>w. w\<lparr>w_mh := fold stop (w_metrics w) (w_mh w)\<rparr>)"

section \<open>Statistics of the edge system\<close>

text \<open>\<^verbatim>\<open>src/packages/user_packages/iotcc_mqtt_edge_system_stats.py\<close>: a failure is only reported.\<close>

definition edge_stats_run :: "parse_unit_fun \<Rightarrow> pkg_world \<Rightarrow> (pkg_world, unit) outcome" where
  "edge_stats_run parse_unit =
     bind_e (w_get_reg ''iotcc_mqtt_edge_system'') (\<lambda>es.
     then_e (w_get_obj ''iotcc_mqtt'')
       (except_do
         (then_e (modify_e (\<lambda>w. w\<lparr>w_metrics := []\<rparr>))
         (then_e (start_metric parse_unit es ''CPU Utilization'' 5 1)
         (then_e (start_metric parse_unit es ''CPU Process'' 5 0)
         (then_e (start_metric parse_unit es ''Disk Usage Stats'' 5 0)
         (then_e (start_metric parse_unit es ''Network Bytes Received'' 5 0)
                 (start_metric parse_unit es ''Memory Free'' 10 0))))))
         (\<lambda>_. return_e ())))"

definition edge_stats_clean_up :: "pkg_world \<Rightarrow> (pkg_world, unit) outcome" where
  "edge_stats_clean_up = stop_metrics"

section \<open>Devices\<close>

text \<open>\<^verbatim>\<open>src/packages/user_packages/iotcc_mqtt_device.py\<close>. The registered device is the last object of \<open>w_devices\<close>, which
  \<^verbatim>\<open>create_relationship\<close> changes.\<close>

definition relate_device :: "parse_unit_fun \<Rightarrow> ic_reg \<Rightarrow> pkg_world \<Rightarrow> (pkg_world, unit) outcome" where
  "relate_device parse_unit edge w =
     (case rev (w_devices w) of
        [] \<Rightarrow> (Inl NameError, w)
      | d # ds \<Rightarrow>
          (case iotcc_create_relationship parse_unit (Some edge) (Some d) (w_iotcc w) of
             (r, s, c) \<Rightarrow> (r, w\<lparr>w_iotcc := s, w_devices := rev ((case c of None \<Rightarrow> d | Some d' \<Rightarrow> d') # ds)\<rparr>)))"

definition last_device :: "pkg_world \<Rightarrow> (pkg_world, ic_reg) outcome" where
  "last_device w = (case rev (w_devices w) of [] \<Rightarrow> (Inl NameError, w) | d # _ \<Rightarrow> (Inr d, w))"

text \<open>Setting the properties: \<^verbatim>\<open>'{0} - {1}'.format((name, error))\<close> in the handler has one argument for two fields, so that the
  handler itself raises.\<close>

definition device_properties :: "ic_reg \<Rightarrow> pkg_world \<Rightarrow> (pkg_world, unit) outcome" where
  "device_properties d = except_do (on_ic (set_properties d location_props)) (\<lambda>_. raise_e IndexError)"

definition device_name :: "string \<Rightarrow> nat \<Rightarrow> string" where
  "device_name host i = host @ ''-ChildDev'' @ str_nat i"

definition device_link :: "parse_unit_fun \<Rightarrow> string \<Rightarrow> ic_reg \<Rightarrow> nat \<Rightarrow> pkg_world \<Rightarrow> (pkg_world, ic_reg) outcome" where
  "device_link parse_unit host edge i =
     bind_e (on_uuid (SimulatedDevice (PStr (device_name host i)) (PStr ''SimulatedDevice''))) (\<lambda>dev.
     bind_e (retry_op retry_attempts (on_ic (iotcc_register False None (ic_entity_of dev)))) (\<lambda>r.
     then_e (modify_e (\<lambda>w. w\<lparr>w_devices := w_devices w @ [r]\<rparr>))
     (then_e (retry_op retry_attempts (relate_device parse_unit edge))
     (bind_e last_device (\<lambda>d.
      then_e (w_register (device_name host i) (Obj_reg d))
      (then_e (device_properties d) (return_e d)))))))"

definition device_setup :: "parse_unit_fun \<Rightarrow> string \<Rightarrow> ic_reg \<Rightarrow> nat \<Rightarrow> pkg_world \<Rightarrow> (pkg_world, unit) outcome" where
  "device_setup parse_unit host edge i =
     bind_e (device_link parse_unit host edge i) (\<lambda>d.
       except_do (start_metric parse_unit d ''Simulated Metrics'' 300 0) (\<lambda>_. return_e ()))"

primrec device_loop :: "parse_unit_fun \<Rightarrow> string \<Rightarrow> ic_reg \<Rightarrow> nat list \<Rightarrow> pkg_world \<Rightarrow> (pkg_world, unit) outcome" where
  "device_loop parse_unit host edge [] = return_e ()"
| "device_loop parse_unit host edge (i # is) =
     then_e (device_setup parse_unit host edge i) (device_loop parse_unit host edge is)"

definition device_run :: "parse_unit_fun \<Rightarrow> string \<Rightarrow> pkg_world \<Rightarrow> (pkg_world, unit) outcome" where
  "device_run parse_unit host =
     then_e (w_get_obj ''iotcc_mqtt'')
     (bind_e (w_get_reg ''iotcc_mqtt_edge_system'') (\<lambda>edge.
      then_e (modify_e (\<lambda>w. w\<lparr>w_devices := [], w_metrics := []\<rparr>))
        (device_loop parse_unit host edge [0..<5])))"

primrec unregister_each :: "ic_reg list \<Rightarrow> pkg_world \<Rightarrow> (pkg_world, unit) outcome" where
  "unregister_each [] = return_e ()"
| "unregister_each (d # ds) = then_e (on_ic (unregister d)) (unregister_each ds)"

definition device_clean_up :: "pkg_world \<Rightarrow> (pkg_world, unit) outcome" where
  "device_clean_up = then_e stop_metrics (\<lambda>w. unregister_each (w_devices w) w)"

section \<open>Sampling functions\<close>

text \<open>\<^verbatim>\<open>round\<close> of Python 2 rounds half away from zero.\<close>

definition py_round :: "rat \<Rightarrow> nat \<Rightarrow> rat" where
  "py_round x n = (if 0 \<le> x then of_int \<lfloor>x * 10 ^ n + 1 / 2\<rfloor> else - of_int \<lfloor>- x * 10 ^ n + 1 / 2\<rfloor>) / 10 ^ n"

definition read_cpu_utilization :: "rat \<Rightarrow> rat" where
  "read_cpu_utilization idle = py_round (100 - idle) 2"

definition read_disk_usage_stats :: "py_error + rat \<Rightarrow> py_error + rat option" where
  "read_disk_usage_stats stat =
     (case stat of Inr v \<Rightarrow> Inr (Some (py_round v 2)) | Inl e \<Rightarrow> if is_exception e then Inr None else Inl e)"

definition read_mem_free :: "rat \<Rightarrow> rat \<Rightarrow> rat option" where
  "read_mem_free total_mem free_mem =
     (let t = py_round total_mem 4; f = py_round free_mem 4 in
      if t = 0 then None else Some (py_round ((t - f) / t * 100) 2))"

end
