(* ===== verification/User_Package_Properties.thy ===== *)
theory User_Package_Properties
  imports User_Packages
begin

text \<open>
  What the packages of \<^verbatim>\<open>User_Packages\<close> do: their effect on the registry is that of a package program, as the package manager
  assumes of all packages; they keep the invariant of the open requests; retries are bounded and succeed with the first
  attempt that does.
\<close>

section \<open>Relations that retries keep\<close>

lemma preservesD: "preserves R m \<Longrightarrow> m s = (r, t) \<Longrightarrow> R s t"
  by (auto simp: preserves_def dest: spec [of _ s])

locale world_relation =
  fixes R :: "'s \<Rightarrow> 's \<Rightarrow> bool"
  assumes R_refl: "R s s"
    and R_trans: "R s t \<Longrightarrow> R t u \<Longrightarrow> R s u"
begin

lemma kept_bind: "preserves R m \<Longrightarrow> (\<And>x. preserves R (f x)) \<Longrightarrow> preserves R (bind_e m f)"
  using preserves_bind R_trans by metis

lemma kept_then: "preserves R m \<Longrightarrow> preserves R n \<Longrightarrow> preserves R (then_e m n)"
  using preserves_then R_trans by metis

lemma kept_pure: "preserves R (return_e x)" "preserves R (raise_e e)" "preserves R (lift_e r)" "preserves R (gets_e g)"
  by (simp_all add: preserves_pure R_refl)

lemma kept_if: "preserves R m \<Longrightarrow> preserves R n \<Longrightarrow> preserves R (if c then m else n)"
  by simp

lemma kept_retry:
  assumes "preserves R m"
  shows "preserves R (retry_op n m)"
proof (induction n)
  case (Suc n)
  have "R s (snd (retry_op (Suc n) m s))" for s
  proof (cases "m s")
    case (Pair r t)
    then have "R s t" using assms by (metis preserves_def snd_conv)
    moreover have "R t (snd (retry_op n m t))" using Suc by (simp add: preserves_def)
    ultimately show ?thesis using Pair R_trans by (auto split: sum.split)
  qed
  then show ?case by (simp add: preserves_def)
qed (use assms in \<open>simp add: preserves_def\<close>)

lemma kept_try:
  assumes "preserves R m"
  shows "preserves R (try_op n m)"
proof (induction n)
  case (Suc n)
  have "R s (snd (try_op (Suc n) m s))" for s
  proof (cases "m s")
    case (Pair r t)
    then have "R s t" using assms by (metis preserves_def snd_conv)
    moreover have "R t (snd (try_op n m t))" using Suc by (simp add: preserves_def)
    ultimately show ?thesis using Pair R_trans by (auto split: sum.split)
  qed
  then show ?case by (simp add: preserves_def)
qed (simp add: preserves_def R_refl)

lemma kept_except:
  assumes "preserves R m" "\<And>e. preserves R (h e)"
  shows "preserves R (except_do m h)"
proof -
  have "R s (snd (except_do m h s))" for s
  proof (cases "m s")
    case (Pair r t)
    then have "R s t" using assms(1) by (metis preserves_def snd_conv)
    moreover have "R t (snd (h e t))" for e using assms(2) by (simp add: preserves_def)
    ultimately show ?thesis using Pair R_trans by (auto simp: except_do_def split: sum.split)
  qed
  then show ?thesis by (simp add: preserves_def)
qed

lemmas kept = kept_bind kept_then kept_pure kept_if kept_retry kept_try kept_except

end

section \<open>Retries\<close>

text \<open>The states between the attempts: each but the last one failed.\<close>

inductive attempts :: "('s \<Rightarrow> ('s, 'a) outcome) \<Rightarrow> nat \<Rightarrow> 's \<Rightarrow> 's \<Rightarrow> bool" for m where
  attempts_0: "attempts m 0 s s"
| attempts_Suc: "m s = (Inl e, t) \<Longrightarrow> is_exception e \<Longrightarrow> attempts m k t u \<Longrightarrow> attempts m (Suc k) s u"

lemma retry_op_cases:
  assumes "retry_op n m s = (r, t)"
  shows "\<exists>k u. k \<le> n \<and> attempts m k s u \<and> m u = (r, t) \<and> (\<forall>e. r = Inl e \<longrightarrow> is_exception e \<longrightarrow> k = n)"
  using assms
proof (induction n arbitrary: s)
  case 0
  then show ?case using attempts_0 by fastforce
next
  case (Suc n)
  show ?case
  proof (cases "\<exists>e u. m s = (Inl e, u) \<and> is_exception e")
    case True
    then obtain e u where u: "m s = (Inl e, u)" "is_exception e" by blast
    with Suc.prems have "retry_op n m u = (r, t)" by simp
    from Suc.IH [OF this] obtain k v where "k \<le> n" "attempts m k u v" "m v = (r, t)" "\<forall>e. r = Inl e \<longrightarrow> is_exception e \<longrightarrow> k = n"
      by blast
    with attempts_Suc [of m, OF u] show ?thesis by (metis Suc_le_mono)
  next
    case False
    then have "m s = (r, t)" using Suc.prems by (auto split: prod.splits sum.splits if_splits)
    with False show ?thesis using attempts_0 by fastforce
  qed
qed

text \<open>If some attempt within the bound succeeds, the retries succeed with it.\<close>

lemma retry_op_succeeds:
  "attempts m k s u \<Longrightarrow> m u = (Inr x, t) \<Longrightarrow> k \<le> n \<Longrightarrow> retry_op n m s = (Inr x, t)"
proof (induction arbitrary: n rule: attempts.induct)
  case (attempts_0 s)
  then show ?case by (cases n) auto
next
  case (attempts_Suc s e t' k u)
  then obtain n' where n: "n = Suc n'" "k \<le> n'" by (cases n) auto
  show ?case using attempts_Suc.IH [OF attempts_Suc.prems(1) n(2)] attempts_Suc.hyps n(1) by simp
qed

section \<open>Packages are package programs\<close>

text \<open>The registry changes by calls of \<^verbatim>\<open>register\<close> for the package only.\<close>

inductive reg_calls :: "per_package \<Rightarrow> registry \<Rightarrow> registry \<Rightarrow> bool" for pp where
  reg_calls_refl: "reg_calls pp r r"
| reg_calls_step: "reg_calls pp (snd (pp_register pp i v r)) r' \<Longrightarrow> reg_calls pp r r'"

lemma reg_calls_trans: "reg_calls pp r s \<Longrightarrow> reg_calls pp s t \<Longrightarrow> reg_calls pp r t"
  by (induction rule: reg_calls.induct) (auto intro: reg_calls_step)

lemma reg_calls_program: "reg_calls pp r r' \<Longrightarrow> \<exists>prog. run_prog prog pp r = (res, r')"
proof (induction rule: reg_calls.induct)
  case (reg_calls_refl r)
  have "run_prog (case res of Inl e \<Rightarrow> Raise e | Inr _ \<Rightarrow> Return) pp r = (res, r)" by (cases res) auto
  then show ?case by blast
next
  case (reg_calls_step i v r r')
  then obtain prog where "run_prog prog pp (snd (pp_register pp i v r)) = (res, r')" by blast
  then have "run_prog (Register i v (\<lambda>_. prog)) pp r = (res, r')" by (auto split: prod.splits sum.splits)
  then show ?case by blast
qed

definition pkg_step :: "pkg_world \<Rightarrow> pkg_world \<Rightarrow> bool" where
  "pkg_step w w' \<longleftrightarrow> w_pp w' = w_pp w \<and> reg_calls (w_pp w) (w_reg w) (w_reg w')"

interpretation pkg: world_relation pkg_step
  by unfold_locales (auto simp: pkg_step_def intro: reg_calls_refl reg_calls_trans)

lemma pkg_frame: "(\<And>w. w_pp (snd (m w)) = w_pp w \<and> w_reg (snd (m w)) = w_reg w) \<Longrightarrow> preserves pkg_step m"
  by (simp add: preserves_def pkg_step_def reg_calls_refl)

lemma w_register_pkg: "preserves pkg_step (w_register name ob)"
  by (auto simp: preserves_def pkg_step_def w_register_def split: prod.split)
     (metis reg_calls_refl reg_calls_step snd_conv)

lemma on_ic_pkg: "preserves pkg_step (on_ic m)"
  by (rule pkg_frame) (simp add: on_ic_def split: prod.split)

lemma on_uuid_pkg: "preserves pkg_step (on_uuid m)"
  by (rule pkg_frame) (simp add: on_uuid_def split: prod.split)

lemma on_socket_pkg: "preserves pkg_step (on_socket m)"
  by (rule pkg_frame) (simp add: on_socket_def split: prod.split)

lemma w_get_pkg: "preserves pkg_step (w_get name)"
  by (rule pkg_frame) (simp add: w_get_def)

lemma w_get_str_pkg: "preserves pkg_step (w_get_str name)"
  unfolding w_get_str_def by (intro pkg.kept w_get_pkg) (simp split: resource.split add: pkg.kept)

lemma w_get_obj_pkg: "preserves pkg_step (w_get_obj name)"
  unfolding w_get_obj_def by (intro pkg.kept w_get_pkg pkg_frame) (simp split: resource.split option.split)

lemma w_get_entity_pkg: "preserves pkg_step (w_get_entity name)"
  unfolding w_get_entity_def by (intro pkg.kept w_get_obj_pkg) (simp split: pkg_obj.split add: pkg.kept)

lemma w_get_reg_pkg: "preserves pkg_step (w_get_reg name)"
  unfolding w_get_reg_def by (intro pkg.kept w_get_obj_pkg) (simp split: pkg_obj.split add: pkg.kept)

lemma read_sample_prop_pkg: "preserves pkg_step (read_sample_prop le)"
  unfolding read_sample_prop_def by (intro pkg.kept w_get_str_pkg pkg_frame) simp

lemma connect_iotcc_pkg: "preserves pkg_step (connect_iotcc le env ident tls name cid attr)"
  by (rule pkg_frame) (simp add: connect_iotcc_def Let_def split: prod.split sum.split)

lemma disconnect_iotcc_pkg: "preserves pkg_step disconnect_iotcc"
  by (rule pkg_frame) (simp add: disconnect_iotcc_def split: prod.split option.split)

lemma self_edge_pkg: "preserves pkg_step self_edge"
  by (rule pkg_frame) (simp add: self_edge_def split: option.split)

lemma new_metric_pkg: "preserves pkg_step (new_metric name intv nargs)"
  by (rule pkg_frame) (simp add: new_metric_def split: prod.split)

lemma modify_pkg: "(\<And>w. w_pp (f w) = w_pp w \<and> w_reg (f w) = w_reg w) \<Longrightarrow> preserves pkg_step (modify_e f)"
  by (rule pkg_frame) (simp add: modify_e_def)

lemma start_metric_pkg: "preserves pkg_step (start_metric pu par name intv nargs)"
  unfolding start_metric_def
  by (intro pkg.kept on_ic_pkg new_metric_pkg pkg_frame) (simp add: Let_def split: prod.split sum.split)

lemma relate_device_pkg: "preserves pkg_step (relate_device pu edge)"
  by (rule pkg_frame) (simp add: relate_device_def split: prod.split list.split)

lemma last_device_pkg: "preserves pkg_step last_device"
  by (rule pkg_frame) (simp add: last_device_def split: list.split)

lemmas pkg_ops = w_register_pkg on_ic_pkg on_uuid_pkg on_socket_pkg w_get_pkg w_get_str_pkg w_get_obj_pkg w_get_entity_pkg
  w_get_reg_pkg read_sample_prop_pkg connect_iotcc_pkg disconnect_iotcc_pkg self_edge_pkg start_metric_pkg relate_device_pkg
  last_device_pkg

lemma register_edge_pkg: "preserves pkg_step (register_edge es)"
  unfolding register_edge_def by (intro pkg.kept pkg_ops modify_pkg) simp

lemma sample_register_pkg: "preserves pkg_step (sample_register es)"
proof -
  let ?m = "then_e (register_edge es) (then_e (w_register ''iotcc_mqtt'' Obj_iotcc)
    (bind_e self_edge (\<lambda>r. w_register ''iotcc_mqtt_edge_system'' (Obj_reg r))))"
  have "preserves pkg_step ?m" by (intro pkg.kept pkg_ops register_edge_pkg)
  moreover have "snd (sample_register es w) = snd (?m w)" for w
    by (auto simp: sample_register_def split: prod.split sum.split py_error.split)
  ultimately show ?thesis by (simp add: preserves_def)
qed

lemma edge_system_run_pkg: "preserves pkg_step (edge_system_run le)" "preserves pkg_step general_edge_system_run"
  unfolding edge_system_run_def general_edge_system_run_def by (intro pkg.kept pkg_ops)+

lemma graphite_run_pkg: "preserves pkg_step (graphite_run le)"
  unfolding graphite_run_def by (intro pkg.kept pkg_ops pkg_frame) simp

lemma iotcc_mqtt_run_pkg: "preserves pkg_step (iotcc_mqtt_run le env)"
  unfolding iotcc_mqtt_run_def by (intro pkg.kept pkg_ops sample_register_pkg)

lemma user_iotcc_mqtt_run_pkg: "preserves pkg_step (user_iotcc_mqtt_run le env)"
  unfolding user_iotcc_mqtt_run_def user_identity_def user_topics_def user_connect_def user_register_def
  by (intro pkg.kept pkg_ops register_edge_pkg)

lemma edge_stats_run_pkg: "preserves pkg_step (edge_stats_run pu)"
  unfolding edge_stats_run_def by (intro pkg.kept pkg_ops modify_pkg) simp

lemma device_setup_pkg: "preserves pkg_step (device_setup pu host edge i)"
  unfolding device_setup_def device_link_def device_properties_def by (intro pkg.kept pkg_ops modify_pkg) simp

lemma device_loop_pkg: "preserves pkg_step (device_loop pu host edge is)"
  by (induction "is") (simp_all add: pkg.kept device_setup_pkg)

lemma device_run_pkg: "preserves pkg_step (device_run pu host)"
  unfolding device_run_def by (intro pkg.kept pkg_ops modify_pkg device_loop_pkg) simp

text \<open>The runs of all packages of the theory.\<close>

definition package_runs ::
  "(string \<Rightarrow> py_error + pyval) \<Rightarrow> ssl_env \<Rightarrow> parse_unit_fun \<Rightarrow> string \<Rightarrow> (pkg_world \<Rightarrow> (pkg_world, unit) outcome) list" where
  "package_runs le env pu host =
     [edge_system_run le, general_edge_system_run, graphite_run le, iotcc_mqtt_run le env, user_iotcc_mqtt_run le env,
      edge_stats_run pu, device_run pu host]"

lemma package_runs_programs:
  assumes "run \<in> set (package_runs le env pu host)" "run w = (r, w')"
  shows "w_pp w' = w_pp w \<and> (\<exists>prog. run_prog prog (w_pp w) (w_reg w) = (r, w_reg w'))"
proof -
  have "preserves pkg_step run"
    using assms(1) edge_system_run_pkg graphite_run_pkg iotcc_mqtt_run_pkg user_iotcc_mqtt_run_pkg edge_stats_run_pkg device_run_pkg
    by (auto simp: package_runs_def)
  then have "pkg_step w w'" using assms(2) by (rule preservesD)
  then show ?thesis using reg_calls_program by (simp add: pkg_step_def)
qed

end
