(* ===== verification/User_Package_Results.thy ===== *)
theory User_Package_Results
  imports User_Package_Properties
begin

text \<open>
  What the runs of the user packages achieve: what a successful run of the connecting package leaves behind, what it raises when
  the broker can not be reached, the devices that the device package registers, and that its clean-up stops what was started.
\<close>

section \<open>An unreachable broker\<close>

text \<open>No connection succeeds.\<close>

definition unreachable :: "ssl_env \<Rightarrow> identity \<Rightarrow> pkg_world \<Rightarrow> bool" where
  "unreachable env ident w \<longleftrightarrow>
     (\<forall>n. \<exists>e m. Mqtt env (Some ident) (Some user_tls) True None (fst (w_client w n)) (snd (w_client w n)) = (Inl e, m) \<and> is_exception e)"

definition holds_text :: "string \<Rightarrow> pkg_world \<Rightarrow> bool" where
  "holds_text name w \<longleftrightarrow> (\<exists>s. pp_get (w_pp w) name (w_reg w) = Inr (RStr s))"

lemma w_get_str_eq: "pp_get (w_pp w) name (w_reg w) = Inr (RStr s) \<Longrightarrow> w_get_str name w = (Inr s, w)"
  by (simp add: w_get_str_def w_get_def outcome_simps)

lemma connect_unreachable:
  assumes "unreachable env ident w"
  shows "\<exists>e. connect_iotcc le env ident user_tls name (Some cid) (Some attr) w = (Inl e, w\<lparr>w_conn := Suc (w_conn w)\<rparr>) \<and> is_exception e"
proof -
  obtain evs client where c: "w_client w (w_conn w) = (evs, client)" by fastforce
  obtain e m where "Mqtt env (Some ident) (Some user_tls) True None evs client = (Inl e, m)" "is_exception e"
    using assms c unfolding unreachable_def by (metis fst_conv snd_conv)
  with c show ?thesis by (simp add: connect_iotcc_def MqttDccComms_def mqtt_comms_settings_def outcome_simps)
qed

lemma user_connect_unreachable:
  assumes "unreachable env ident w" "holds_text ''broker_ip'' w" "holds_text ''broker_port'' w" "holds_text ''broker_username'' w"
  shows "\<exists>e. user_connect le env ident attr es w = (Inl e, w\<lparr>w_conn := Suc (w_conn w)\<rparr>) \<and> is_exception e"
proof -
  obtain u where u: "w_get_str ''broker_username'' w = (Inr u, w)"
    using assms(4) w_get_str_eq unfolding holds_text_def by blast
  show ?thesis using assms(2,3) connect_unreachable [OF assms(1), of le "fst es" u attr] u
    by (auto simp: user_connect_def outcome_simps holds_text_def w_get_def)
qed

lemma retry_unreachable:
  assumes "unreachable env ident w" "holds_text ''broker_ip'' w" "holds_text ''broker_port'' w" "holds_text ''broker_username'' w"
  shows "\<exists>e. retry_op n (user_connect le env ident attr es) w = (Inl e, w\<lparr>w_conn := Suc n + w_conn w\<rparr>) \<and> is_exception e"
  using assms
proof (induction n arbitrary: w)
  case 0
  then show ?case using user_connect_unreachable [OF 0, of le attr es] by simp
next
  case (Suc n)
  let ?v = "w\<lparr>w_conn := Suc (w_conn w)\<rparr>"
  obtain e where e: "user_connect le env ident attr es w = (Inl e, ?v)" "is_exception e"
    using user_connect_unreachable [OF Suc.prems] by blast
  have "unreachable env ident ?v" "holds_text ''broker_ip'' ?v" "holds_text ''broker_port'' ?v" "holds_text ''broker_username'' ?v"
    using Suc.prems by (simp_all add: unreachable_def holds_text_def)
  from Suc.IH [OF this] obtain f where
    "retry_op n (user_connect le env ident attr es) ?v = (Inl f, ?v\<lparr>w_conn := Suc n + w_conn ?v\<rparr>)" "is_exception f" by blast
  with e show ?case by simp
qed

text \<open>After six failed connections the handler finds no \<^verbatim>\<open>self.iotcc\<close> to disconnect, and its \<open>AttributeError\<close> hides the cause.\<close>

lemma user_topics_eq:
  assumes "pp_get (w_pp w) ''broker_username'' (w_reg w) = Inr (RStr u)"
  shows "\<exists>a. user_topics w = (Inr a, w) \<and> pub_topic a = Some (''liota/'' @ u @ ''/request'') \<and> sub_topic a = Some (''liota/'' @ u @ ''/response'')"
  by (simp add: user_topics_def w_get_str_eq [OF assms] bind_e_def on_uuid_def MqttMessagingAttributes_def given_def Let_def)

lemma unreachable_run:
  assumes "w_get_entity ''edge_system'' w = (Inr es, w)" "user_identity w = (Inr ident, w)" "unreachable env ident w"
    "holds_text ''broker_ip'' w" "holds_text ''broker_port'' w" "holds_text ''broker_username'' w" "w_comms w = None"
  shows "user_iotcc_mqtt_run le env w = (Inl AttributeError, w\<lparr>w_conn := 6 + w_conn w\<rparr>)"
proof -
  obtain a where a: "user_topics w = (Inr a, w)" using assms(6) user_topics_eq unfolding holds_text_def by blast
  obtain e where e: "retry_op 5 (user_connect le env ident a es) w = (Inl e, w\<lparr>w_conn := Suc 5 + w_conn w\<rparr>)" "is_exception e"
    using retry_unreachable [OF assms(3-6), of 5 le a es] by blast
  then show ?thesis using assms(1,2,7) a
    by (simp add: user_iotcc_mqtt_run_def bind_e_def then_e_def except_do_def retry_attempts_def disconnect_iotcc_def)
qed

section \<open>A successful run\<close>

text \<open>The parts of the world that only connections, only the registry, or only requests change.\<close>

definition ic_only :: "pkg_world \<Rightarrow> pkg_world \<Rightarrow> bool" where
  "ic_only w w' \<longleftrightarrow> (\<exists>s. w' = w\<lparr>w_iotcc := s\<rparr>)"

definition ic_edge_only :: "pkg_world \<Rightarrow> pkg_world \<Rightarrow> bool" where
  "ic_edge_only w w' \<longleftrightarrow> (\<exists>s r. w' = w\<lparr>w_iotcc := s, w_edge := r\<rparr>)"

definition conn_only :: "pkg_world \<Rightarrow> pkg_world \<Rightarrow> bool" where
  "conn_only w w' \<longleftrightarrow> w_reg w' = w_reg w \<and> w_pp w' = w_pp w \<and> w_objs w' = w_objs w \<and> w_next w' = w_next w \<and> w_conn w \<le> w_conn w'"

interpretation ic_only: world_relation ic_only
proof
  fix s show "ic_only s s" unfolding ic_only_def by (rule exI [of _ "w_iotcc s"]) simp
qed (auto simp: ic_only_def)

interpretation ic_edge: world_relation ic_edge_only
proof
  fix s show "ic_edge_only s s" unfolding ic_edge_only_def by (rule exI [of _ "w_iotcc s"], rule exI [of _ "w_edge s"]) simp
next
  fix s t u assume "ic_edge_only s t" "ic_edge_only t u"
  then obtain a b c d where "u = s\<lparr>w_iotcc := a, w_edge := b\<rparr>\<lparr>w_iotcc := c, w_edge := d\<rparr>" by (auto simp: ic_edge_only_def)
  then have "u = s\<lparr>w_iotcc := c, w_edge := d\<rparr>" by simp
  then show "ic_edge_only s u" unfolding ic_edge_only_def by blast
qed

interpretation conn: world_relation conn_only
  by unfold_locales (auto simp: conn_only_def)

lemma on_ic_only: "preserves ic_only (on_ic m)"
  by (auto simp: preserves_def ic_only_def on_ic_def split: prod.split)

lemma register_edge_only: "preserves ic_edge_only (register_edge es)"
proof -
  have "preserves ic_edge_only (on_ic (iotcc_register False None (ic_entity_of es)))"
    unfolding preserves_def
  proof
    fix w :: pkg_world
    obtain s where "snd (on_ic (iotcc_register False None (ic_entity_of es)) w) = w\<lparr>w_iotcc := s\<rparr>"
      using on_ic_only by (metis ic_only_def preserves_def)
    then show "ic_edge_only w (snd (on_ic (iotcc_register False None (ic_entity_of es)) w))"
      unfolding ic_edge_only_def by (intro exI [of _ s] exI [of _ "w_edge w"]) simp
  qed
  moreover have "preserves ic_edge_only (modify_e (\<lambda>w. w\<lparr>w_edge := Some r\<rparr>))" for r
    unfolding preserves_def modify_e_def ic_edge_only_def
  proof
    fix w :: pkg_world
    show "\<exists>s ra. snd (Inr (), w\<lparr>w_edge := Some r\<rparr>) = w\<lparr>w_iotcc := s, w_edge := ra\<rparr>"
      by (intro exI [of _ "w_iotcc w"] exI [of _ "Some r"]) simp
  qed
  ultimately show ?thesis unfolding register_edge_def by (intro ic_edge.kept)
qed

lemma connect_conn: "preserves conn_only (connect_iotcc le env ident tls name cid attr)"
  by (simp add: preserves_def conn_only_def connect_iotcc_def Let_def split: prod.split sum.split)

lemma w_get_conn: "preserves conn_only (w_get name)"
  by (simp add: preserves_def conn_only_def w_get_def)

lemma user_connect_conn: "preserves conn_only (user_connect le env ident attr es)"
  unfolding user_connect_def w_get_str_def
  by (intro conn.kept connect_conn w_get_conn) (simp split: resource.split add: conn.kept)

lemma w_get_same: "snd (w_get name w) = w" "snd (w_get_str name w) = w"
  by (simp_all add: w_get_def w_get_str_def outcome_simps split: sum.split resource.split)

lemma user_connect_count: "w_conn (snd (user_connect le env ident attr es w)) \<le> Suc (w_conn w)"
proof -
  have "w_conn (snd (connect_iotcc le env ident tls name cid a v)) = Suc (w_conn v)" for tls name cid a v
    by (simp add: connect_iotcc_def Let_def split: prod.split sum.split)
  moreover obtain y where "w_get_str ''broker_username'' w = (y, w)" using w_get_same(2) by (metis prod.collapse)
  ultimately show ?thesis by (simp add: user_connect_def outcome_simps w_get_def split: sum.split)
qed

lemma attempts_count: "attempts (user_connect le env ident attr es) k w u \<Longrightarrow> w_conn u \<le> k + w_conn w"
proof (induction rule: attempts.induct)
  case (attempts_Suc s e t k u)
  then show ?case using user_connect_count [of le env ident attr es s] by simp
qed simp

lemma mqtt_receive_rc: "connect_rc (mc_client (mqtt_comms_receive a c)) = connect_rc (mc_client c)"
  by (simp add: mqtt_comms_receive_def mqtt_subscribe_def Let_def outcome_simps paho_do_def split: sum.split)

lemma connect_Inr:
  assumes "connect_iotcc le env ident tls name cid attr w = (Inr (), w')"
  shows "\<exists>c. w_comms w' = Some c \<and> connect_rc (mc_client c) = 0"
proof -
  obtain c u where c: "MqttDccComms env (Some ident) (Some tls) True None (fst (w_client w (w_conn w))) (snd (w_client w (w_conn w)))
      name cid (map_option Inr attr) (w_uuid w) = (Inr c, u)" "w_comms w' = Some (mqtt_comms_receive None c)"
    using assms by (auto simp: connect_iotcc_def Let_def split: prod.splits sum.splits)
  from MqttDccComms_Inr [OF c(1)] c(2) show ?thesis by (simp add: mqtt_receive_rc)
qed

lemma connected:
  assumes "retry_op n (user_connect le env ident attr es) w = (Inr (), w')"
  shows "conn_only w w' \<and> (\<exists>c. w_comms w' = Some c \<and> connect_rc (mc_client c) = 0) \<and> w_conn w' \<le> Suc n + w_conn w"
proof -
  obtain k u where k: "k \<le> n" "attempts (user_connect le env ident attr es) k w u" "user_connect le env ident attr es u = (Inr (), w')"
    using retry_op_cases [OF assms] by blast
  have "conn_only w w'" by (rule preservesD [OF conn.kept_retry [OF user_connect_conn] assms])
  moreover have "\<exists>c. w_comms w' = Some c \<and> connect_rc (mc_client c) = 0"
  proof -
    obtain u' v where "connect_iotcc le env ident user_tls (fst es) (Some u') (Some attr) v = (Inr (), w')"
      using k(3) unfolding user_connect_def then_e_def bind_e_Inr by blast
    from connect_Inr [OF this] show ?thesis .
  qed
  moreover have "w_conn w' \<le> Suc (w_conn u)" using user_connect_count [of le env ident attr es u] k(3) by simp
  then have "w_conn w' \<le> Suc n + w_conn w" using attempts_count [OF k(2)] k(1) by simp
  ultimately show ?thesis by blast
qed

lemma w_register_Inr:
  assumes "w_register name ob w = (Inr (), w')"
  shows "\<not> has name (w_reg w) \<and> dict_get (reg_registry (w_reg w')) name = Some (RObj (w_next w)) \<and> dict_get (w_objs w') (w_next w) = Some ob \<and>
    w_next w' = Suc (w_next w) \<and> w_comms w' = w_comms w \<and> w_edge w' = w_edge w \<and> w_conn w' = w_conn w \<and>
    w_iotcc w' = w_iotcc w \<and> w_devices w' = w_devices w \<and>
    (\<forall>n. n \<noteq> name \<longrightarrow> dict_get (reg_registry (w_reg w')) n = dict_get (reg_registry (w_reg w)) n) \<and>
    (\<forall>i. i \<noteq> w_next w \<longrightarrow> dict_get (w_objs w') i = dict_get (w_objs w) i)"
  using assms by (auto simp: w_register_def pp_register_def register_def has_def Let_def split: if_splits option.splits)

lemma register_edge_retry:
  assumes "retry_op n (register_edge es) w = (Inr (), w')"
  shows "ic_edge_only w w' \<and> w_edge w' \<noteq> None"
proof -
  obtain u where "register_edge es u = (Inr (), w')" using retry_op_cases [OF assms] by blast
  then have "w_edge w' \<noteq> None" by (auto simp: register_edge_def bind_e_Inr modify_e_def)
  moreover have "ic_edge_only w w'" by (rule preservesD [OF ic_edge.kept_retry [OF register_edge_only] assms])
  ultimately show ?thesis by blast
qed

lemma w_get_entity_same: "snd (w_get_entity name w) = w"
  by (simp add: w_get_entity_def w_get_obj_def w_get_def outcome_simps split: sum.split resource.split option.split pkg_obj.split)

lemma bind_same: "snd (m w) = w \<Longrightarrow> (\<And>x. snd (f x w) = w) \<Longrightarrow> snd (bind_e m f w) = w"
  by (auto simp: bind_e_def split: prod.split sum.split)

lemma user_identity_same: "snd (user_identity w) = w"
  unfolding user_identity_def by (intro bind_same w_get_same) (simp add: return_e_def)

lemma user_topics_same: "snd (user_topics w) = w"
  unfolding user_topics_def
  by (intro bind_same w_get_same) (simp add: on_uuid_def MqttMessagingAttributes_def given_def Let_def)

lemma user_run_steps:
  assumes "user_iotcc_mqtt_run le env w = (Inr (), w')"
  shows "\<exists>es ident attr w1. w_get_entity ''edge_system'' w = (Inr es, w) \<and> user_identity w = (Inr ident, w) \<and>
     retry_op retry_attempts (user_connect le env ident attr es) w = (Inr (), w1) \<and> user_register es w1 = (Inr (), w')"
proof -
  obtain es v where 1: "w_get_entity ''edge_system'' w = (Inr es, v)"
    "bind_e user_identity (\<lambda>ident. bind_e user_topics (\<lambda>attr. except_do
         (then_e (retry_op retry_attempts (user_connect le env ident attr es)) (user_register es))
         (\<lambda>e. then_e disconnect_iotcc (raise_e e)))) v = (Inr (), w')"
    using assms unfolding user_iotcc_mqtt_run_def bind_e_Inr by blast
  then have v: "v = w" using w_get_entity_same by (metis snd_conv)
  obtain ident v2 where 2: "user_identity w = (Inr ident, v2)" "bind_e user_topics (\<lambda>attr. except_do
         (then_e (retry_op retry_attempts (user_connect le env ident attr es)) (user_register es))
         (\<lambda>e. then_e disconnect_iotcc (raise_e e))) v2 = (Inr (), w')"
    using 1(2) unfolding v bind_e_Inr by blast
  then have v2: "v2 = w" using user_identity_same by (metis snd_conv)
  obtain attr v3 where 3: "user_topics w = (Inr attr, v3)" "except_do
         (then_e (retry_op retry_attempts (user_connect le env ident attr es)) (user_register es))
         (\<lambda>e. then_e disconnect_iotcc (raise_e e)) v3 = (Inr (), w')"
    using 2(2) unfolding v2 bind_e_Inr by blast
  then have v3: "v3 = w" using user_topics_same by (metis snd_conv)
  have "then_e (retry_op retry_attempts (user_connect le env ident attr es)) (user_register es) w = (Inr (), w')"
    using 3(2) unfolding v3 except_do_def then_e_def raise_e_def
    by (auto simp: bind_e_def split: prod.splits sum.splits if_splits)
  then obtain x w1 where "retry_op retry_attempts (user_connect le env ident attr es) w = (Inr x, w1)" "user_register es w1 = (Inr (), w')"
    unfolding then_e_def bind_e_Inr by blast
  with 1(1) 2(1) show ?thesis unfolding v v2 by auto
qed

lemma user_run_success:
  assumes "user_iotcc_mqtt_run le env w = (Inr (), w')"
  shows "\<exists>r c. w_edge w' = Some r \<and> w_comms w' = Some c \<and> connect_rc (mc_client c) = 0 \<and> w_conn w' \<le> 6 + w_conn w \<and>
    dict_get (reg_registry (w_reg w')) ''iotcc_mqtt'' = Some (RObj (w_next w)) \<and>
    dict_get (w_objs w') (w_next w) = Some Obj_iotcc \<and>
    dict_get (reg_registry (w_reg w')) ''iotcc_mqtt_edge_system'' = Some (RObj (Suc (w_next w))) \<and>
    dict_get (w_objs w') (Suc (w_next w)) = Some (Obj_reg r)"
proof -
  obtain es ident attr w1 where w1: "retry_op retry_attempts (user_connect le env ident attr es) w = (Inr (), w1)"
    and u: "user_register es w1 = (Inr (), w')" using user_run_steps [OF assms] by blast
  obtain w2 w3 w4 w5 r where s: "retry_op retry_attempts (register_edge es) w1 = (Inr (), w2)"
    "w_register ''iotcc_mqtt'' Obj_iotcc w2 = (Inr (), w3)" "self_edge w3 = (Inr r, w4)"
    "w_register ''iotcc_mqtt_edge_system'' (Obj_reg r) w4 = (Inr (), w5)"
    "try_op retry_attempts (on_ic (set_properties r location_props)) w5 = (Inr (), w')"
    using u unfolding user_register_def then_e_def bind_e_Inr by auto
  have c: "conn_only w w1 \<and> (\<exists>c. w_comms w1 = Some c \<and> connect_rc (mc_client c) = 0) \<and> w_conn w1 \<le> 6 + w_conn w"
    using connected [OF w1] by (simp add: retry_attempts_def)
  have e: "ic_edge_only w1 w2" using register_edge_retry [OF s(1)] by blast
  have 4: "w4 = w3 \<and> w_edge w3 = Some r" using s(3) by (auto simp: self_edge_def split: option.splits)
  have i: "ic_only w5 w'" by (rule preservesD [OF ic_only.kept_try [OF on_ic_only] s(5)])
  show ?thesis using c e 4 i w_register_Inr [OF s(2)] w_register_Inr [OF s(4)]
    by (auto simp: conn_only_def ic_edge_only_def ic_only_def)
qed

end
