(* ===== verification/User_Package_Devices.thy ===== *)
theory User_Package_Devices
  imports User_Package_Results
begin

text \<open>
  What the device package leaves behind: five devices, each registered, linked to the edge system and known to the registry; its
  clean-up; the invariant of the control center's requests under all packages; the values of the sampling functions.
\<close>

section \<open>Frames\<close>

definition dev_frame :: "pkg_world \<Rightarrow> pkg_world \<Rightarrow> bool" where
  "dev_frame w w' \<longleftrightarrow> w_reg w' = w_reg w \<and> w_pp w' = w_pp w \<and> w_objs w' = w_objs w \<and> w_devices w' = w_devices w \<and> w_next w \<le> w_next w'"

interpretation dev_frame: world_relation dev_frame
  by unfold_locales (auto simp: dev_frame_def)

lemma on_ic_frame: "preserves dev_frame (on_ic m)"
  by (simp add: preserves_def dev_frame_def on_ic_def split: prod.split)

lemma on_uuid_frame: "preserves dev_frame (on_uuid m)"
  by (simp add: preserves_def dev_frame_def on_uuid_def split: prod.split)

lemma start_metric_frame: "preserves dev_frame (start_metric pu par name intv nargs)"
proof -
  have "preserves dev_frame (new_metric name intv nargs)"
    by (simp add: preserves_def dev_frame_def new_metric_def split: prod.split)
  then show ?thesis unfolding start_metric_def
    by (intro dev_frame.kept on_ic_frame) (simp_all add: preserves_def dev_frame_def Let_def split: prod.split sum.split)
qed

lemma device_properties_frame: "preserves dev_frame (device_properties d)"
  unfolding device_properties_def by (intro dev_frame.kept on_ic_frame)

text \<open>Linking changes the parent of the last device.\<close>

definition link_frame :: "pkg_world \<Rightarrow> pkg_world \<Rightarrow> bool" where
  "link_frame w w' \<longleftrightarrow> w_reg w' = w_reg w \<and> w_pp w' = w_pp w \<and> w_objs w' = w_objs w \<and> w_next w' = w_next w \<and>
     (\<forall>ds d. w_devices w = ds @ [d] \<longrightarrow> \<not> ir_metric d \<longrightarrow> (\<exists>p. w_devices w' = ds @ [d\<lparr>ir_parent := p\<rparr>]))"

interpretation link_frame: world_relation link_frame
proof
  fix s show "link_frame s s" unfolding link_frame_def
  proof (intro conjI allI impI refl)
    fix ds d assume "w_devices s = ds @ [d]"
    then show "\<exists>p. w_devices s = ds @ [d\<lparr>ir_parent := p\<rparr>]" by (intro exI [of _ "ir_parent d"]) simp
  qed
next
  fix s t u assume st: "link_frame s t" and tu: "link_frame t u"
  have "\<exists>p. w_devices u = ds @ [d\<lparr>ir_parent := p\<rparr>]" if d: "w_devices s = ds @ [d]" "\<not> ir_metric d" for ds d
  proof -
    obtain p where "w_devices t = ds @ [d\<lparr>ir_parent := p\<rparr>]" using st d unfolding link_frame_def by blast
    moreover from this obtain q where "w_devices u = ds @ [d\<lparr>ir_parent := p\<rparr>\<lparr>ir_parent := q\<rparr>]"
      using tu d(2) unfolding link_frame_def by fastforce
    ultimately show ?thesis by (intro exI [of _ q]) simp
  qed
  with st tu show "link_frame s u" unfolding link_frame_def by simp
qed

lemma relate_device_step:
  assumes "w_devices w = ds @ [d]" "\<not> ir_metric d"
  shows "w_devices (snd (relate_device pu edge w)) = ds @ [d\<lparr>ir_parent := Some (ir_entity edge)\<rparr>]"
  using assms by (auto simp: relate_device_def iotcc_create_relationship_def Let_def split: prod.split)

lemma relate_device_frame: "preserves link_frame (relate_device pu edge)"
proof -
  have "w_reg (snd (relate_device pu edge w)) = w_reg w \<and> w_pp (snd (relate_device pu edge w)) = w_pp w \<and>
      w_objs (snd (relate_device pu edge w)) = w_objs w \<and> w_next (snd (relate_device pu edge w)) = w_next w" for w
    by (simp add: relate_device_def split: list.split prod.split)
  then show ?thesis using relate_device_step unfolding preserves_def link_frame_def by blast
qed

lemma relate_retry:
  assumes "retry_op n (relate_device pu edge) w = (Inr (), w')" "w_devices w = ds @ [d]" "\<not> ir_metric d"
  shows "w_devices w' = ds @ [d\<lparr>ir_parent := Some (ir_entity edge)\<rparr>] \<and>
    w_reg w' = w_reg w \<and> w_pp w' = w_pp w \<and> w_objs w' = w_objs w \<and> w_next w' = w_next w"
proof -
  obtain k u where u: "attempts (relate_device pu edge) k w u" "relate_device pu edge u = (Inr (), w')"
    using retry_op_cases [OF assms(1)] by blast
  from u(1) have "link_frame w u"
  proof (induction rule: attempts.induct)
    case (attempts_Suc s e t k u)
    then show ?case using link_frame.R_trans preservesD [OF relate_device_frame] by blast
  qed (rule link_frame.R_refl)
  then obtain p where "w_devices u = ds @ [d\<lparr>ir_parent := p\<rparr>]" using assms(2,3) unfolding link_frame_def by blast
  then have "w_devices w' = ds @ [d\<lparr>ir_parent := Some (ir_entity edge)\<rparr>]"
    using relate_device_step [of u ds "d\<lparr>ir_parent := p\<rparr>" pu edge] u(2) assms(3) by simp
  moreover have "link_frame w w'" by (rule preservesD [OF link_frame.kept_retry [OF relate_device_frame] assms(1)])
  ultimately show ?thesis by (simp add: link_frame_def)
qed

section \<open>Registered devices\<close>

text \<open>What holds of every value that an operation returns.\<close>

definition returns :: "('a \<Rightarrow> bool) \<Rightarrow> ('s \<Rightarrow> ('s, 'a) outcome) \<Rightarrow> bool" where
  "returns P m \<longleftrightarrow> (\<forall>s x t. m s = (Inr x, t) \<longrightarrow> P x)"

lemma returns_rules:
  "(\<And>x. returns P (f x)) \<Longrightarrow> returns P (bind_e m f)" "returns P n \<Longrightarrow> returns P (then_e m n)"
  "returns P (raise_e e)" "P x \<Longrightarrow> returns P (return_e x)"
  by (auto simp: returns_def then_e_def bind_e_Inr raise_e_def return_e_def)

lemma iotcc_register_returns: "returns (\<lambda>r. ir_entity r = gateway_entity e \<and> \<not> ir_metric r) (iotcc_register False u e)"
proof -
  have "returns (\<lambda>r. ir_entity r = e \<and> \<not> ir_metric r) (complete_registration e)" for e
    unfolding complete_registration_def Let_def
    by (simp add: returns_rules split: option.split sum.split pyval.split list.split)
  then show ?thesis unfolding iotcc_register_def register_entity_def Let_def
    by (simp add: returns_rules split: prod.split)
qed

lemma retry_returns: "returns P m \<Longrightarrow> returns P (retry_op n m)"
  unfolding returns_def by (blast dest: retry_op_cases)

lemma on_ic_returns: "returns P m \<Longrightarrow> returns P (on_ic m)"
  by (auto simp: returns_def on_ic_def split: prod.splits)

lemma gateway_name [simp]: "ie_name (gateway_entity e) = ie_name e"
  by (simp add: gateway_entity_def)

definition reg_grows :: "pkg_world \<Rightarrow> pkg_world \<Rightarrow> bool" where
  "reg_grows w w' \<longleftrightarrow> w_next w \<le> w_next w' \<and>
     (\<forall>n v. dict_get (reg_registry (w_reg w)) n = Some v \<longrightarrow> dict_get (reg_registry (w_reg w')) n = Some v) \<and>
     (\<forall>k<w_next w. dict_get (w_objs w') k = dict_get (w_objs w) k)"

definition dev_ok :: "string \<Rightarrow> ic_reg \<Rightarrow> pkg_world \<Rightarrow> nat \<Rightarrow> ic_reg \<Rightarrow> bool" where
  "dev_ok host edge w i d \<longleftrightarrow>
     ie_name (ir_entity d) = device_name host i \<and> ir_parent d = Some (ir_entity edge) \<and>
     (\<exists>k<w_next w. dict_get (reg_registry (w_reg w)) (device_name host i) = Some (RObj k) \<and> dict_get (w_objs w) k = Some (Obj_reg d))"

lemma dev_ok_grows: "dev_ok host edge w i d \<Longrightarrow> reg_grows w w' \<Longrightarrow> dev_ok host edge w' i d"
  unfolding dev_ok_def reg_grows_def by (metis order.strict_trans2)

lemma reg_grows_refl: "reg_grows w w"
  by (simp add: reg_grows_def)

lemma reg_grows_trans: "reg_grows u v \<Longrightarrow> reg_grows v w \<Longrightarrow> reg_grows u w"
  by (simp add: reg_grows_def)

lemma w_register_grows:
  assumes "w_register name ob w = (Inr (), w')"
  shows "reg_grows w w'"
proof -
  note r = w_register_Inr [OF assms]
  have "dict_get (reg_registry (w_reg w)) name = None" using r by (simp add: has_def dict_has_iff)
  then show ?thesis using r unfolding reg_grows_def by (metis le_Suc_eq nat_neq_iff option.distinct(1) order_refl)
qed

lemma SimulatedDevice_name: "SimulatedDevice (PStr n) (PStr ty) u = (Inr e, u') \<Longrightarrow> fst e = n"
  by (auto simp: SimulatedDevice_def named_entity_def Entity_init_def split: prod.splits)

lemma device_setup_ok:
  assumes "device_setup pu host edge i w = (Inr (), w')"
  shows "\<exists>d. w_devices w' = w_devices w @ [d] \<and> dev_ok host edge w' i d \<and> reg_grows w w'"
proof -
  obtain dev w1 r w2 w3 w4 d w5 w6 where s:
    "on_uuid (SimulatedDevice (PStr (device_name host i)) (PStr ''SimulatedDevice'')) w = (Inr dev, w1)"
    "retry_op retry_attempts (on_ic (iotcc_register False None (ic_entity_of dev))) w1 = (Inr r, w2)"
    "retry_op retry_attempts (relate_device pu edge) (w2\<lparr>w_devices := w_devices w2 @ [r]\<rparr>) = (Inr (), w3)"
    "last_device w3 = (Inr d, w4)" "w_register (device_name host i) (Obj_reg d) w4 = (Inr (), w5)"
    "device_properties d w5 = (Inr (), w6)"
    "except_do (start_metric pu d ''Simulated Metrics'' 300 0) (\<lambda>_. return_e ()) w6 = (Inr (), w')"
    using assms unfolding device_setup_def device_link_def then_e_def bind_e_Inr modify_e_def return_e_def by auto
  have 1: "fst dev = device_name host i" using s(1) SimulatedDevice_name by (auto simp: on_uuid_def split: prod.splits)
  have 2: "ir_entity r = gateway_entity (ic_entity_of dev) \<and> \<not> ir_metric r"
    using retry_returns [OF on_ic_returns [OF iotcc_register_returns]] s(2) unfolding returns_def by blast
  have f: "dev_frame w w1" "dev_frame w1 w2"
    using preservesD [OF on_uuid_frame s(1)] preservesD [OF dev_frame.kept_retry [OF on_ic_frame] s(2)] .
  have 3: "w_devices w3 = w_devices w @ [r\<lparr>ir_parent := Some (ir_entity edge)\<rparr>] \<and> w_reg w3 = w_reg w \<and> w_objs w3 = w_objs w \<and>
      w_next w \<le> w_next w3"
    using relate_retry [OF s(3), of "w_devices w2" r] 2 f by (simp add: dev_frame_def)
  then have 4: "w4 = w3" "d = r\<lparr>ir_parent := Some (ir_entity edge)\<rparr>" using s(4) by (auto simp: last_device_def)
  have g: "reg_grows w w3" using 3 by (simp add: reg_grows_def)
  have g5: "reg_grows w4 w5" by (rule w_register_grows [OF s(5)])
  have "dev_frame w5 w'"
    using dev_frame.R_trans [OF preservesD [OF device_properties_frame s(6)]
        preservesD [OF dev_frame.kept_except [OF start_metric_frame dev_frame.kept_pure(1)] s(7)]] .
  then have g6: "reg_grows w5 w'" "w_devices w' = w_devices w5" by (auto simp: reg_grows_def dev_frame_def)
  have "dev_ok host edge w5 i d" using w_register_Inr [OF s(5)] 1 2 4 by (auto simp: dev_ok_def ic_entity_of_def)
  then have "dev_ok host edge w' i d" using g6(1) dev_ok_grows by blast
  moreover have "reg_grows w w'" using g g5 g6(1) 4(1) reg_grows_trans by blast
  moreover have "w_devices w' = w_devices w @ [d]" using g6(2) w_register_Inr [OF s(5)] 3 4 by simp
  ultimately show ?thesis by blast
qed

lemma device_loop_ok:
  assumes "device_loop pu host edge is w = (Inr (), w')"
  shows "\<exists>ds. w_devices w' = w_devices w @ ds \<and> list_all2 (dev_ok host edge w') is ds \<and> reg_grows w w'"
  using assms
proof (induction "is" arbitrary: w)
  case (Cons i "is")
  then obtain v where v: "device_setup pu host edge i w = (Inr (), v)" "device_loop pu host edge is v = (Inr (), w')"
    by (auto simp: then_e_def bind_e_Inr)
  obtain d where d: "w_devices v = w_devices w @ [d]" "dev_ok host edge v i d" "reg_grows w v" using device_setup_ok [OF v(1)] by blast
  obtain ds where ds: "w_devices w' = w_devices v @ ds" "list_all2 (dev_ok host edge w') is ds" "reg_grows v w'"
    using Cons.IH [OF v(2)] by blast
  have "list_all2 (dev_ok host edge w') (i # is) (d # ds)" using dev_ok_grows [OF d(2) ds(3)] ds(2) by simp
  moreover have "w_devices w' = w_devices w @ d # ds" using d(1) ds(1) by simp
  moreover have "reg_grows w w'" using d(3) ds(3) reg_grows_trans by blast
  ultimately show ?case by blast
qed (simp add: return_e_def reg_grows_refl)

lemma w_get_reg_same: "snd (w_get_reg name w) = w" "snd (w_get_obj name w) = w"
  by (simp_all add: w_get_reg_def w_get_obj_def w_get_def outcome_simps split: sum.split resource.split option.split pkg_obj.split)

lemma device_run_ok:
  assumes "device_run pu host w = (Inr (), w')"
  shows "\<exists>edge. w_get_reg ''iotcc_mqtt_edge_system'' w = (Inr edge, w) \<and> list_all2 (dev_ok host edge w') [0..<5] (w_devices w')"
proof -
  obtain ob w1 edge w2 where s: "w_get_obj ''iotcc_mqtt'' w = (Inr ob, w1)" "w_get_reg ''iotcc_mqtt_edge_system'' w1 = (Inr edge, w2)"
    "device_loop pu host edge [0..<5] (w2\<lparr>w_devices := [], w_metrics := []\<rparr>) = (Inr (), w')"
    using assms unfolding device_run_def then_e_def bind_e_Inr modify_e_def by auto
  have "w1 = w" "w2 = w1" using w_get_reg_same s(1,2) by (metis snd_conv)+
  then show ?thesis using s(2) device_loop_ok [OF s(3)] by auto
qed

section \<open>Clean-up\<close>

lemma alive_stop: "alive (stop m s) k \<longleftrightarrow> alive s k \<and> k \<noteq> m"
  by (auto simp: Metric_Handler.alive_def stop_def upd_metric_def stop_collecting_def split: option.splits)

lemma alive_stops: "alive (fold stop ms s) k \<longleftrightarrow> alive s k \<and> k \<notin> set ms"
  by (induction ms arbitrary: s) (auto simp: alive_stop)

lemma unregister_each_mh: "w_mh (snd (unregister_each ds w)) = w_mh w"
proof (induction ds arbitrary: w)
  case (Cons d ds)
  have "w_mh (snd (on_ic (unregister d) w)) = w_mh w" by (simp add: on_ic_def split: prod.split)
  with Cons show ?case by (auto simp: outcome_simps split: prod.split sum.split)
qed (simp add: return_e_def)

text \<open>Collection stops, also if a device can not be unregistered.\<close>

lemma clean_up_stops:
  "alive (w_mh (snd (device_clean_up w))) k \<longleftrightarrow> alive (w_mh w) k \<and> k \<notin> set (w_metrics w)"
  by (simp add: device_clean_up_def stop_metrics_def outcome_simps unregister_each_mh alive_stops)

section \<open>Requests\<close>

text \<open>All packages keep the invariant of the open requests.\<close>

definition ic_kept :: "pkg_world \<Rightarrow> pkg_world \<Rightarrow> bool" where
  "ic_kept w w' \<longleftrightarrow> keeps_inv (w_iotcc w) (w_iotcc w')"

interpretation ic_kept: world_relation ic_kept
  by unfold_locales (auto simp: ic_kept_def keeps_inv_def)

interpretation pair_kept: world_relation "\<lambda>a b :: host \<times> iotcc. keeps_inv (snd a) (snd b)"
  by unfold_locales (auto simp: keeps_inv_def)

lemma on_host_kept: "preserves (\<lambda>a b. keeps_inv (snd a) (snd b)) (on_host m)"
  by (simp add: preserves_def on_host_def split: prod.split)

lemma on_iotcc_kept: "preserves keeps_inv m \<Longrightarrow> preserves (\<lambda>a b. keeps_inv (snd a) (snd b)) (on_iotcc m)"
  by (simp add: preserves_def on_iotcc_def split: prod.split) (metis snd_conv)

lemma create_json_inv: "preserves keeps_inv (create_iotcc_json p)"
proof -
  have "snd (create_iotcc_json p s) = snd (write_json p initial_json s)" for s
    by (simp add: create_iotcc_json_def split: prod.split sum.split py_error.split)
  then show ?thesis using write_json_inv by (simp add: preserves_def)
qed

lemma new_center_inv:
  "preserves keeps_inv (modify_e (\<lambda>s. s\<lparr>ic_json := a, ic_json_load_retry := b, ic_enable_reboot_getprop := c, ic_sys_properties := d,
     ic_counter := 0, ic_req_dict := [], ic_dev_file_path := f, ic_entity_file_path := g\<rparr>))"
  by (auto simp: preserves_def modify_e_def keeps_inv_def ic_inv_def open_queues_def queued_def)

lemma IotControlCenter_kept: "preserves (\<lambda>a b. keeps_inv (snd a) (snd b)) (IotControlCenter le u p)"
  unfolding IotControlCenter_def
  by (intro pair_kept.kept on_host_kept on_iotcc_kept create_json_inv new_center_inv)

lemma on_ic_kept: "preserves keeps_inv m \<Longrightarrow> preserves ic_kept (on_ic m)"
  by (simp add: preserves_def ic_kept_def on_ic_def split: prod.split) (metis snd_conv)

lemma frame_kept: "(\<And>w. w_iotcc (snd (m w)) = w_iotcc w) \<Longrightarrow> preserves ic_kept m"
  by (simp add: preserves_def ic_kept_def)

lemma connect_kept: "preserves ic_kept (connect_iotcc le env ident tls name cid attr)"
proof -
  have "keeps_inv i (snd (snd (IotControlCenter le u p (h, i))))" for u p h i
    using IotControlCenter_kept [of le u p] unfolding preserves_def by (metis snd_conv)
  then have "keeps_inv i j" if "IotControlCenter le u p (h, i) = (r, g, j)" for u p h i r g j using that by (metis snd_conv)
  then show ?thesis
    by (auto simp: preserves_def ic_kept_def connect_iotcc_def Let_def split: prod.split sum.split)
qed

lemma relate_kept: "preserves ic_kept (relate_device pu edge)"
  unfolding preserves_def ic_kept_def
proof
  fix w :: pkg_world
  have "keeps_inv (w_iotcc w) s" if "iotcc_create_relationship pu (Some edge) (Some d) (w_iotcc w) = (r, s, c)" for d r s c
    using create_relationship_inv [where s = "w_iotcc w"] that by (metis fst_conv snd_conv)
  then show "keeps_inv (w_iotcc w) (w_iotcc (snd (relate_device pu edge w)))"
    by (auto simp: relate_device_def split: list.split prod.split)
qed

lemma start_metric_kept: "preserves ic_kept (start_metric pu par name intv nargs)"
proof -
  have "preserves ic_kept (new_metric name intv nargs)" by (rule frame_kept) (simp add: new_metric_def split: prod.split)
  moreover have "keeps_inv i s" if "iotcc_create_relationship pu (Some par) (Some c) i = (r, s, d)" for c r s d i
    using create_relationship_inv [where s = i] that by (metis fst_conv snd_conv)
  ultimately show ?thesis unfolding start_metric_def
    by (intro ic_kept.kept on_ic_kept register_inv)
       (auto simp: preserves_def ic_kept_def Let_def split: prod.split sum.split)
qed

lemma registry_kept:
  "preserves ic_kept (w_get name)" "preserves ic_kept (w_get_str name)" "preserves ic_kept (w_get_obj name)"
  "preserves ic_kept (w_get_entity name)" "preserves ic_kept (w_get_reg name)" "preserves ic_kept (w_register name ob)"
  "preserves ic_kept (read_sample_prop le)" "preserves ic_kept (on_uuid m)" "preserves ic_kept (on_socket m')"
  "preserves ic_kept disconnect_iotcc" "preserves ic_kept self_edge" "preserves ic_kept last_device"
  by (rule frame_kept, simp add: w_get_same w_get_entity_same w_get_reg_same w_register_def on_uuid_def on_socket_def
      disconnect_iotcc_def self_edge_def last_device_def read_sample_prop_def outcome_simps w_get_str_def w_get_def
      split: prod.split option.split list.split sum.split resource.split)+

lemma modify_kept: "(\<And>w. w_iotcc (f w) = w_iotcc w) \<Longrightarrow> preserves ic_kept (modify_e f)"
  by (rule frame_kept) (simp add: modify_e_def)

lemmas kept_ops = registry_kept connect_kept relate_kept start_metric_kept on_ic_kept register_inv set_properties_inv unregister_inv

lemma register_edge_kept: "preserves ic_kept (register_edge es)"
  unfolding register_edge_def by (intro ic_kept.kept kept_ops modify_kept) simp

lemma sample_register_kept: "preserves ic_kept (sample_register es)"
proof -
  let ?m = "then_e (register_edge es) (then_e (w_register ''iotcc_mqtt'' Obj_iotcc)
    (bind_e self_edge (\<lambda>r. w_register ''iotcc_mqtt_edge_system'' (Obj_reg r))))"
  have "preserves ic_kept ?m" by (intro ic_kept.kept kept_ops register_edge_kept)
  moreover have "snd (sample_register es w) = snd (?m w)" for w
    by (auto simp: sample_register_def split: prod.split sum.split py_error.split)
  ultimately show ?thesis by (simp add: preserves_def)
qed

lemma device_loop_kept: "preserves ic_kept (device_loop pu host edge is)"
proof -
  have "preserves ic_kept (device_setup pu host edge i)" for i
    unfolding device_setup_def device_link_def device_properties_def by (intro ic_kept.kept kept_ops modify_kept) simp
  then show ?thesis by (induction "is") (simp_all add: ic_kept.kept)
qed

lemma package_runs_kept:
  assumes "run \<in> set (package_runs le env pu host)"
  shows "preserves ic_kept run"
proof -
  have "preserves ic_kept (edge_system_run le)" "preserves ic_kept general_edge_system_run"
    unfolding edge_system_run_def general_edge_system_run_def by (intro ic_kept.kept kept_ops)+
  moreover have "preserves ic_kept (graphite_run le)"
    unfolding graphite_run_def by (intro ic_kept.kept kept_ops frame_kept) simp
  moreover have "preserves ic_kept (iotcc_mqtt_run le env)"
    unfolding iotcc_mqtt_run_def by (intro ic_kept.kept kept_ops sample_register_kept)
  moreover have "preserves ic_kept (user_iotcc_mqtt_run le env)"
    unfolding user_iotcc_mqtt_run_def user_identity_def user_topics_def user_connect_def user_register_def
    by (intro ic_kept.kept kept_ops register_edge_kept)
  moreover have "preserves ic_kept (edge_stats_run pu)"
    unfolding edge_stats_run_def by (intro ic_kept.kept kept_ops modify_kept) simp
  moreover have "preserves ic_kept (device_run pu host)"
    unfolding device_run_def by (intro ic_kept.kept kept_ops modify_kept device_loop_kept) simp
  ultimately show ?thesis using assms by (auto simp: package_runs_def)
qed

section \<open>Metrics always start\<close>

lemma start_collecting_alive:
  "dict_has (metrics h) m \<Longrightarrow> alive (start_collecting n m h) m"
  "alive h k \<Longrightarrow> alive (start_collecting n m h) k"
proof -
  let ?h = "initialize n h"
  have i: "metrics ?h = metrics h" by (simp add: initialize_def)
  have p: "metrics (snd (put_and_notify e b x s)) = metrics s" for e b x s
    by (simp add: put_and_notify_def notify_changed_def Let_def split: checker_pc.split)
  have a: "alive (start_collecting n m h) k \<longleftrightarrow> alive (upd_metric m (mark_started (mh_clock ?h)) ?h) k" for k
    by (simp add: start_collecting_def Let_def Metric_Handler.alive_def p)
  show "dict_has (metrics h) m \<Longrightarrow> alive (start_collecting n m h) m"
    unfolding a by (auto simp: Metric_Handler.alive_def upd_metric_def mark_started_def i dict_has_iff split: option.split)
  show "alive h k \<Longrightarrow> alive (start_collecting n m h) k"
    unfolding a by (auto simp: Metric_Handler.alive_def upd_metric_def mark_started_def i split: option.splits)
qed

lemma start_metric_ok:
  assumes "assert_input (PStr name) 50 = Inr ()"
  shows "\<exists>w'. start_metric pu par name intv nargs w = (Inr (), w') \<and> w_metrics w' = w_metrics w @ [w_next w] \<and>
    w_next w' = Suc (w_next w) \<and> alive (w_mh w') (w_next w) \<and> (\<forall>k. k \<noteq> w_next w \<longrightarrow> alive (w_mh w) k \<longrightarrow> alive (w_mh w') k) \<and>
    w_iotcc w' = w_iotcc w"
proof -
  obtain i u where u: "get_uuid name (w_uuid w) = (i, u)" by fastforce
  define m where "m = \<lparr>m_name = name, m_entity_id = i, m_entity_type = ''Metric'', m_unit = None, interval = of_int intv,
    aggregation_size = 1, sampling_args = nargs\<rparr>"
  have 1: "new_metric name intv nargs w = (Inr m, w\<lparr>w_uuid := u\<rparr>)"
    by (simp add: new_metric_def u Metric_init_def Entity_init_def is_int_def number_of_def m_def)
  have t: "assert_input (PStr ''Metric'') 50 = Inr ()" by code_simp
  let ?h = "\<lambda>rid. (w_mh w)\<lparr>metrics := dict_set (w_next w) (RegisteredMetric m rid) (metrics (w_mh w))\<rparr>"
  have al: "alive (start_collecting (w_pool w) (w_next w) (?h rid)) (w_next w)" for rid
    by (rule start_collecting_alive(1)) (simp add: dict_has_iff)
  have keep: "alive (start_collecting (w_pool w) (w_next w) (?h rid)) k" if "k \<noteq> w_next w" "alive (w_mh w) k" for rid k
    by (rule start_collecting_alive(2)) (use that in \<open>simp add: Metric_Handler.alive_def\<close>)
  show ?thesis unfolding start_metric_def
    by (simp add: bind_e_def 1 on_ic_def iotcc_register_def then_e_def lift_e_def assms t m_def return_e_def
        iotcc_create_relationship_def Let_def al [unfolded m_def] keep [unfolded m_def])
qed

lemma stats_names:
  "assert_input (PStr ''CPU Utilization'') 50 = Inr ()" "assert_input (PStr ''CPU Process'') 50 = Inr ()"
  "assert_input (PStr ''Disk Usage Stats'') 50 = Inr ()" "assert_input (PStr ''Network Bytes Received'') 50 = Inr ()"
  "assert_input (PStr ''Memory Free'') 50 = Inr ()" "assert_input (PStr ''Simulated Metrics'') 50 = Inr ()"
  by code_simp+

text \<open>One metric after the other; what is started stays started.\<close>

definition starts :: "nat \<Rightarrow> pkg_world \<Rightarrow> pkg_world \<Rightarrow> bool" where
  "starts n w w' \<longleftrightarrow> w_metrics w' = w_metrics w @ [w_next w..<w_next w + n] \<and> w_next w' = w_next w + n \<and>
     w_iotcc w' = w_iotcc w \<and> (\<forall>k\<in>{w_next w..<w_next w + n}. alive (w_mh w') k)"

lemma starts_0: "starts 0 w w"
  by (simp add: starts_def)

lemma starts_Suc:
  assumes "starts n w v" "assert_input (PStr name) 50 = Inr ()"
  shows "\<exists>w'. start_metric pu par name intv nargs v = (Inr (), w') \<and> starts (Suc n) w w'"
proof -
  obtain w' where w': "start_metric pu par name intv nargs v = (Inr (), w')" "w_metrics w' = w_metrics v @ [w_next v]"
    "w_next w' = Suc (w_next v)" "alive (w_mh w') (w_next v)" "\<forall>k. k \<noteq> w_next v \<longrightarrow> alive (w_mh v) k \<longrightarrow> alive (w_mh w') k"
    "w_iotcc w' = w_iotcc v"
    using start_metric_ok [OF assms(2)] by blast
  moreover have "alive (w_mh w') k" if "k \<in> {w_next w..<w_next w + Suc n}" for k
    using assms(1) w' that by (cases "k = w_next v") (auto simp: starts_def)
  ultimately show ?thesis using assms(1) by (auto simp: starts_def)
qed

lemma edge_stats_started:
  assumes "w_get_reg ''iotcc_mqtt_edge_system'' w = (Inr es, w)" "w_get_obj ''iotcc_mqtt'' w = (Inr ob, w)"
  shows "\<exists>w'. edge_stats_run pu w = (Inr (), w') \<and> starts 5 (w\<lparr>w_metrics := []\<rparr>) w'"
proof -
  let ?w = "w\<lparr>w_metrics := []\<rparr>"
  obtain w1 where 1: "start_metric pu es ''CPU Utilization'' 5 1 ?w = (Inr (), w1)" "starts (Suc 0) ?w w1"
    using starts_Suc [OF starts_0 stats_names(1)] by blast
  obtain w2 where 2: "start_metric pu es ''CPU Process'' 5 0 w1 = (Inr (), w2)" "starts (Suc (Suc 0)) ?w w2"
    using starts_Suc [OF 1(2) stats_names(2)] by blast
  obtain w3 where 3: "start_metric pu es ''Disk Usage Stats'' 5 0 w2 = (Inr (), w3)" "starts (Suc (Suc (Suc 0))) ?w w3"
    using starts_Suc [OF 2(2) stats_names(3)] by blast
  obtain w4 where 4: "start_metric pu es ''Network Bytes Received'' 5 0 w3 = (Inr (), w4)" "starts (Suc (Suc (Suc (Suc 0)))) ?w w4"
    using starts_Suc [OF 3(2) stats_names(4)] by blast
  obtain w5 where 5: "start_metric pu es ''Memory Free'' 10 0 w4 = (Inr (), w5)" "starts (Suc (Suc (Suc (Suc (Suc 0))))) ?w w5"
    using starts_Suc [OF 4(2) stats_names(5)] by blast
  have "edge_stats_run pu w = (Inr (), w5)"
    by (simp add: edge_stats_run_def bind_e_def then_e_def assms except_do_def modify_e_def 1(1) 2(1) 3(1) 4(1) 5(1) del: One_nat_def)
  with 5(2) show ?thesis by (simp add: eval_nat_numeral)
qed

text \<open>The metric of a device does not keep it from being set up.\<close>

lemma device_setup_returns:
  assumes "fst (device_link pu host edge i w) = Inr d"
  shows "fst (device_setup pu host edge i w) = Inr ()"
proof -
  obtain v where v: "device_link pu host edge i w = (Inr d, v)" using assms by (metis prod.collapse)
  obtain w' where "start_metric pu d ''Simulated Metrics'' 300 0 v = (Inr (), w')" using start_metric_ok [OF stats_names(6)] by blast
  with v show ?thesis by (simp add: device_setup_def bind_e_def except_do_def)
qed

lemma edge_stats_stopped:
  "alive (w_mh (snd (edge_stats_clean_up w))) k \<longleftrightarrow> alive (w_mh w) k \<and> k \<notin> set (w_metrics w)"
  by (simp add: edge_stats_clean_up_def stop_metrics_def modify_e_def alive_stops)

text \<open>\<^verbatim>\<open>read_mem_free\<close> is documented to return the free percentage: it is the used one.\<close>

lemma read_mem_free_used:
  assumes "0 < py_round m 4"
  shows "read_mem_free m m = Some 0" "read_mem_free m 0 = Some 100"
proof -
  have "py_round 0 4 = 0" "py_round 0 2 = 0" "py_round 100 2 = 100" by (simp_all add: py_round_def floor_eq_iff)
  then show "read_mem_free m m = Some 0" "read_mem_free m 0 = Some 100"
    using assms by (simp_all add: read_mem_free_def Let_def)
qed

end
