(* ===== verification/Service_Example.thy ===== *)
theory Service_Example
  imports Iotcc_Registration Simulator_Properties Discovery_Simulator Data_Filters Web_Socket Si_Units User_Package_Devices
begin

text \<open>Small concrete states of the data center components, of device discovery and its simulator, of the transports and of packages.\<close>

section \<open>IoT control center\<close>

definition ex_sensor :: ic_entity where
  "ex_sensor = \<lparr>ie_name = ''lm35-1'', ie_type = ''LM35'', ie_id = ''id1''\<rparr>"

definition ex_reply :: "string \<Rightarrow> pyval option" where
  "ex_reply uuid =
     Some (PDict [(''transactionID'', PInt 2), (''version'', PInt 20171118), (''type'', PStr ''create_or_find_resource_response''),
       (''body'', PDict [(''uuid'', PStr uuid), (''id'', PStr ''id1'')])])"

text \<open>A text that is not JSON and a message for another request arrive before the response.\<close>

definition ex_junk :: "pyval option list" where
  "ex_junk = [None, Some (PDict [(''type'', PStr ''action''), (''transactionID'', PInt 8)])]"

definition ex_iotcc :: "string \<Rightarrow> iotcc" where
  "ex_iotcc uuid = \<lparr>ic_counter = 0, ic_req_dict = [], ic_queues = [], ic_next_queue = 0, ic_recv = ex_junk @ ex_reply uuid # [],
     ic_sent = [], ic_reg_entity_id = PNone, ic_prop_list = PNone, ic_json = ''iotcc.json'',
     ic_files = [(''iotcc.json'', FJson (PDict [(''iotcc'', PDict [(''EdgeSystem'',
        PDict [(''SystemName'', PStr ''gw''), (''uuid'', PStr ''u0'')])])]))],
     ic_json_load_retry = 3, ic_enable_reboot_getprop = ''False'', ic_sys_properties = None, ic_dcc_load_time = 0,
     ic_dev_file_path = Some ''devs'', ic_entity_file_path = Some ''entity'', ic_utc_ms = 0, ic_utc_text = ''t1'',
     ic_local_text = ''t2'', ic_strptime = (\<lambda>_. Inr 0), ic_writable = (\<lambda>_. True), ic_send = (\<lambda>_. Inr ())\<rparr>"

lemma ex_iotcc_inv: "ic_inv (ex_iotcc u)"
  by (rule ic_inv_start) (simp_all add: ex_iotcc_def)

lemma ex_iotcc_tid: "next_tid (ex_iotcc u) = 2"
  by (simp add: next_tid_def ex_iotcc_def)

lemma ex_junk_other: "\<forall>x\<in>set ex_junk. \<not> replies_to 2 x"
  by (simp add: ex_junk_def replies_to_def reply_key_def py_item_def py_eq_def is_int_def number_of_def)

lemma ex_reply_answers: "replies_to 2 (ex_reply u)"
  by (simp add: ex_reply_def replies_to_def reply_key_def py_item_def py_eq_def is_int_def number_of_def)

lemma ex_registration_reply:
  "registration_reply ex_sensor (ex_reply u) = Inr (if u = ''null'' then None else Some (PStr u))"
  by (simp add: registration_reply_def ex_reply_def json_loads_def check_version_def py_item_def py_eq_def is_int_def
      number_of_def ic_version_def ex_sensor_def)

lemma ex_sensor_gateway: "gateway_entity ex_sensor = ex_sensor"
  by (simp add: gateway_entity_def ex_sensor_def)

section \<open>Device discovery\<close>

definition ex_disc_config :: disc_config where
  "ex_disc_config = \<lparr>c_cmd_msg_pipe = Some ''/p'', c_endpoint_list = [], c_type_dcc_map = [(''LM35'', [''graphite'', ''iotcc''])],
     c_type_key_map = [(''LM35'', ''SN'')], c_type_tuple = [(''LM35'', ''SN'', [''graphite'', ''iotcc''])],
     c_package_path = None, c_dev_file_path = None, c_org_file_path = ''iotcc.json''\<rparr>"

definition ex_conf :: conf where
  "ex_conf =
     [(''IOTCC_PATH'', [(''dev_file_path'', ''/devs''), (''iotcc_path'', ''/iotcc.json'')]),
      (''DISC_CFG'', [(''disc_cmd_msg_pipe'', ''/cmd'')]),
      (''PKG_CFG'', [(''pkg_path'', ''/pkg'')]),
      (''DISC_ENDPOINT_LIST'', [(''disc_msg_pipe'', ''/msg''), (''socket'', ''127.0.0.1:5000'')]),
      (''DEVICE_TYPE_TO_UNIQUEKEY_MAPPING'', [(''LM35'', ''SN'')]),
      (''DEVICE_TYPE_TO_DCC_MAPPING'', [(''LM35'', ''graphite, iotcc'')])]"

definition ex_disc :: disc where
  "ex_disc = \<lparr>os_dirs = [''/'', ''/devs''], os_fifos = [''/cmd''], os_plain = [''/etc/liota/liota.conf''], os_create = (\<lambda>_. True),
     os_list = (\<lambda>_. True), os_cwd = ''/'', h_home = ''/root'', h_environ = None, h_conf = (\<lambda>_. Conf ex_conf),
     path_liota_config = [], d_cmd_pipe = None, d_endpoints = [], d_type_dcc = [], d_type_key = [], d_type_tuple = [],
     d_package_path = None, d_dev_path = None, d_org_path = None, d_config = ex_disc_config,
     d_files = [(''iotcc.json'', FJson (PDict [(''iotcc'', PDict [(''OGProperties'', PDict [(''OrganizationGroup'', PStr ''g'')])])]))],
     d_listeners = [], d_devices = [], d_alive = True, d_messenger_alive = True, d_pipe_written = [],
     d_resources = [''graphite'', ''iotcc'', ''iotcc_edge_system''],
     d_uuid = \<lparr>node_first = 0, node_retry = 0, seeded_random = 0, md5_hex = (\<lambda>s. s), uuid5 = (\<lambda>a b. a @ b),
        namespace_url = ''ns'', system_uuid = ''sys''\<rparr>,
     d_calls = [], d_answer = (\<lambda>_ _. Inr ()), d_start = (\<lambda>_ _ _. Inr ()), d_clean_up = (\<lambda>_. Inr ())\<rparr>"

definition ex_props :: "(string \<times> pyval) list" where
  "ex_props = [(''SN'', PStr ''42''), (''model'', PStr ''LM35-A2'')]"

definition ex_device :: device where
  "ex_device = \<lparr>dev_name = ''LM35_42'', dev_id = ''sysLM35_42'', dev_type = ''LM35''\<rparr>"

section \<open>MQTT\<close>

definition ex_ssl :: ssl_env where
  "ex_ssl = \<lparr>ssl_available = True, ssl_default_certs = True,
     ssl_attr = map_of [(''CERT_NONE'', 0), (''CERT_REQUIRED'', 2), (''PROTOCOL_TLSv1_2'', 5)], ssl_check_hostname = True,
     ssl_do = (\<lambda>_. Inr ()), ssl_exists = (\<lambda>p. p \<in> {''ca.pem'', ''c.pem'', ''k.pem''}), ssl_crl_path = Inr ''None''\<rparr>"

definition ex_identity :: identity where
  "ex_identity = \<lparr>root_ca_cert = Some ''ca.pem'', username = Some ''u'', password = Some ''p'', cert_file = Some ''c.pem'',
     key_file = Some ''k.pem''\<rparr>"

definition ex_tls :: tls_conf where
  "ex_tls = \<lparr>cert_required = Some ''CERT_REQUIRED'', tls_version = None, cipher = None\<rparr>"

definition ex_mqtt :: mqtt where
  "ex_mqtt = \<lparr>connect_rc = maxsize, disconnect_rc = maxsize, sub_dict = [], paho_log = [], paho_answer = (\<lambda>_ _. Inr 0),
     conn_disconn_timeout = 1\<rparr>"

section \<open>Simulators\<close>

text \<open>A discovery that knows the device type of the simulator, and the simulator before its first round.\<close>

definition ex_press :: disc where
  "ex_press = ex_disc\<lparr>d_config := ex_disc_config\<lparr>c_type_dcc_map := [(''Press64'', [''graphite''])], c_type_key_map := [(''Press64'', ''serial'')]\<rparr>\<rparr>"

definition ex_pipe_sim :: pipe_sim where
  "ex_pipe_sim = \<lparr>ps_cnt = 0, ps_alive = True, ps_flag = None, ps_written = [], ps_write = (\<lambda>_. Inr ())\<rparr>"

lemma ex_press_knows: "knows_press [''graphite''] ex_press"
  by (simp add: knows_press_def ex_press_def ex_disc_def ex_disc_config_def all_answer_def add_organization_properties_def py_item_def)

text \<open>The configuration of \<open>ex_disc\<close> with the section of the simulator, and the file that names the edge system.\<close>

definition ex_sim_host :: disc where
  "ex_sim_host = ex_disc\<lparr>h_conf := (\<lambda>p. if p = ''/pkg/sampleProp.conf'' then Conf [(''DEFAULT'', [(''EdgeSystemName'', ''gw'')])]
     else Conf ((''DEVSIM_CFG'', [(''devsim_cmd_msg_pipe'', ''/cmd'')]) # ex_conf))\<rparr>"

section \<open>Web socket\<close>

text \<open>The first two sends fail.\<close>

definition ex_websocket :: websocket where
  "ex_websocket = \<lparr>ws_open = True, ws_verify_cert = True, ws_identity = Some ex_identity, ws_queue = [], ws_log = [],
     ws_answer = (\<lambda>h c. case c of Ws_send _ \<Rightarrow> if length (filter (\<lambda>x. case x of Ws_send _ \<Rightarrow> True | _ \<Rightarrow> False) h) < 2 then Inl IOError else Inr ()
        | _ \<Rightarrow> Inr ()), ws_exists = (\<lambda>p. p = ''ca.pem''), ws_isfile = (\<lambda>p. p = ''ca.pem'')\<rparr>"

section \<open>Packages\<close>

definition ex_uuid :: uuid_env where
  "ex_uuid = \<lparr>node_first = 0, node_retry = 0, seeded_random = 0, md5_hex = (\<lambda>s. s), uuid5 = (\<lambda>a b. a @ b),
        namespace_url = ''ns'', system_uuid = ''sys''\<rparr>"

definition ex_center_conf :: conf where
  "ex_center_conf =
     [(''IOTCC_PATH'', [(''dev_file_path'', ''/devs''), (''iotcc_path'', ''/iotcc.json''), (''entity_file_path'', ''/devs''),
        (''iotcc_load_retry'', ''3''), (''enable_reboot_getprop'', ''False''), (''system_properties'', [])])]"

definition ex_host :: host where
  "ex_host = \<lparr>os_dirs = [''/'', ''/devs''], os_fifos = [], os_plain = [''/etc/liota/liota.conf''], os_create = (\<lambda>_. True),
     os_list = (\<lambda>_. True), os_cwd = ''/'', h_home = ''/root'', h_environ = None, h_conf = (\<lambda>_. Conf ex_center_conf),
     path_liota_config = ''/etc/liota/liota.conf''\<rparr>"

definition ex_registered :: "int \<Rightarrow> string \<Rightarrow> string \<Rightarrow> pyval option" where
  "ex_registered tid uuid eid =
     Some (PDict [(''transactionID'', PInt tid), (''version'', PInt 20171118), (''type'', PStr ''create_or_find_resource_response''),
       (''body'', PDict [(''uuid'', PStr uuid), (''id'', PStr eid)])])"

definition ex_done :: "int \<Rightarrow> pyval option" where
  "ex_done tid =
     Some (PDict [(''transactionID'', PInt tid), (''version'', PInt 20171118), (''type'', PStr ''response''),
       (''body'', PDict [(''result'', PStr ''succeeded'')])])"

definition ex_center :: "pyval option list \<Rightarrow> iotcc" where
  "ex_center msgs = (ex_iotcc [])\<lparr>ic_recv := msgs, ic_files := []\<rparr>"

definition ex_registry :: registry where
  "ex_registry = \<lparr>reg_registry = [(''edge_system'', RObj 0), (''broker_root_ca_cert'', RStr ''ca.pem''), (''broker_username'', RStr ''u''),
     (''broker_password'', RStr ''p''), (''edge_system_cert_file'', RStr ''c.pem''), (''edge_system_key_file'', RStr ''k.pem''),
     (''broker_ip'', RStr ''10.0.0.1''), (''broker_port'', RStr ''8883'')], reg_packages = []\<rparr>"

text \<open>Before the package connects: of the connections, \<open>n\<close> fail before one is accepted.\<close>

definition ex_world :: "nat \<Rightarrow> pyval option list \<Rightarrow> pkg_world" where
  "ex_world n msgs = \<lparr>w_pp = \<lparr>pp_package_name = ''iotcc_mqtt''\<rparr>, w_reg = ex_registry,
     w_objs = [(0, Obj_entity (''gw'', ''sysgw'', ''EdgeSystem''))], w_next = 1, w_uuid = ex_uuid, w_host = ex_host,
     w_iotcc = ex_center msgs, w_comms = None, w_edge = None, w_devices = [], w_metrics = [], w_mh = mh_start [] 0, w_pool = 1,
     w_conn = 0, w_client = (\<lambda>k. (if k < n then [] else [[], [EConnect 0]], ex_mqtt)), w_disc = [],
     w_socket = \<lparr>soc_client = False, soc_log = [], soc_answer = (\<lambda>_ _. Inr ())\<rparr>, w_graphite = []\<rparr>"

definition ex_literal :: "string \<Rightarrow> py_error + pyval" where
  "ex_literal t = Inr (PStr t)"

definition ex_no_unit :: parse_unit_fun where
  "ex_no_unit u = Inl ValueError"

text \<open>A registered edge system.\<close>

definition ex_edge :: ic_reg where
  "ex_edge = \<lparr>ir_metric = False, ir_entity = \<lparr>ie_name = ''gw'', ie_type = ''HelixGateway'', ie_id = ''sysgw''\<rparr>, ir_id = PStr ''u0'',
     ir_parent = None, ir_unit = None\<rparr>"

section \<open>Units\<close>

text \<open>Units as texts.\<close>

definition ex_units :: "string unit_registry" where
  "ex_units = \<lparr>ur_str = (\<lambda>u. u), ur_default_system = ''mks'', ur_attr = (\<lambda>n. Inr n), ur_base = (\<lambda>u. Inr (1, u)),
     ur_dimensionless = (\<lambda>u. u = ''dimensionless'')\<rparr>"

end
