(* ===== verification/Spec2Isabelle.thy ===== *)
theory Spec2Isabelle
  imports Package_Example Metric_Example Service_Example
begin

text \<open>
  \<^bold>\<open>Liota, a framework for IoT gateways.\<close> Packages (Python modules) are loaded into a daemon by a package manager and
  create metrics; a metric handler samples metrics at their intervals and hands them to data center components, which
  publish the values to a service; device discovery listens to devices and registers them with the data center
  components. This development models these parts from the sources under \<^verbatim>\<open>src/liota\<close> and proves what makes each of them
  correct, where it is, and what goes wrong, where it is not.

  \<^bold>\<open>Conventions.\<close> Operations that can raise return \<open>(py_error + 'a) \<times> 's\<close>, the state beside the error. Dictionaries are
  association lists with distinct keys. Values of unknown type are \<open>pyval\<close>. What is outside the repository or the
  process (clocks, hash functions, \<^verbatim>\<open>json.loads\<close> of the texts of files and messages, the library pint, sending, whether a file may
  be written) is an argument of the definitions or a field of the state, arbitrary in the theorems. Log output is
  modelled only where it is the result of a command.

  \<^bold>\<open>Theories and sources.\<close>
  \<^item> \<^verbatim>\<open>Liota_Prelude\<close>, \<^verbatim>\<open>Py_Values\<close>, \<^verbatim>\<open>Json_Text\<close>: exceptions, dictionaries, strings, dynamic values, printing and parsing of JSON.
  \<^item> \<^verbatim>\<open>Resource_Registry\<close>, \<^verbatim>\<open>Autoload_List\<close>, \<^verbatim>\<open>Package_Files\<close>, \<^verbatim>\<open>Package_Manager\<close> (\<^verbatim>\<open>core/package_manager.py\<close>): the
    registry, the start-up list, package files, and every operation of \<^verbatim>\<open>PackageThread\<close>. \<^verbatim>\<open>Package_Invariant\<close>,
    \<^verbatim>\<open>Package_Load\<close>, \<^verbatim>\<open>Package_Unload\<close> prove the invariant of its tables, that loading and unloading return, and what
    they do; \<^verbatim>\<open>Package_Commands\<close> has the command interpreter, the pipe reader and the reachable states. Properties C1--C13.
  \<^item> \<^verbatim>\<open>User_Packages\<close> (\<^verbatim>\<open>src/packages\<close>): the packages for edge systems, Graphite, the control center, devices and statistics,
    as operations on a world of registry, objects and components; \<^verbatim>\<open>User_Package_Properties\<close> (they are package programs),
    \<^verbatim>\<open>User_Package_Results\<close> (connections), \<^verbatim>\<open>User_Package_Devices\<close> (devices, metrics, requests). Properties C14--C17.
  \<^item> \<^verbatim>\<open>Registered_Metric\<close> (\<^verbatim>\<open>entities/metrics\<close>), \<^verbatim>\<open>Event_Heap\<close> (the \<^verbatim>\<open>heapq\<close> the queue is built on), \<^verbatim>\<open>Metric_Handler\<close>
    (\<^verbatim>\<open>core/metric_handler.py\<close>): the queue of events and the checking, collecting and sending threads as a transition
    system with arbitrary interleaving; \<^verbatim>\<open>Metric_Invariant\<close> proves its invariant. Properties C18--C22.
  \<^item> \<^verbatim>\<open>Data_Filters\<close> (\<^verbatim>\<open>lib/utilities/filters\<close>), \<^verbatim>\<open>Dccs\<close> (\<^verbatim>\<open>dccs/dcc.py\<close>, \<^verbatim>\<open>graphite.py\<close>, \<^verbatim>\<open>aws_iot.py\<close>). Properties C23--C25.
  \<^item> \<^verbatim>\<open>Iotcc\<close>, \<^verbatim>\<open>Iotcc_Operations\<close> (\<^verbatim>\<open>dccs/iotcc.py\<close>): messages, requests and the dispatching thread, local files, and all
    operations of \<^verbatim>\<open>IotControlCenter\<close>; \<^verbatim>\<open>Iotcc_Requests\<close> and \<^verbatim>\<open>Iotcc_Registration\<close> prove the invariant of the open requests
    and what the operations achieve. Properties C26--C30.
  \<^item> \<^verbatim>\<open>Liota_Config\<close> (\<^verbatim>\<open>lib/utilities/utility.py\<close>, \<^verbatim>\<open>initialize\<close> of the package manager): the configuration file,
    directories and pipes, logging, names of resources. \<^verbatim>\<open>Device_Discovery\<close>, \<^verbatim>\<open>Discovery_Properties\<close>
    (\<^verbatim>\<open>core/device_discovery.py\<close>), \<^verbatim>\<open>Disc_Listeners\<close> (\<^verbatim>\<open>disc_listeners\<close>). Properties C31--C33.
  \<^item> \<^verbatim>\<open>Mqtt_Transport\<close> (\<^verbatim>\<open>lib/transports/mqtt.py\<close>, \<^verbatim>\<open>dcc_comms/mqtt_dcc_comms.py\<close>): TLS settings, connecting,
    subscriptions and their renewal, topics. Properties C34 and C35.
  \<^item> \<^verbatim>\<open>Device_Simulators\<close>, \<^verbatim>\<open>Simulator_Properties\<close> (\<^verbatim>\<open>dev_sims\<close>, \<^verbatim>\<open>device_comms\<close>, the MQTT listener): messages of simulated devices
    and what becomes of them in device discovery. \<^verbatim>\<open>Discovery_Simulator\<close> (\<^verbatim>\<open>core/discovery_simulator.py\<close>): the thread that runs
    the simulators. \<^verbatim>\<open>Simulated_Devices\<close> (\<^verbatim>\<open>entities/devices\<close>, \<^verbatim>\<open>entities/edge_systems\<close>): the simulated bicycle and thermistor and the
    constructors of edge systems. Properties C36 and C37.
  \<^item> \<^verbatim>\<open>Web_Socket\<close> (\<^verbatim>\<open>lib/transports/web_socket.py\<close>, \<^verbatim>\<open>dcc_comms/websocket_dcc_comms.py\<close>, \<^verbatim>\<open>socket_comms.py\<close>). Property C38.
  \<^item> \<^verbatim>\<open>Si_Units\<close> (\<^verbatim>\<open>lib/utilities/si_unit.py\<close>): the regular expressions of the module with an engine for their syntax, names of
    units, prefixes. Properties C39 and C40.
  \<^item> \<^verbatim>\<open>Package_Example\<close>, \<^verbatim>\<open>Metric_Example\<close>, \<^verbatim>\<open>Service_Example\<close>: concrete states at which the properties are applied.

  Theorems of this theory without a number are further results of the same kind, several about behaviour that is not intended.

  \<^bold>\<open>Interfaces.\<close> Locale \<open>registry_safe\<close>: what survives any package code. Locales
  \<open>loader\<close> and \<open>unloader\<close>, with their total extensions: what a recursive load or unload may change. Locale \<open>package_op\<close>: what the command interpreter needs
  of package operations. Locale \<open>priority_queue\<close>: what the metric handler needs of the heap. Locale \<open>value_filter\<close>: a filter returns
  its argument or \<^verbatim>\<open>None\<close>, from which the behaviour of windows around any filter follows. Locale \<open>dcc\<close>: formatting empties the
  queue of a metric and touches nothing else, from which follows that publishing keeps the schedule (\<open>publish_ok\<close>), which the
  invariant of the metric handler relies on. Locale \<open>beacon_loop\<close>: the loop that all four simulators have. Locale
  \<open>world_relation\<close>: relations that sequences, retries and handlers of package code keep, interpreted for the registry, the requests
  and several frames. All are interpreted on the model's definitions.

  \<^bold>\<open>Recursion and bounds.\<close> Loading and unloading of packages recurse to the depth of the dependency graph; the recursion
  limit of the interpreter is an argument, and C3 and C6 show that a limit above the number of files, respectively of
  loaded packages, is enough. The hierarchy of entities recurses along parents; a chain shorter than the limit is
  returned (\<open>extract_chain\<close>), a cycle exceeds every limit (\<open>aws_parent_cycle\<close>). Waiting for a response consumes the messages that
  arrive within the time-out, \<open>ic_recv\<close>; the functions terminate on the number of these messages. Transaction
  identifiers wrap at 24 bits as in the source (C26). Loops of simulators are observed for a number of rounds (\<open>sim_loop\<close>):
  five rounds send everything (C36), and only the loop of the CoAP simulator ends by itself, after twenty-one
  (\<open>coap_simulator_ends\<close>). The retries of packages and of the web socket are bounded as in the source (C15, C16, C38). The parser
  of JSON texts recurses to the length of the text.

  \<^bold>\<open>Not modelled.\<close> Waiting and sleeping; accepting connections on sockets and the CoAP server, which are library calls; the
  sample applications under \<^verbatim>\<open>src/examples\<close> and \<^verbatim>\<open>src/packages/examples\<close>, which repeat the sequences of calls that
  \<^verbatim>\<open>User_Packages\<close> has, with sampling functions of third-party libraries (of these the temperature of the simulated thermistor is
  in \<^verbatim>\<open>Simulated_Devices\<close>), and \<^verbatim>\<open>packages/aws_iot.py\<close>, whose transport argument only the library paho interprets. The control
  center's messages are not connected to the calls on the MQTT client. Floats are rationals; strings are ASCII; dictionaries keep
  the order of insertion, except in \<^verbatim>\<open>Si_Units\<close>, where the order of the tables is arbitrary. The waiting loops of the MQTT transport
  count rounds of 10 ms up to the time-out, which is a natural number of seconds.
\<close>

section \<open>The package manager\<close>

text \<open>C1. Whatever messages arrive, and whatever happens between them to the package directory (as long
  as no module lists a dependency twice) and to the start-up list, the tables stay consistent:
  the records are complete, the dependencies of a loaded package are loaded and know their
  dependent, packages stand in load order, every resource has one owner.\<close>

theorem package_manager_invariant:
  assumes "pm_reachable depth env s" "files_wf (pm_files env)" "key_order_ok env"
  shows "pm_inv s"
  using pm_good_reachable [OF assms] by (simp add: pm_good_def)

theorem package_manager_invariant_witness: "loaded ex_loaded ''b'' \<and> pm_inv ex_loaded"
proof -
  have "loaded ex_loaded ''b''" by (simp add: dict_has_def ex_loaded_keys del: set_map)
  moreover have "key_order_ok ex_env" "files_wf (pm_files ex_env)"
    using ex_files_wf by (simp_all add: ex_env_def key_order_ok_def)
  ultimately show ?thesis using package_manager_invariant [OF ex_reachable] by blast
qed

text \<open>C2. In every reachable state the dependencies between loaded packages are acyclic, although failed
  loads leave stale entries in the tables of dependents.\<close>

theorem dependencies_acyclic:
  assumes "pm_reachable depth env s" "files_wf (pm_files env)" "key_order_ok env"
  shows "acyclic (dep_graph s)"
  using acyclic_dep_graph pm_good_reachable [OF assms] by (simp add: pm_good_def)

theorem dependencies_acyclic_witness: "(''a'', ''b'') \<in> dep_graph ex_loaded \<and> acyclic (dep_graph ex_loaded)"
proof -
  have "map_option pr_dependencies (dict_get (packages_loaded ex_loaded) ''b'') = Some [''a'']" by code_simp
  then have "(''a'', ''b'') \<in> dep_graph ex_loaded" by (auto simp: dep_graph_def)
  moreover have "key_order_ok ex_env" "files_wf (pm_files ex_env)"
    using ex_files_wf by (simp_all add: ex_env_def key_order_ok_def)
  ultimately show ?thesis using dependencies_acyclic [OF ex_reachable] by blast
qed



text \<open>C4. A load that reports success has loaded the package: its record is in the table and carries the
  checksum that was verified, the file lies under the package path, all its dependencies are loaded
  and list it as a dependent.\<close>

theorem package_load_success:
  assumes "pm_inv s" "package_load depth f c a ext [] s = (Inr (Some pr), s')"
  shows "\<not> loaded s f \<and> dict_get (packages_loaded s') f = Some pr \<and> pr_file_name pr = f \<and>
    (\<exists>path fext cs h. package_chk_exists (pm_files s) (pm_cwd s) (package_path s) f ext = Some (path, fext, cs) \<and>
       startswith path (abspath (pm_cwd s) (package_path s) @ ''/'') \<and>
       pr_ext pr = Some fext \<and> pr_sha1 pr = Some h \<and>
       (c \<noteq> None \<longrightarrow> c = Some h \<and> h \<in> set cs) \<and> (c = None \<longrightarrow> sha1sum (pm_files s) path = Some h)) \<and>
    (\<forall>d\<in>set (pr_dependencies pr). loaded s' d \<and> f \<in> dependents_of (packages_loaded s') d)"
proof -
  have inv': "pm_inv s'" using package_load_contract [OF assms(1) _ assms(2)] load_extD(1) by auto
  obtain path fext cs sha1 where r: "\<not> loaded s f"
    "package_chk_exists (pm_files s) (pm_cwd s) (package_path s) f ext = Some (path, fext, cs)"
    "verify_integrity (pm_files s) c cs path = Inr (Some sha1)" "dict_get (packages_loaded s') f = Some pr"
    "pr_file_name pr = f" "pr_ext pr = Some fext" "pr_sha1 pr = Some sha1"
    using package_load_result [OF assms(1) _ assms(2)] by auto
  have "startswith path (abspath (pm_cwd s) (package_path s) @ ''/'')"
    using package_chk_exists_SomeD(1,2)[OF r(2)] by (auto simp: startswith_prefix)
  moreover have "(c \<noteq> None \<longrightarrow> c = Some sha1 \<and> sha1 \<in> set cs) \<and> (c = None \<longrightarrow> sha1sum (pm_files s) path = Some sha1)"
    using r(3) by (auto simp: verify_integrity_def split: option.splits if_splits)
  moreover have "\<forall>d\<in>set (pr_dependencies pr). loaded s' d \<and> f \<in> dependents_of (packages_loaded s') d"
    using deps_closedD [OF table_invD(3)[OF pm_invD(1)[OF inv']] r(4)] by blast
  ultimately show ?thesis using r by auto
qed

theorem package_load_success_witness:
  "\<exists>pr s'. package_load 3 ''b'' (Some ''hb'') False None [] ex_start = (Inr (Some pr), s') \<and> loaded s' ''a''"
proof -
  obtain r s' where l: "package_load 3 ''b'' (Some ''hb'') False None [] ex_start = (r, s')" by (metis prod.collapse)
  have "case fst (package_load 3 ''b'' (Some ''hb'') False None [] ex_start) of
      Inr (Some pr) \<Rightarrow> pr_dependencies pr = [''a''] | _ \<Rightarrow> False" by code_simp
  then obtain pr where pr: "r = Inr (Some pr)" "pr_dependencies pr = [''a'']"
    using l by (auto split: sum.splits option.splits)
  have inv: "pm_inv ex_start" using ex_good(1) by (simp add: pm_good_def)
  from package_load_success [OF inv l [unfolded pr(1)]] pr(2) l pr(1) show ?thesis by auto
qed

text \<open>C5. A load, successful or not, exception or not, takes nothing away: every package loaded before is
  still loaded with the same record up to new dependents, and without the \<^verbatim>\<open>-r\<close> flag the start-up list is
  not touched.\<close>

theorem package_load_conservative:
  assumes "pm_inv s" "package_load depth f c a ext [] s = (r, s')" "dict_get (packages_loaded s) g = Some pr"
  shows "(\<exists>pr'. dict_get (packages_loaded s') g = Some pr' \<and> pr_dependencies pr' = pr_dependencies pr \<and>
      pr_instance pr' = pr_instance pr \<and> pr_sha1 pr' = pr_sha1 pr \<and> pr_ext pr' = pr_ext pr \<and>
      set (pr_dependents pr) \<subseteq> set (pr_dependents pr')) \<and>
    (\<not> a \<longrightarrow> autoload s' = autoload s)"
proof -
  have c: "load_ext [] s s'" "\<not> a \<longrightarrow> autoload s' = autoload s"
    using package_load_contract [OF assms(1) _ assms(2)] by auto
  obtain pr' where pr': "dict_get (packages_loaded s') g = Some pr'" "core pr' = core pr"
    "set (pr_dependents pr) \<subseteq> set (pr_dependents pr')"
    using load_extD(3)[OF c(1)] assms(3) by (rule growsE)
  then show ?thesis using c(2) core_eqs [OF pr'(2)] by blast
qed

theorem package_load_conservative_witness:
  "\<exists>pr'. dict_get (packages_loaded (snd (package_load 5 ''x'' None False None [] ex_loaded))) ''a'' = Some pr'"
proof -
  have "loaded ex_loaded ''a''" by (simp add: dict_has_def ex_loaded_keys del: set_map)
  then obtain pr where pr: "dict_get (packages_loaded ex_loaded) ''a'' = Some pr" by (auto simp: dict_has_iff)
  have inv: "pm_inv ex_loaded" using ex_good(2) by (simp add: pm_good_def)
  from package_load_conservative [OF inv prod.collapse [symmetric] pr] show ?thesis by blast
qed

text \<open>A package on a cycle of the dependencies declared in the files is never loaded: if none of the
  packages on the cycle is loaded before, none is afterwards.\<close>

theorem cycle_never_loaded:
  assumes "pm_inv s" "package_load depth g c a None [] s = (r, s')" "(f, f) \<in> (file_graph s)\<^sup>+"
    and "\<forall>x. (f, x) \<in> (file_graph s)\<^sup>* \<longrightarrow> (x, f) \<in> (file_graph s)\<^sup>* \<longrightarrow> \<not> loaded s x"
  shows "\<not> loaded s' f"
proof
  assume l: "loaded s' f"
  have c: "load_ext [] s s'" "fresh_deps s s'" using package_load_contract [OF assms(1) _ assms(2)] by auto
  have inv': "pm_inv s'" by (rule load_extD(1)[OF c(1)])
  have "(f, f) \<in> (dep_graph s')\<^sup>+"
    using fresh_dep_path [OF inv' c(2) assms(3) l] assms(4) by (meson rtrancl.rtrancl_refl trancl_into_rtrancl)
  with acyclic_dep_graph [OF inv'] show False by (simp add: acyclic_def)
qed

theorem cycle_never_loaded_witness: "\<not> loaded (snd (package_load 5 ''x'' (Some ''hx'') False None [] ex_start)) ''x''"
proof -
  have "file_deps ex_start ''x'' = Some [''y'']" "file_deps ex_start ''y'' = Some [''x'']" by code_simp+
  then have "(''y'', ''x'') \<in> file_graph ex_start" "(''x'', ''y'') \<in> file_graph ex_start" by (auto simp: file_graph_def)
  then have cyc: "(''x'', ''x'') \<in> (file_graph ex_start)\<^sup>+" by (meson r_into_trancl trancl_into_trancl)
  have inv: "pm_inv ex_start" using ex_good(1) by (simp add: pm_good_def)
  have "\<not> loaded ex_start z" for z by (simp add: ex_start_def PackageThread_init_def)
  with cycle_never_loaded [OF inv prod.collapse [symmetric] cyc] show ?thesis by blast
qed







text \<open>C9. Code of a package, whatever it does with the registry object it is given, cannot change what other
  packages have registered, and keeps the registry consistent.\<close>

theorem package_code_confined:
  assumes "registry_inv r" "q \<noteq> p" "run_prog prog (get_package_registry p) r = (x, r')"
  shows "registry_inv r' \<and> owned r' q = owned r q \<and>
    (\<forall>i\<in>set (owned r q). dict_get (reg_registry r') i = dict_get (reg_registry r) i)"
  using registry_inv_run_prog [OF assms(1,3)] run_prog_frame [OF assms(1) _ assms(3)] assms(2)
  by (simp add: get_package_registry_def)

theorem package_code_confined_witness:
  "owned (snd (run_prog (k_run (ex_class ''ra'')) (get_package_registry ''c'') (resource_registry ex_loaded))) ''a'' = [''ra'']"
proof -
  have inv: "registry_inv (resource_registry ex_loaded)" using ex_good(2) by (auto simp: pm_good_def pm_inv_def)
  have "owned (resource_registry ex_loaded) ''a'' = [''ra'']" by code_simp
  with package_code_confined [OF inv _ prod.collapse [symmetric], of "''a''" "''c''" "k_run (ex_class ''ra'')"]
  show ?thesis by simp
qed

text \<open>C10. A name can not lead out of the package directory: the file that \<^verbatim>\<open>_package_chk_exists\<close> accepts has
  the package path as a directory prefix, and no component \<^verbatim>\<open>..\<close> is left in it.\<close>

theorem package_path_confined:
  assumes "startswith pp ''/''" "package_chk_exists fs cwd pp f None = Some (path, ext, cs)"
  shows "startswith path (abspath cwd pp @ ''/'') \<and> ''..'' \<notin> set (py_split CHR ''/'' path)"
proof -
  note d = package_chk_exists_SomeD [OF assms(2)]
  have "startswith path (abspath cwd pp @ ''/'')" using d(1,2) by (auto simp: startswith_prefix)
  moreover have "CHR ''/'' \<notin> set ext" "ext \<noteq> []" "ext \<noteq> ''.''" using d(4) by (auto simp: extensions_def)
  ultimately show ?thesis
    using no_dotdot_file [OF path_file_of_absolute(2)[OF assms(1)], of ext f] d(1) path_file_of_absolute(1)[OF assms(1)]
    by simp
qed

theorem package_path_confined_witness:
  "package_chk_exists ex_files ''/'' ''/p'' ''../p/./a'' None = Some (''/p/a.py'', ''py'', [''ha'', ''hac'']) \<and>
   startswith ''/p/a.py'' (abspath ''/'' ''/p'' @ ''/'')"
proof -
  have c: "package_chk_exists ex_files ''/'' ''/p'' ''../p/./a'' None = Some (''/p/a.py'', ''py'', [''ha'', ''hac''])"
    by code_simp
  moreover have "startswith ''/p'' ''/''" by code_simp
  ultimately show ?thesis using package_path_confined by blast
qed


text \<open>C12. Recording a package in the start-up list: on a list of records without stray separators, a
  package that is already listed is left as it is, with its old checksum, and another one is
  appended; the result reads back as that list.\<close>

theorem autoload_write_refines:
  assumes "entries_ok es" "field_ok f" "field_ok c"
  shows "\<exists>file. write_package_into_autoload f (Some c) (Some (file_of es)) = (Inr (), Some file) \<and>
    startup_list (Some file) = Inr (if f \<in> fst ` set es then es else es @ [(f, c)])"
proof -
  have "entries_ok (if f \<in> fst ` set es then es else es @ [(f, c)])" using assms by simp
  with write_file_of [OF assms(1), of f c] startup_file_of show ?thesis by blast
qed

theorem autoload_write_refines_witness:
  "\<exists>file. write_package_into_autoload ''b'' (Some ''h2'') (Some (file_of [(''a'', ''h1'')])) = (Inr (), Some file) \<and>
     startup_list (Some file) = Inr [(''a'', ''h1''), (''b'', ''h2'')]"
  using autoload_write_refines [of "[(''a'', ''h1'')]" "''b''" "''h2''"] by (simp add: field_ok_def line_free_def)

text \<open>Removing a package from the start-up list removes exactly its records.\<close>

theorem autoload_remove_refines:
  assumes "entries_ok es"
  shows "\<exists>file. remove_package_from_autoload f (Some (file_of es)) = (Inr (), Some file) \<and>
    startup_list (Some file) = Inr (filter (\<lambda>kv. fst kv \<noteq> f) es)"
  using remove_file_of [OF assms] startup_file_of [OF entries_ok_filter [OF assms]] by blast

theorem autoload_remove_refines_witness:
  "\<exists>file. remove_package_from_autoload ''a'' (Some (file_of [(''a'', ''h1''), (''b'', ''h2'')])) = (Inr (), Some file) \<and>
     startup_list (Some file) = Inr [(''b'', ''h2'')]"
  using autoload_remove_refines [of "[(''a'', ''h1''), (''b'', ''h2'')]" "''a''"] by (simp add: field_ok_def line_free_def)

text \<open>A command of two or more name and checksum pairs is executed as the batch load of those pairs in
  that order.\<close>

theorem batch_load_command:
  assumes "2 \<le> length ps" "fst (hd ps) \<noteq> ''-r''"
  shows "dispatch depth v (''load'' # concat (map (\<lambda>p. [fst p, snd p]) ps)) s = ran (package_load_list depth ps False s)"
  by (rule dispatch_load_batch [OF assms])

theorem batch_load_command_witness:
  "dispatch 3 ex_views [''load'', ''a'', ''ha'', ''b'', ''hb''] ex_start =
     ran (package_load_list 3 [(''a'', ''ha''), (''b'', ''hb'')] False ex_start)"
  using batch_load_command [of "[(''a'', ''ha''), (''b'', ''hb'')]" 3 ex_views ex_start] by simp

text \<open>C13. The messenger delivers a command written to the pipe as the list of its fields, if the fields have
  neither commas nor line feeds and nothing follows the last one.\<close>

theorem messenger_delivers:
  assumes "parts \<noteq> []" "\<forall>x\<in>set parts. CHR '','' \<notin> set x \<and> LF \<notin> set x" "parts \<noteq> [terminate_messenger]" "parts \<noteq> [[]]"
  shows "messenger_run (py_join '','' parts # rest) q = messenger_run rest (q @ [parts])"
  by (rule messenger_command [OF assms])

theorem messenger_delivers_witness:
  "messenger_run [''load,b,hb''] [] = (True, [[''load'', ''b'', ''hb'']])"
  using messenger_delivers [of "[''load'', ''b'', ''hb'']" "[]" "[]"] by (simp add: terminate_messenger_def)

section \<open>Packages\<close>





text \<open>C16. If the broker can not be reached, the package gives up after six connections, but the exception it raises is an
  \<open>AttributeError\<close> of its own handler, which disconnects an object that was never created; the cause is lost.\<close>

theorem unreachable_broker_hidden:
  assumes "w_get_entity ''edge_system'' w = (Inr es, w)" "user_identity w = (Inr ident, w)" "w_comms w = None"
    and "\<forall>n. \<exists>e m. Mqtt env (Some ident) (Some user_tls) True None (fst (w_client w n)) (snd (w_client w n)) = (Inl e, m) \<and> is_exception e"
    and "\<forall>name\<in>{''broker_ip'', ''broker_port'', ''broker_username''}. \<exists>s. pp_get (w_pp w) name (w_reg w) = Inr (RStr s)"
  shows "user_iotcc_mqtt_run literal_eval env w = (Inl AttributeError, w\<lparr>w_conn := 6 + w_conn w\<rparr>)"
  by (rule unreachable_run [OF assms(1,2)]) (use assms(3-5) in \<open>auto simp: unreachable_def holds_text_def\<close>)

theorem unreachable_broker_hidden_witness:
  "fst (user_iotcc_mqtt_run ex_literal ex_ssl (ex_world 9 []\<lparr>w_client := \<lambda>_. ([], ex_mqtt)\<rparr>)) = Inl AttributeError"
proof -
  let ?w = "ex_world 9 []\<lparr>w_client := \<lambda>_. ([], ex_mqtt)\<rparr>"
  have "w_get_entity ''edge_system'' ?w = (Inr (''gw'', ''sysgw'', ''EdgeSystem''), ?w)"
    by (simp add: w_get_entity_def w_get_obj_def w_get_def outcome_simps ex_world_def ex_registry_def pp_get_def get_def)
  moreover have "user_identity ?w = (Inr ex_identity, ?w)"
    by (simp add: user_identity_def w_get_str_def w_get_def outcome_simps ex_world_def ex_registry_def pp_get_def get_def ex_identity_def)
  moreover have "fst (Mqtt ex_ssl (Some ex_identity) (Some user_tls) True None [] ex_mqtt) = Inl GenericException" by code_simp
  then have "\<exists>e m. Mqtt ex_ssl (Some ex_identity) (Some user_tls) True None [] ex_mqtt = (Inl e, m) \<and> is_exception e"
    by (metis prod.collapse is_exception_def py_error.distinct)
  ultimately have "user_iotcc_mqtt_run ex_literal ex_ssl ?w = (Inl AttributeError, ?w\<lparr>w_conn := 6 + w_conn ?w\<rparr>)"
    by (intro unreachable_broker_hidden) (auto simp: ex_world_def ex_registry_def pp_get_def get_def)
  then show ?thesis by simp
qed

text \<open>C17. When the loop of the device package over any numbers returns, there is one registered device for each of them, in their
  order: it has the name made from the host and the number, its parent is the edge system, and the registry holds it under
  its name, whatever retries there were.\<close>

theorem device_package_links:
  assumes "device_loop parse_unit host edge is w = (Inr (), w')"
  shows "\<exists>ds. w_devices w' = w_devices w @ ds \<and>
    list_all2 (\<lambda>i d. ie_name (ir_entity d) = device_name host i \<and> ir_parent d = Some (ir_entity edge) \<and>
      (\<exists>k. dict_get (reg_registry (w_reg w')) (device_name host i) = Some (RObj k) \<and> dict_get (w_objs w') k = Some (Obj_reg d))) is ds"
proof -
  obtain ds where ds: "w_devices w' = w_devices w @ ds" "list_all2 (dev_ok host edge w') is ds" using device_loop_ok [OF assms] by blast
  show ?thesis by (rule exI [of _ ds], rule conjI [OF ds(1) list_all2_mono [OF ds(2)]]) (auto simp: dev_ok_def)
qed

theorem device_package_links_witness:
  "map (ie_name \<circ> ir_entity) (w_devices (snd (device_loop ex_no_unit ''h'' ex_edge [0]
     (ex_world 0 [ex_registered 2 ''d0'' ''sysh-ChildDev0'', ex_done 4, ex_done 6])))) = [''h-ChildDev0'']"
proof -
  let ?w = "ex_world 0 [ex_registered 2 ''d0'' ''sysh-ChildDev0'', ex_done 4, ex_done 6]"
  have "(case fst (device_link ex_no_unit ''h'' ex_edge 0 ?w) of Inl _ \<Rightarrow> False | Inr _ \<Rightarrow> True)" by code_simp
  then obtain d where "fst (device_link ex_no_unit ''h'' ex_edge 0 ?w) = Inr d" by (auto split: sum.splits)
  then have "fst (device_setup ex_no_unit ''h'' ex_edge 0 ?w) = Inr ()" by (rule device_setup_returns)
  then have "fst (device_loop ex_no_unit ''h'' ex_edge [0] ?w) = Inr ()"
    by (auto simp: then_e_def bind_e_def return_e_def split: prod.split sum.split)
  moreover define w' where "w' = snd (device_loop ex_no_unit ''h'' ex_edge [0] ?w)"
  ultimately have "device_loop ex_no_unit ''h'' ex_edge [0] ?w = (Inr (), w')" by (metis prod.collapse)
  from device_package_links [OF this] have "\<exists>d. w_devices w' = w_devices ?w @ [d] \<and> ie_name (ir_entity d) = device_name ''h'' 0"
    by (auto simp: list_all2_Cons1)
  moreover have "w_devices ?w = []" "device_name ''h'' 0 = ''h-ChildDev0''" by code_simp+
  ultimately show ?thesis unfolding w'_def [symmetric] by auto
qed

text \<open>The package for the statistics of the edge system starts its five metrics, and its clean-up stops them.\<close>

theorem edge_stats_package:
  assumes "w_get_reg ''iotcc_mqtt_edge_system'' w = (Inr es, w)" "w_get_obj ''iotcc_mqtt'' w = (Inr ob, w)"
  shows "\<exists>w'. edge_stats_run parse_unit w = (Inr (), w') \<and> w_metrics w' = [w_next w..<w_next w + 5] \<and>
    (\<forall>k\<in>set (w_metrics w'). alive (w_mh w') k \<and> \<not> alive (w_mh (snd (edge_stats_clean_up w'))) k)"
  using edge_stats_started [OF assms, of parse_unit] by (auto simp: starts_def edge_stats_stopped)

section \<open>The metric handler\<close>







text \<open>The exception: when the metric the checker waits for is stopped and an earlier one is started
  meanwhile, the checker hands out the new metric at once, although its run time has not come.\<close>

theorem early_collection_after_stop:
  "(case mh_run [AStart 1 0, AChecker, AChecker, AStop 0, AStart 1 1, AChecker, AChecker] (mh_start ex_metrics 0) of
      Some s \<Rightarrow> collect_queue s = [1] \<and> alive s 1 \<and> \<not> due s 1
    | None \<Rightarrow> False)"
  by code_simp

text \<open>\<^verbatim>\<open>terminate\<close> does not wake a checker that waits for a metric: the \<^verbatim>\<open>SystemExit\<close> sorts behind every
  metric, so no notification is sent; the thread sees its flag only after the metric's time.\<close>

theorem terminate_does_not_wake:
  assumes "mh_reachable ms now s" "\<forall>m r. dict_get ms m = Some r \<longrightarrow> next_run_time r = None"
    and "checker s = CWait m" "is_initialization_done s"
  shows "first_element_changed (terminate a b s) = first_element_changed s \<and> checker (terminate a b s) = CWait m \<and>
    \<not> checker_flag_alive (terminate a b s)"
  by (rule terminate_no_wake [OF mh_inv_reachable [OF assms(1,2)] assms(3,4)])

theorem terminate_does_not_wake_witness: "\<not> first_element_changed (terminate 7 8 ex_waiting)"
  using terminate_does_not_wake [OF ex_waiting_reachable ex_metrics_fresh ex_waiting_facts(4,5)] ex_waiting_facts(6) by simp

text \<open>C21. \<^verbatim>\<open>collect\<close> stores exactly the samples of the sampling function, in order, and counts them; a list
  counts with its length, a tuple or a single value as one, \<^verbatim>\<open>None\<close> as nothing.\<close>

theorem collect_stores_samples:
  assumes "sf (if sampling_args (ref_entity r) \<noteq> 0 then Some 1 else None) = Inr data"
  shows "\<exists>r'. collect sf now r = (Inr (), r') \<and> vals r' = vals r @ samples_of now data \<and>
    current_aggregation_size r' = current_aggregation_size r + int (length (samples_of now data)) \<and>
    next_run_time r' = next_run_time r \<and> flag_alive r' = flag_alive r"
  using collect_ok [of sf r data now, OF assms] by auto

theorem collect_stores_samples_witness:
  "\<exists>r'. collect (\<lambda>_. Inr (PList [PInt 4, PInt 5])) 9 (RegisteredMetric ex_metric ''m'') = (Inr (), r') \<and>
     vals r' = [PInt 4, PInt 5] \<and> current_aggregation_size r' = 2"
  using collect_stores_samples [of "\<lambda>_. Inr (PList [PInt 4, PInt 5])" "RegisteredMetric ex_metric ''m''" "PList [PInt 4, PInt 5]" 9]
  by (auto simp: samples_of_def RegisteredMetric_def)



section \<open>Filters and data center components\<close>

text \<open>C23. The interface between the sending thread and the data center components: publishing with Graphite, AWS IoT
  or the IoT control center leaves run time and state of a metric alone, as the metric handler needs, and if it
  returns, all queued values have been taken out of the queue.\<close>

theorem publish_contract:
  "publish_ok (publish (graphite_format_data fmt) send a) \<and>
   publish_ok (publish (aws_format_data fmt' parse_unit n es i enclose) send a) \<and>
   publish_ok (publish (iotcc_format_data fmt' par) send a) \<and>
   (case publish (graphite_format_data fmt) send a r of (Inr _, r') \<Rightarrow> vals r' = [] | (Inl _, r') \<Rightarrow> True) \<and>
   (case publish (aws_format_data fmt' parse_unit n es i enclose) send a r of (Inr _, r') \<Rightarrow> vals r' = [] | (Inl _, r') \<Rightarrow> True) \<and>
   (case publish (iotcc_format_data fmt' par) send a r of (Inr _, r') \<Rightarrow> vals r' = [] | (Inl _, r') \<Rightarrow> True)"
  using graphite.publish_schedule aws.publish_schedule ioc.publish_schedule
    graphite.publish_drains [of fmt send a r] aws.publish_drains [of fmt' parse_unit n es i enclose send a r]
    ioc.publish_drains [of fmt' par send a r]
  by (auto split: prod.splits sum.splits)

text \<open>C24. A range filter is the interval of its type: a number passes exactly if it lies in it, and anything that is
  not a number passes.\<close>

theorem range_filter_interval:
  "range_filter_value f v =
     (if is_number v \<and> number_of v \<notin> range_set (rf_type f) (number_of (lower_bound f)) (number_of (upper_bound f))
      then PNone else v)"
proof (cases "is_number v")
  case True
  then show ?thesis by (simp add: range_filter_set)
next
  case False
  then show ?thesis by (simp add: range_filter_value_def Let_def)
qed

text \<open>C25. A windowing scheme around a range filter lets at least one value per window through: of the samples inside
  the window and the first one at or after its end, one is not filtered out.\<close>

theorem window_passes_a_value:
  assumes "\<forall>p\<in>set ps. of_int (fst p) < next_window_time w" "next_window_time w \<le> of_int now" "v \<noteq> PNone"
    "\<not> sample_passed w"
  shows "\<exists>x\<in>set (fst (filter_stream (window_filt range_filt) (ps @ [(now, v)]) w)). x \<noteq> PNone"
  by (rule rf.window_passes_one [OF assms])

theorem window_passes_a_value_witness:
  "\<exists>x\<in>set (fst (filter_stream (window_filt range_filt) ([(1, PInt 50), (2, PInt 60)] @ [(1000, PInt 70)])
     \<lparr>filter_obj = \<lparr>rf_type = CLOSED, lower_bound = PInt 1, upper_bound = PInt 10\<rparr>, window_size_sec = 1,
      sample_passed = False, next_window_time = 1000\<rparr>)). x \<noteq> PNone"
  by (rule window_passes_a_value) simp_all

text \<open>The message for Graphite has one line per sample, in the order of collection, with the time in whole
  seconds; the queue is empty afterwards.\<close>

theorem graphite_message:
  assumes "vals r = map sample tvs" "tvs \<noteq> []"
  shows "graphite_format_data fmt r =
    (Inr (Some (concat (map (graphite_text fmt (m_name (ref_entity r))) tvs))), r\<lparr>vals := []\<rparr>)"
  by (rule graphite_format_samples [OF assms])

theorem graphite_message_witness:
  "fst (graphite_format_data (\<lambda>_. []) ((RegisteredMetric ex_metric ''m'')\<lparr>vals := map sample [(2500, PInt 7), (4000, PInt 8)]\<rparr>)) =
     Inr (Some (''temp 7 2'' @ [LF] @ ''temp 8 4'' @ [LF]))"
  using graphite_message [of "(RegisteredMetric ex_metric ''m'')\<lparr>vals := map sample [(2500, PInt 7), (4000, PInt 8)]\<rparr>"
      "[(2500, PInt 7), (4000, PInt 8)]" "\<lambda>_. []"]
  by (simp add: graphite_text_def py_str_def str_int_def digits_of.simps digit_char_def RegisteredMetric_def ex_metric_def)

text \<open>Two devices may be made each other's parent; from then on the hierarchy of names of either raises, whatever
  the recursion limit, so no metric below them can be published with its metadata.\<close>

theorem aws_parent_cycle:
  assumes "dict_get es i = Some a" "dict_get es j = Some b" "re_kind a = KDevice" "re_kind b = KDevice" "i \<noteq> j"
  shows "\<exists>es1 es2. aws_create_relationship i j es = (Inr (), es1) \<and> aws_create_relationship j i es1 = (Inr (), es2) \<and>
    get_entity_hierarchy n es2 i = Inl RuntimeError \<and> get_entity_hierarchy n es2 j = Inl RuntimeError"
proof -
  let ?es1 = "dict_set j (b\<lparr>re_parent := Some i\<rparr>) es"
  let ?es2 = "dict_set i (a\<lparr>re_parent := Some j\<rparr>) ?es1"
  have "extract_hierarchy n ?es2 (Some i) = Inl RuntimeError \<and> extract_hierarchy n ?es2 (Some j) = Inl RuntimeError"
    using assms(5) by (intro extract_cycle [where a = "a\<lparr>re_parent := Some j\<rparr>" and b = "b\<lparr>re_parent := Some i\<rparr>"]) auto
  then show ?thesis using assms
    by (intro exI [of _ ?es1] exI [of _ ?es2]) (simp add: aws_create_relationship_def set_parent_def get_entity_hierarchy_def)
qed

theorem aws_parent_cycle_witness:
  "\<exists>es1 es2. aws_create_relationship 0 1 [(0, RegisteredEntity KDevice ''a''), (1, RegisteredEntity KDevice ''b'')] = (Inr (), es1) \<and>
     aws_create_relationship 1 0 es1 = (Inr (), es2) \<and>
     get_entity_hierarchy 1000 es2 0 = Inl RuntimeError \<and> get_entity_hierarchy 1000 es2 1 = Inl RuntimeError"
  by (rule aws_parent_cycle [of _ _ "RegisteredEntity KDevice ''a''" _ "RegisteredEntity KDevice ''b''"])
     (simp_all add: RegisteredEntity_def)

section \<open>IoT control center\<close>

text \<open>C26. Transaction identifiers are even, fit into 25 bits, and are distinct for any \<open>2 ^ 24\<close> requests in a row; the
  one after that repeats the first.\<close>

theorem transaction_ids:
  assumes "n \<le> 2 ^ 24"
  shows "distinct (next_ids n s) \<and> (\<forall>i\<in>set (next_ids n s). even i \<and> 0 \<le> i \<and> i \<le> 0x1fffffe) \<and>
    next_ids (Suc (2 ^ 24)) s ! (2 ^ 24) = next_ids (Suc (2 ^ 24)) s ! 0"
  using next_ids_distinct [OF assms] next_ids_range next_ids_wrap by blast

theorem transaction_ids_witness: "distinct (next_ids 3 (ex_iotcc ''u1''))"
  using transaction_ids [of 3 "ex_iotcc ''u1''"] by simp

text \<open>C27. Whatever is called and whatever arrives, every open request has a queue of its own that is still empty, and
  no requester ever gets a second message.\<close>

theorem request_table_invariant:
  assumes "ic_reachable s0 s" "ic_req_dict s0 = []" "ic_queues s0 = []"
  shows "ic_inv s"
  by (rule ic_reachable_inv [OF assms(1) ic_inv_start [OF assms(2,3)]])

theorem request_table_invariant_witness:
  "ic_inv (snd (set_properties \<lparr>ir_metric = False, ir_entity = ex_sensor, ir_id = PStr ''u1'', ir_parent = None, ir_unit = None\<rparr>
     [] (snd (iotcc_register False None ex_sensor (ex_iotcc ''u1'')))))"
  by (rule request_table_invariant [where ?s0.0 = "ex_iotcc ''u1''"],
      intro ic_reachable.step [OF _ ic_step.set_properties] ic_reachable.step [OF _ ic_step.register] ic_reachable.start)
     (simp_all add: ex_iotcc_def)

text \<open>C28. When the service answers a registration with something else than the finished resource (\<^verbatim>\<open>"uuid": "null"\<close>, say),
  \<^verbatim>\<open>register\<close> means to wait for the next message, but the request is already closed: the wait always times out, even if
  that message arrives.\<close>

theorem register_never_sees_second_response:
  assumes "ic_inv s" "ic_send s (registration (next_tid s) (gateway_entity e)) = Inr ()"
    "ic_recv s = junk @ r # rest" "\<forall>x\<in>set junk. \<not> replies_to (next_tid s) x" "replies_to (next_tid s) r"
    "registration_reply (gateway_entity e) r = Inr None"
  shows "fst (register_entity e s) = Inl QueueEmpty"
  by (rule register_entity_not_created [OF assms])

theorem register_never_sees_second_response_witness:
  "fst (register_entity ex_sensor ((ex_iotcc ''null'')\<lparr>ic_recv := ex_junk @ ex_reply ''null'' # [ex_reply ''u1'']\<rparr>)) = Inl QueueEmpty"
proof (rule register_never_sees_second_response)
  let ?s = "(ex_iotcc ''null'')\<lparr>ic_recv := ex_junk @ ex_reply ''null'' # [ex_reply ''u1'']\<rparr>"
  show "ic_inv ?s" by (rule ic_inv_start) (simp_all add: ex_iotcc_def)
  have t: "next_tid ?s = 2" by (simp add: next_tid_def ex_iotcc_def)
  show "\<forall>x\<in>set ex_junk. \<not> replies_to (next_tid ?s) x" "replies_to (next_tid ?s) (ex_reply ''null'')"
    unfolding t using ex_junk_other ex_reply_answers by blast+
  show "ic_recv ?s = ex_junk @ ex_reply ''null'' # [ex_reply ''u1'']" by simp
qed (simp_all add: ex_iotcc_def ex_sensor_gateway ex_registration_reply)



text \<open>C30. Properties with a key or a value that is too long or has a character outside letters, digits, white space, dot,
  underscore and hyphen are refused before anything is sent or written.\<close>

theorem set_properties_checked:
  assumes "\<not> (\<forall>p\<in>set props. safe_text 100 (PStr (fst p)) \<and> safe_text 255 (snd p))"
  shows "(\<exists>err. fst (set_properties r props s) = Inl err) \<and>
    ic_sent (snd (set_properties r props s)) = ic_sent s \<and> ic_files (snd (set_properties r props s)) = ic_files s"
  using set_properties_unsafe [OF assms] by blast

theorem set_properties_checked_witness:
  "ic_sent (snd (set_properties \<lparr>ir_metric = False, ir_entity = ex_sensor, ir_id = PStr ''u1'', ir_parent = None, ir_unit = None\<rparr>
     [(''model'', PStr ''a;b'')] (ex_iotcc ''u1''))) = []"
proof -
  have "\<not> (\<forall>p\<in>set [(''model'', PStr ''a;b'')]. safe_text 100 (PStr (fst p)) \<and> safe_text 255 (snd p))"
    by (simp add: safe_text_def input_char_def is_alnum_def is_space_def Let_def)
  from set_properties_checked [OF this] show ?thesis by (simp add: ex_iotcc_def)
qed

text \<open>Unregistering the edge system deletes its section of \<^verbatim>\<open>iotcc.json\<close>; registering an edge system afterwards raises
  \<^verbatim>\<open>KeyError\<close> when its details are stored.\<close>

theorem edge_system_section_lost:
  assumes "ic_json s \<noteq> []" "dict_get (ic_files s) (ic_json s) = Some (FJson (PDict m))" "json_value (PDict m)"
    "dict_get m ''iotcc'' = Some (PDict c)" "dict_get c ''EdgeSystem'' = Some (PDict es)"
    "dict_get es ''SystemName'' = Some (PStr name)" "dict_get es ''uuid'' = Some (PStr u)" "ic_writable s (ic_json s)"
  shows "\<exists>t. remove_reg_entity_details name (PStr u) s = (Inr (), t) \<and>
    store_reg_entity_details ''HelixGateway'' name' uuid' local' t = (Inl KeyError, t)"
  by (rule edge_system_lost [OF assms])

theorem edge_system_section_lost_witness:
  "\<exists>t. remove_reg_entity_details ''gw'' (PStr ''u0'') (ex_iotcc ''u1'') = (Inr (), t) \<and>
     store_reg_entity_details ''HelixGateway'' ''gw'' (PStr ''u0'') ''id0'' t = (Inl KeyError, t)"
  by (rule edge_system_section_lost [where m = "[(''iotcc'', PDict [(''EdgeSystem'',
          PDict [(''SystemName'', PStr ''gw''), (''uuid'', PStr ''u0'')])])]" and
        c = "[(''EdgeSystem'', PDict [(''SystemName'', PStr ''gw''), (''uuid'', PStr ''u0'')])]" and
        es = "[(''SystemName'', PStr ''gw''), (''uuid'', PStr ''u0'')]"]) (simp_all add: ex_iotcc_def)

section \<open>Configuration and device discovery\<close>

text \<open>The configuration file is the first one that exists of: the working directory, the home directory, the place the
  environment names, the system-wide directory; once found it is not searched again.\<close>

theorem config_file_search:
  "path_liota_config (LiotaConfigPath h) =
     (if path_liota_config h \<noteq> [] then path_liota_config h
      else case List.find (\<lambda>p. os_exists p h) (config_candidates h) of None \<Rightarrow> [] | Some p \<Rightarrow> p)"
  by (simp add: LiotaConfigPath_def find_path_candidates split: option.split)

text \<open>C31. If the constructor of device discovery returns, its tables fit together: every device type that is mapped to data
  center components has at least one of them and a unique key, and the combined table has exactly these two.\<close>

theorem discovery_config_consistent:
  assumes "DiscoveryThread package_conf s = (Inr (), t)" "dict_get (c_type_dcc_map (d_config t)) ty = Some l"
  shows "l \<noteq> [] \<and> (\<exists>k. dict_get (c_type_key_map (d_config t)) ty = Some k \<and>
    dict_get (c_type_tuple (d_config t)) ty = Some (k, l))"
  using DiscoveryThread_ok [OF assms(1)] assms(2) by blast

theorem discovery_config_consistent_witness:
  "\<exists>k. dict_get (c_type_tuple (d_config (snd (DiscoveryThread None ex_disc)))) ''LM35'' = Some (k, [''graphite'', ''iotcc''])"
proof -
  have "fst (DiscoveryThread None ex_disc) = Inr ()" by code_simp
  then have "DiscoveryThread None ex_disc = (Inr (), snd (DiscoveryThread None ex_disc))" by (metis prod.collapse)
  moreover have "dict_get (c_type_dcc_map (d_config (snd (DiscoveryThread None ex_disc)))) ''LM35'' = Some [''graphite'', ''iotcc'']"
    by code_simp
  ultimately show ?thesis using discovery_config_consistent by blast
qed

text \<open>C32. What a message from a device can make the data center components do, whatever its content: calls go only to
  running components that are configured for the type of the device; the name of the device has only letters, digits,
  dot, underscore, hyphen and line feeds, and so have all properties except those of the organization.\<close>

theorem device_calls_safe:
  "\<exists>cs. d_calls (device_msg_process data s) = d_calls s @ cs \<and> (\<forall>c\<in>set cs. call_ok s c)"
  using device_msg_calls_grow [of s data] by (auto simp: calls_grow_def)

theorem device_calls_safe_witness:
  "call_ok ex_disc (hd (d_calls (device_msg_process (PDict [(''LM35'', PDict ex_props)]) ex_disc)))"
proof -
  have "d_calls ex_disc = []" "d_calls (device_msg_process (PDict [(''LM35'', PDict ex_props)]) ex_disc) \<noteq> []" by code_simp+
  with device_calls_safe [of "PDict [(''LM35'', PDict ex_props)]" ex_disc] show ?thesis by (metis append_Nil list.set_sel(1))
qed



section \<open>MQTT transport\<close>

text \<open>C34. With TLS settings the transport never connects in the clear: if it asks the client to connect at all, the TLS
  context was handed over first, and the credentials next if authentication is on. The context belongs to an identity
  whose certificate comes together with its key, all files it names exist, and verification of the host is off exactly
  if the mode is \<^verbatim>\<open>CERT_NONE\<close>. The mode must be given, although the code has a default for it, and a cipher can not be.\<close>

theorem mqtt_connects_securely:
  assumes "paho_log s = []" "Paho_connect \<in> set (paho_log (snd (Mqtt env ident (Some c) auth qos evs s)))"
  shows "\<exists>i none t creds rest. ident = Some i \<and>
    paho_log (snd (Mqtt env ident (Some c) auth qos evs s)) = Paho_tls t # creds @ rest \<and>
    (if auth then \<exists>u p. username i = Some u \<and> password i = Some p \<and> creds = [Paho_username_pw u p] else creds = []) \<and>
    ssl_attr env ''CERT_NONE'' = Some none \<and> (ts_insecure t \<longleftrightarrow> ts_verify_mode t = none) \<and>
    (given (cert_file i) \<longleftrightarrow> given (key_file i)) \<and>
    (given (cert_file i) \<longrightarrow> ssl_exists env (the (cert_file i)) \<and> ssl_exists env (the (key_file i)) \<and>
       ts_chain t = Some (the (cert_file i), the (key_file i))) \<and>
    (given (root_ca_cert i) \<longrightarrow> ssl_exists env (the (root_ca_cert i))) \<and>
    (\<forall>p. ts_crl t = Some p \<longrightarrow> ssl_exists env p) \<and> cert_required c \<noteq> None \<and> cipher c = None"
proof -
  let ?s = "s\<lparr>connect_rc := maxsize, disconnect_rc := maxsize, sub_dict := []\<rparr>"
  have m: "Mqtt env ident (Some c) auth qos evs s = connect_soc env ident (Some c) auth qos evs ?s"
    by (simp add: Mqtt_def outcome_simps)
  obtain t creds rest where t: "paho_log (snd (connect_soc env ident (Some c) auth qos evs ?s)) = Paho_tls t # creds @ rest"
    "setup_tls env ident c = Inr t" "if auth then \<exists>i u p. ident = Some i \<and> username i = Some u \<and> password i = Some p \<and>
      creds = [Paho_username_pw u p] else creds = []"
    using connect_soc_order [of ?s env ident c auth qos evs] assms unfolding m by (simp, blast)
  obtain i none where i: "ident = Some i" "ssl_attr env ''CERT_NONE'' = Some none"
    using setup_tls_safe [OF t(2)] by blast
  show ?thesis
    by (rule exI [of _ i], rule exI [of _ none], rule exI [of _ t], rule exI [of _ creds], rule exI [of _ rest])
       (use t i setup_tls_safe [OF t(2)] m in auto)
qed

theorem mqtt_connects_securely_witness:
  "\<exists>t rest. paho_log (snd (Mqtt ex_ssl (Some ex_identity) (Some ex_tls) True None [[], [EConnect 0]] ex_mqtt)) =
     Paho_tls t # Paho_username_pw ''u'' ''p'' # rest \<and> ts_chain t = Some (''c.pem'', ''k.pem'')"
proof -
  have "Paho_connect \<in> set (paho_log (snd (Mqtt ex_ssl (Some ex_identity) (Some ex_tls) True None [[], [EConnect 0]] ex_mqtt)))"
    "paho_log ex_mqtt = []" by code_simp+
  from mqtt_connects_securely [OF this(2,1)] show ?thesis by (auto simp: ex_identity_def given_def)
qed



section \<open>Simulators\<close>





text \<open>The simulator for CoAP is the only one whose loop ends.\<close>

theorem coap_simulator_ends:
  assumes "ca_flag s" "ca_cnt s = 0" "\<forall>t. ca_answer s t = Inr ()" "21 \<le> n"
  shows "\<exists>t. putResource n s = (Inr (), t) \<and> \<not> ca_flag t \<and> ca_put t = ca_put s @ map (beacon_text ''Banana23'' ''serial'') [0..<5]"
  by (rule putResource_ends [OF assms])

text \<open>Simulated devices stay in their ranges, so that the temperature of the thermistor can always be computed.\<close>

theorem simulated_devices_in_range:
  "bike_ok (bike_run rs (BikeSimulated wheel m_bike m_rider m_load intv))"
  "\<exists>c. get_thermistor_temperature (thermistor_run ds (ThermistorSimulated 5 3000 intv)) = Some c \<and> -273.15 < c"
  using bike_run_ok [OF BikeSimulated_ok] thermistor_temperature_defined [OF refl] by blast+

section \<open>Web socket\<close>

text \<open>C38. Sending over the web socket calls the client a bounded number of times: at most three connections and four sends, all of them
  of this message. Every connection verifies the host with the certificate of the identity if certificates are to be verified.
  If no exception is raised the client accepted the message, in the last of these calls.\<close>

theorem web_socket_send:
  "\<exists>cs p. snd (ws_send msg s) = s\<lparr>ws_open := p, ws_log := ws_log s @ cs\<rparr> \<and>
     length (filter is_connect cs) \<le> 3 \<and> length (filter (\<lambda>c. c = Ws_send msg) cs) \<le> 4 \<and>
     (\<forall>c\<in>set cs. connect_ok s c \<and> (\<forall>x. c = Ws_send x \<longrightarrow> x = msg)) \<and>
     (fst (ws_send msg s) = Inr () \<longrightarrow> accepted msg (snd (ws_send msg s)))"
proof -
  have "fst (ws_send msg s) = Inr () \<Longrightarrow> accepted msg (snd (ws_send msg s))"
    by (rule ws_send_accepted [of msg s]) (metis prod.collapse)
  with ws_send_calls [of msg s] show ?thesis unfolding ws_calls_def by blast
qed

theorem web_socket_send_witness: "accepted ''m'' (snd (ws_send ''m'' ex_websocket))"
proof -
  have "fst (ws_send ''m'' ex_websocket) = Inr ()" by code_simp
  with web_socket_send [of "''m''" ex_websocket] show ?thesis by blast
qed

section \<open>Units\<close>





text \<open>Outside of the tables the order matters: the coefficient of heat transfer, watt per square metre and kelvin, has two names.\<close>

theorem unit_name_depends_on_order:
  "get_unit_name re_obj_replaces re_obj_patches (Some ''watt / kelvin / meter ** 2'') \<noteq>
   get_unit_name re_obj_replaces (rev re_obj_patches) (Some ''watt / kelvin / meter ** 2'')"
  by code_simp

end
